(* ===== verification/Gateway_Prelude.thy ===== *)
theory Gateway_Prelude
  imports Complex_Main "HOL-Library.AList" "HOL-Library.Word"
begin

text \<open>
  Shared vocabulary of the development: the number and time types, the errors a C++ operation
  can end in, the model of \<open>std::unordered_map\<close> as an association list with distinct keys,
  the byte string operations of \<open>std::string\<close> that the sources call, and the collections of
  rewrite rules the component proofs share.
\<close>

section \<open>Types\<close>

text \<open>
  \<open>double\<close> is modelled by the rationals: every finite IEEE double is one, and the arithmetic of
  the sources is taken without its rounding. Clocks are integers in the unit the code casts them
  to (milliseconds or nanoseconds); \<open>int\<close> and \<open>int64_t\<close> fields are integers, and where a cast
  can wrap the wrap-around is written out.
\<close>

type_synonym double = rat
type_synonym ms = int
type_synonym u64 = "64 word"

text \<open>
  How an operation can fail: the exceptions of the standard library and of nlohmann::json that
  the sources let escape or catch, and \<open>UB\<close> for an operation whose behaviour C++ leaves
  undefined (a dangling iterator, \<open>back()\<close> of an empty list).
\<close>

datatype exn =
    TypeError            \<comment> \<open>nlohmann::json::type_error\<close>
  | ParseError           \<comment> \<open>nlohmann::json::parse_error\<close>
  | OutOfRange           \<comment> \<open>std::out_of_range\<close>
  | RuntimeError string  \<comment> \<open>std::runtime_error\<close>
  | BadFunctionCall      \<comment> \<open>std::bad_function_call\<close>
  | UB                   \<comment> \<open>undefined behaviour\<close>

type_synonym 'a result = "exn + 'a"

definition bindE :: "'a result \<Rightarrow> ('a \<Rightarrow> 'b result) \<Rightarrow> 'b result" where
  "bindE r f = (case r of Inl e \<Rightarrow> Inl e | Inr a \<Rightarrow> f a)"

named_theorems gw_simps
named_theorems gw_defs

lemma bindE_simps [simp]:
  "bindE (Inl e) f = Inl e"
  "bindE (Inr a) f = f a"
  by (simp_all add: bindE_def)

lemma bindE_eq_Inr: "bindE r f = Inr b \<longleftrightarrow> (\<exists>a. r = Inr a \<and> f a = Inr b)"
  by (cases r) simp_all

section \<open>Unordered maps\<close>

text \<open>
  \<open>std::unordered_map\<close>: an association list whose keys are distinct. The list order is the
  iteration order, which C++ does not fix; no theorem depends on more than that there is one.
\<close>

type_synonym ('k, 'v) umap = "('k \<times> 'v) list"

definition um_ok :: "('k, 'v) umap \<Rightarrow> bool" where
  "um_ok m \<longleftrightarrow> distinct (map fst m)"

definition um_find :: "('k, 'v) umap \<Rightarrow> 'k \<Rightarrow> 'v option" where
  "um_find m k = map_of m k"

definition um_set :: "'k \<Rightarrow> 'v \<Rightarrow> ('k, 'v) umap \<Rightarrow> ('k, 'v) umap" where
  "um_set k v m = AList.update k v m"

definition um_erase :: "'k \<Rightarrow> ('k, 'v) umap \<Rightarrow> ('k, 'v) umap" where
  "um_erase k m = AList.delete k m"

lemma um_find_empty [simp]: "um_find [] k = None"
  by (simp add: um_find_def)

lemma um_find_set [simp]: "um_find (um_set k v m) j = (if j = k then Some v else um_find m j)"
  by (simp add: um_find_def um_set_def update_conv')

lemma um_find_erase [simp]: "um_find (um_erase k m) j = (if j = k then None else um_find m j)"
  by (simp add: um_find_def um_erase_def delete_conv')

lemma um_ok_empty [simp]: "um_ok []"
  by (simp add: um_ok_def)

lemma um_ok_set [simp]: "um_ok m \<Longrightarrow> um_ok (um_set k v m)"
  by (simp add: um_ok_def um_set_def distinct_update)

lemma um_ok_erase [simp]: "um_ok m \<Longrightarrow> um_ok (um_erase k m)"
  by (simp add: um_ok_def um_erase_def distinct_delete)

lemma um_find_in: "um_ok m \<Longrightarrow> (k, v) \<in> set m \<longleftrightarrow> um_find m k = Some v"
  by (simp add: um_ok_def um_find_def)

lemma um_find_SomeD: "um_find m k = Some v \<Longrightarrow> (k, v) \<in> set m"
  by (simp add: um_find_def map_of_SomeD)

lemma um_ok_distinct: "um_ok m \<Longrightarrow> distinct (map fst m)"
  by (simp add: um_ok_def)

section \<open>Running a fallible operation over a list\<close>

fun foldE :: "('a \<Rightarrow> 's \<Rightarrow> 's result) \<Rightarrow> 'a list \<Rightarrow> 's \<Rightarrow> 's result" where
  "foldE f [] s = Inr s"
| "foldE f (x # xs) s = bindE (f x s) (foldE f xs)"

lemma foldE_append: "foldE f (xs @ ys) s = bindE (foldE f xs s) (foldE f ys)"
proof (induction xs arbitrary: s)
  case (Cons x xs)
  then show ?case by (cases "f x s") simp_all
qed simp

lemma foldE_invariant:
  assumes "\<And>x s. x \<in> set xs \<Longrightarrow> I s \<Longrightarrow> \<exists>s'. f x s = Inr s' \<and> I s'" and "I s"
  shows "\<exists>s'. foldE f xs s = Inr s' \<and> I s'"
  using assms
proof (induction xs arbitrary: s)
  case (Cons x xs)
  then obtain s' where "f x s = Inr s'" "I s'" by (meson list.set_intros(1))
  with Cons show ?case by simp
qed simp

fun mapE :: "('a \<Rightarrow> 'b result) \<Rightarrow> 'a list \<Rightarrow> 'b list result" where
  "mapE f [] = Inr []"
| "mapE f (x # xs) = bindE (f x) (\<lambda>y. bindE (mapE f xs) (\<lambda>ys. Inr (y # ys)))"

lemma mapE_map: "(\<And>x. x \<in> set xs \<Longrightarrow> f (g x) = Inr x) \<Longrightarrow> mapE f (map g xs) = Inr xs"
  by (induction xs) simp_all

section \<open>Step systems\<close>

text \<open>The states that a component can reach by its steps, and the rule for their invariants.\<close>

inductive reach_of :: "('s \<Rightarrow> bool) \<Rightarrow> ('s \<Rightarrow> 's \<Rightarrow> bool) \<Rightarrow> 's \<Rightarrow> bool" for start step where
  start: "start s \<Longrightarrow> reach_of start step s"
| step: "reach_of start step s \<Longrightarrow> step s s' \<Longrightarrow> reach_of start step s'"

locale step_system =
  fixes start :: "'s \<Rightarrow> bool" and step :: "'s \<Rightarrow> 's \<Rightarrow> bool" and inv :: "'s \<Rightarrow> bool"
  assumes start_inv: "start s \<Longrightarrow> inv s"
    and step_inv: "step s s' \<Longrightarrow> inv s \<Longrightarrow> inv s'"
begin

lemma reach_inv: "reach_of start step s \<Longrightarrow> inv s"
  by (induction rule: reach_of.induct) (auto intro: start_inv step_inv)

lemma reach_inv_from:
  assumes "inv s0" "reach_of (\<lambda>s. s = s0) step s"
  shows "inv s"
  using assms(2,1) by (induction rule: reach_of.induct) (auto intro: step_inv)

end

section \<open>Strings\<close>

text \<open>\<open>std::string::substr(0, n)\<close>, \<open>rfind(p, 0) == 0\<close> and \<open>std::to_string\<close> of a natural number.\<close>

definition starts_with :: "string \<Rightarrow> string \<Rightarrow> bool" where
  "starts_with p s \<longleftrightarrow> take (length p) s = p"

lemma starts_with_append [simp]: "starts_with p (p @ s)"
  by (simp add: starts_with_def)

lemma starts_with_eq: "starts_with p s \<Longrightarrow> s = p @ drop (length p) s"
  unfolding starts_with_def by (metis append_take_drop_id)

definition digit_char :: "nat \<Rightarrow> char" where
  "digit_char d = char_of (48 + d)"

fun nat_to_string :: "nat \<Rightarrow> string" where
  "nat_to_string n =
     (if n < 10 then [digit_char n] else nat_to_string (n div 10) @ [digit_char (n mod 10)])"

declare nat_to_string.simps [simp del]

lemma of_digit_char: "d < 10 \<Longrightarrow> of_char (digit_char d) = 48 + d"
  by (simp add: digit_char_def)

lemma nat_to_string_digits: "c \<in> set (nat_to_string n) \<Longrightarrow> 48 \<le> (of_char c :: nat) \<and> (of_char c :: nat) < 58"
proof (induction n rule: nat_to_string.induct)
  case (1 n)
  then show ?case using of_digit_char[of n] of_digit_char[of "n mod 10"]
    by (subst (asm) (2) nat_to_string.simps) (auto split: if_splits)
qed

text \<open>\<open>fs::path::extension\<close>: from the last dot of the file name, which must not be its first character.\<close>

definition file_name :: "string \<Rightarrow> string" where
  "file_name path = rev (takeWhile (\<lambda>c. c \<noteq> CHR ''/'') (rev path))"

definition path_extension :: "string \<Rightarrow> string" where
  "path_extension path =
     (let name = file_name path; stem = dropWhile (\<lambda>c. c \<noteq> CHR ''.'') (rev name) in
      if length stem \<le> 1 \<or> name = ''..'' then [] else CHR ''.'' # rev (takeWhile (\<lambda>c. c \<noteq> CHR ''.'') (rev name)))"

end
