(* ===== verification/Router.thy ===== *)
theory Router
  imports Gateway_Prelude
begin

text \<open>
  \<open>include/router.h\<close> and the \<open>BackendNode\<close> of \<open>include/common.h\<close>: smooth weighted round robin
  over the healthy nodes of a group, and the routing of a model name to its group or to the
  default group. The lemmas show that a pick takes a maximal healthy node, that the current
  weights stay bounded, and that a full cycle of picks gives every healthy node exactly its
  weight.
\<close>

section \<open>Backend nodes\<close>

datatype provider = KIMI | OPENAI | ANTHROPIC

record backend_node =
  bn_name :: string
  bn_url :: string
  bn_api_key :: string
  bn_provider :: provider
  bn_model :: string
  bn_weight :: int
  bn_active_conns :: int
  bn_healthy :: bool

definition default_node :: backend_node where
  "default_node = \<lparr>bn_name = [], bn_url = [], bn_api_key = [], bn_provider = KIMI,
     bn_model = [], bn_weight = 1, bn_active_conns = 0, bn_healthy = True\<rparr>"

section \<open>LoadBalancer\<close>

text \<open>
  \<open>cw_\<close> is an \<open>unordered_map<string,int>\<close> read and written only through \<open>operator[]\<close>, which
  creates missing entries as 0 and is never iterated: a total function that is 0 where the map
  has no entry.
\<close>

record load_balancer =
  lb_nodes :: "backend_node list"
  lb_cw :: "string \<Rightarrow> int"

definition empty_lb :: load_balancer where
  "empty_lb = \<lparr>lb_nodes = [], lb_cw = (\<lambda>_. 0)\<rparr>"

definition add_node :: "backend_node \<Rightarrow> load_balancer \<Rightarrow> load_balancer" where
  "add_node n lb = lb\<lparr>lb_nodes := lb_nodes lb @ [n]\<rparr>"

text \<open>The loop of \<open>pick\<close> over \<open>nodes_\<close>, with its locals \<open>total\<close> (here \<open>tot\<close>) and \<open>best\<close> and the map \<open>cw_\<close>.\<close>

fun pick_loop :: "backend_node list \<Rightarrow> int \<Rightarrow> backend_node option \<Rightarrow> (string \<Rightarrow> int) \<Rightarrow>
    int \<times> backend_node option \<times> (string \<Rightarrow> int)" where
  "pick_loop [] tot best cw = (tot, best, cw)"
| "pick_loop (n # ns) tot best cw =
     (if \<not> bn_healthy n then pick_loop ns tot best cw
      else
        let cw' = cw(bn_name n := cw (bn_name n) + bn_weight n);
            best' = (case best of
                       None \<Rightarrow> Some n
                     | Some b \<Rightarrow> if cw' (bn_name n) > cw' (bn_name b) then Some n else best)
        in pick_loop ns (tot + bn_weight n) best' cw')"

definition pick :: "load_balancer \<Rightarrow> backend_node option \<times> load_balancer" where
  "pick lb =
     (if lb_nodes lb = [] then (None, lb)
      else
        let (tot, best, cw) = pick_loop (lb_nodes lb) 0 None (lb_cw lb)
        in (case best of
              None \<Rightarrow> (None, lb\<lparr>lb_cw := cw\<rparr>)
            | Some b \<Rightarrow>
                (Some b, lb\<lparr>lb_cw := cw(bn_name b := cw (bn_name b) - tot)\<rparr>)))"

text \<open>\<open>mark_unhealthy\<close> and \<open>mark_healthy\<close>: the first node of that name, then \<open>break\<close>.\<close>

fun set_health :: "bool \<Rightarrow> string \<Rightarrow> backend_node list \<Rightarrow> backend_node list" where
  "set_health h name [] = []"
| "set_health h name (n # ns) =
     (if bn_name n = name then n\<lparr>bn_healthy := h\<rparr> # ns else n # set_health h name ns)"

definition mark_unhealthy :: "string \<Rightarrow> load_balancer \<Rightarrow> load_balancer" where
  "mark_unhealthy name lb = lb\<lparr>lb_nodes := set_health False name (lb_nodes lb)\<rparr>"

definition mark_healthy :: "string \<Rightarrow> load_balancer \<Rightarrow> load_balancer" where
  "mark_healthy name lb = lb\<lparr>lb_nodes := set_health True name (lb_nodes lb)\<rparr>"

section \<open>Router\<close>

type_synonym router = "string \<rightharpoonup> load_balancer"

definition register_node :: "string \<Rightarrow> backend_node \<Rightarrow> router \<Rightarrow> router" where
  "register_node route_key n r =
     r(route_key \<mapsto> add_node n (case r route_key of None \<Rightarrow> empty_lb | Some lb \<Rightarrow> lb))"

definition default_group :: string where
  "default_group = ''*''"

definition route_default :: "router \<Rightarrow> backend_node option \<times> router" where
  "route_default r =
     (case r default_group of
        None \<Rightarrow> (None, r)
      | Some lb \<Rightarrow> let (n, lb') = pick lb in (n, r(default_group \<mapsto> lb')))"

definition route :: "string \<Rightarrow> router \<Rightarrow> backend_node option \<times> router" where
  "route model r =
     (case r model of
        None \<Rightarrow> route_default r
      | Some lb \<Rightarrow>
          let (n, lb') = pick lb; r' = r(model \<mapsto> lb')
          in (case n of Some b \<Rightarrow> (Some b, r') | None \<Rightarrow> route_default r'))"

section \<open>What one pick does\<close>

definition healthy_nodes :: "load_balancer \<Rightarrow> backend_node list" where
  "healthy_nodes lb = filter bn_healthy (lb_nodes lb)"

definition total_weight :: "load_balancer \<Rightarrow> int" where
  "total_weight lb = sum_list (map bn_weight (healthy_nodes lb))"

definition names_distinct :: "load_balancer \<Rightarrow> bool" where
  "names_distinct lb \<longleftrightarrow> distinct (map bn_name (lb_nodes lb))"

lemma pick_loop_filter:
  "pick_loop ns tot best cw = pick_loop (filter bn_healthy ns) tot best cw"
  by (induction ns arbitrary: tot best cw) (simp_all add: Let_def)

lemma pick_loop_total:
  "fst (pick_loop ns tot best cw) = tot + sum_list (map bn_weight (filter bn_healthy ns))"
  by (induction ns arbitrary: tot best cw) (simp_all add: Let_def)

lemma pick_loop_best_in:
  "fst (snd (pick_loop ns tot best cw)) = Some b \<Longrightarrow>
     best = Some b \<or> (b \<in> set ns \<and> bn_healthy b)"
  by (induction ns arbitrary: tot best cw)
    (auto simp: Let_def split: if_splits option.splits)

lemma pick_loop_best_None:
  "fst (snd (pick_loop ns tot best cw)) = None \<longleftrightarrow>
     best = None \<and> (\<forall>n \<in> set ns. \<not> bn_healthy n)"
  by (induction ns arbitrary: tot best cw)
    (auto simp: Let_def split: if_splits option.splits)

lemma pick_loop_cw_other:
  "x \<notin> bn_name ` set (filter bn_healthy ns) \<Longrightarrow> snd (snd (pick_loop ns tot best cw)) x = cw x"
  by (induction ns arbitrary: tot best cw) (auto simp: Let_def split: if_splits)

lemma pick_loop_cw:
  "distinct (map bn_name (filter bn_healthy ns)) \<Longrightarrow> n \<in> set ns \<Longrightarrow> bn_healthy n \<Longrightarrow>
     snd (snd (pick_loop ns tot best cw)) (bn_name n) = cw (bn_name n) + bn_weight n"
proof (induction ns arbitrary: tot best cw)
  case (Cons m ns)
  show ?case
  proof (cases "n = m")
    case True
    with Cons.prems show ?thesis by (auto simp: Let_def pick_loop_cw_other)
  next
    case False
    with Cons.prems have "bn_healthy m \<Longrightarrow> bn_name n \<noteq> bn_name m"
      by (auto simp: image_iff)
    with False Cons show ?thesis by (auto simp: Let_def)
  qed
qed simp

lemma pick_loop_best_max:
  assumes "distinct (map bn_name (filter bn_healthy ns))"
    and "\<And>b. best = Some b \<Longrightarrow> bn_name b \<notin> bn_name ` set (filter bn_healthy ns)"
    and "pick_loop ns tot best cw = (t, Some b, cw')"
  shows "(\<forall>n \<in> set ns. bn_healthy n \<longrightarrow> cw' (bn_name n) \<le> cw' (bn_name b)) \<and>
    (\<forall>c. best = Some c \<longrightarrow> cw' (bn_name c) \<le> cw' (bn_name b))"
  using assms
proof (induction ns arbitrary: tot best cw)
  case Nil
  then show ?case by simp
next
  case (Cons m ns)
  show ?case
  proof (cases "bn_healthy m")
    case False
    with Cons.prems Cons.IH[of best tot cw] show ?thesis by simp
  next
    case True
    let ?cw = "cw(bn_name m := cw (bn_name m) + bn_weight m)"
    let ?best = "case best of None \<Rightarrow> Some m
      | Some b \<Rightarrow> if ?cw (bn_name m) > ?cw (bn_name b) then Some m else best"
    have run: "pick_loop ns (tot + bn_weight m) ?best ?cw = (t, Some b, cw')"
      using Cons.prems(3) True by (simp add: Let_def)
    have dist: "distinct (map bn_name (filter bn_healthy ns))"
      and m_new: "bn_name m \<notin> bn_name ` set (filter bn_healthy ns)"
      using Cons.prems(1) True by auto
    have best_new: "bn_name c \<notin> bn_name ` set (filter bn_healthy ns)" if "?best = Some c" for c
      using that m_new Cons.prems(2) True by (auto split: option.splits if_splits)
    have IH: "(\<forall>n \<in> set ns. bn_healthy n \<longrightarrow> cw' (bn_name n) \<le> cw' (bn_name b)) \<and>
        (\<forall>c. ?best = Some c \<longrightarrow> cw' (bn_name c) \<le> cw' (bn_name b))"
      using Cons.IH[OF dist best_new run] by blast
    have same: "cw' x = ?cw x" if "x \<notin> bn_name ` set (filter bn_healthy ns)" for x
      using pick_loop_cw_other[OF that, of "tot + bn_weight m" ?best ?cw] run by simp
    have old: "cw' (bn_name c) = ?cw (bn_name c)" if "best = Some c" for c
      using same Cons.prems(2)[OF that] True by simp
    show ?thesis
      using IH same[OF m_new] old by (auto split: option.splits if_splits)
  qed
qed

text \<open>
  The contract of one pick: the winner is a healthy node of the group whose raised weight is
  maximal; every healthy weight is raised by the node's weight and the winner's is lowered by the
  total; no other weight and no node changes.
\<close>

definition raised :: "load_balancer \<Rightarrow> backend_node \<Rightarrow> int" where
  "raised lb n = lb_cw lb (bn_name n) + bn_weight n"

lemma pick_nodes [simp]: "lb_nodes (snd (pick lb)) = lb_nodes lb"
  by (auto simp: pick_def Let_def split: prod.splits option.splits)

lemma pick_None_iff: "fst (pick lb) = None \<longleftrightarrow> healthy_nodes lb = []"
proof -
  obtain t b cw where run: "pick_loop (lb_nodes lb) 0 None (lb_cw lb) = (t, b, cw)"
    by (metis prod_cases3)
  have "b = None \<longleftrightarrow> (\<forall>n \<in> set (lb_nodes lb). \<not> bn_healthy n)"
    using pick_loop_best_None[of "lb_nodes lb" 0 None "lb_cw lb"] run by simp
  then show ?thesis
    by (auto simp: pick_def run healthy_nodes_def filter_empty_conv split: option.splits)
qed

lemma pick_Some_in:
  assumes "pick lb = (Some b, lb')"
  shows "b \<in> set (healthy_nodes lb)"
proof -
  obtain t b0 cw where run: "pick_loop (lb_nodes lb) 0 None (lb_cw lb) = (t, b0, cw)"
    by (metis prod_cases3)
  have "b0 = Some b"
    using assms by (auto simp: pick_def run split: option.splits if_splits)
  then show ?thesis
    using pick_loop_best_in[of "lb_nodes lb" 0 None "lb_cw lb" b] run
    by (auto simp: healthy_nodes_def)
qed

lemma names_distinct_healthy:
  "names_distinct lb \<Longrightarrow> distinct (map bn_name (filter bn_healthy (lb_nodes lb)))"
  by (simp add: names_distinct_def distinct_map_filter)

lemma pick_Some_spec:
  assumes dist: "names_distinct lb" and pick: "pick lb = (Some b, lb')"
  shows "\<forall>n \<in> set (healthy_nodes lb). raised lb n \<le> raised lb b"
    and "\<forall>n \<in> set (healthy_nodes lb). lb_cw lb' (bn_name n) =
           (if n = b then raised lb b - total_weight lb else raised lb n)"
    and "\<forall>x. x \<notin> bn_name ` set (healthy_nodes lb) \<longrightarrow> lb_cw lb' x = lb_cw lb x"
proof -
  obtain t b0 cw where run: "pick_loop (lb_nodes lb) 0 None (lb_cw lb) = (t, b0, cw)"
    by (metis prod_cases3)
  have b0: "b0 = Some b" and lb': "lb' = lb\<lparr>lb_cw := cw(bn_name b := cw (bn_name b) - t)\<rparr>"
    using pick by (auto simp: pick_def run split: option.splits if_splits)
  have t: "t = total_weight lb"
    using pick_loop_total[of "lb_nodes lb" 0 None "lb_cw lb"] run
    by (simp add: total_weight_def healthy_nodes_def)
  have cw: "cw (bn_name n) = raised lb n" if "n \<in> set (healthy_nodes lb)" for n
    using pick_loop_cw[OF names_distinct_healthy[OF dist], of n 0 None "lb_cw lb"] that run
    by (simp add: raised_def healthy_nodes_def)
  have inj: "bn_name n = bn_name m \<longleftrightarrow> n = m"
    if "n \<in> set (healthy_nodes lb)" "m \<in> set (healthy_nodes lb)" for n m
    using dist that unfolding names_distinct_def healthy_nodes_def
    by (metis distinct_map filter_is_subset inj_onD subsetD)
  have b_in: "b \<in> set (healthy_nodes lb)"
    using pick by (rule pick_Some_in)
  have "\<forall>n \<in> set (lb_nodes lb). bn_healthy n \<longrightarrow> cw (bn_name n) \<le> cw (bn_name b)"
    using pick_loop_best_max[OF names_distinct_healthy[OF dist], of None 0 "lb_cw lb" t b cw]
      run b0 by simp
  then show "\<forall>n \<in> set (healthy_nodes lb). raised lb n \<le> raised lb b"
    using cw b_in by (fastforce simp: healthy_nodes_def)
  show "\<forall>n \<in> set (healthy_nodes lb). lb_cw lb' (bn_name n) =
      (if n = b then raised lb b - total_weight lb else raised lb n)"
    using cw inj b_in by (auto simp: lb' t)
  show "\<forall>x. x \<notin> bn_name ` set (healthy_nodes lb) \<longrightarrow> lb_cw lb' x = lb_cw lb x"
    using pick_loop_cw_other[of _ "lb_nodes lb" 0 None "lb_cw lb"] run b_in
    by (auto simp: lb' healthy_nodes_def)
qed

section \<open>Fairness over a cycle\<close>

text \<open>\<open>k\<close> successive picks, the nodes in the order they were picked.\<close>

fun picks :: "nat \<Rightarrow> load_balancer \<Rightarrow> backend_node option list \<times> load_balancer" where
  "picks 0 lb = ([], lb)"
| "picks (Suc k) lb =
     (let (ns, lb') = picks k lb; (n, lb'') = pick lb' in (ns @ [n], lb''))"

definition fair_state :: "load_balancer \<Rightarrow> nat \<Rightarrow> backend_node option list \<Rightarrow> load_balancer \<Rightarrow> bool" where
  "fair_state lb k ns lb' \<longleftrightarrow>
     lb_nodes lb' = lb_nodes lb \<and> length ns = k \<and>
     set ns \<subseteq> Some ` set (healthy_nodes lb) \<and>
     (\<forall>n \<in> set (healthy_nodes lb).
        lb_cw lb' (bn_name n) = int k * bn_weight n - total_weight lb * int (count_list ns (Some n)) \<and>
        - total_weight lb < lb_cw lb' (bn_name n))"

definition cold :: "load_balancer \<Rightarrow> bool" where
  "cold lb \<longleftrightarrow> names_distinct lb \<and> 0 < total_weight lb \<and>
     (\<forall>n \<in> set (healthy_nodes lb). 0 \<le> bn_weight n \<and> lb_cw lb (bn_name n) = 0)"

lemma healthy_nodes_cong:
  "lb_nodes lb' = lb_nodes lb \<Longrightarrow> healthy_nodes lb' = healthy_nodes lb"
  by (simp add: healthy_nodes_def)

lemma total_weight_cong:
  "lb_nodes lb' = lb_nodes lb \<Longrightarrow> total_weight lb' = total_weight lb"
  by (simp add: total_weight_def healthy_nodes_def)

lemma names_distinct_cong:
  "lb_nodes lb' = lb_nodes lb \<Longrightarrow> names_distinct lb' = names_distinct lb"
  by (simp add: names_distinct_def)

lemma sum_count_list:
  assumes "distinct xs" "set ns \<subseteq> Some ` set xs"
  shows "(\<Sum>n\<leftarrow>xs. int (count_list ns (Some n))) = int (length ns)"
  using assms(2)
proof (induction ns)
  case Nil
  show ?case by simp
next
  case (Cons m ns)
  then obtain y where y: "m = Some y" "y \<in> set xs" by auto
  have "(\<Sum>n\<leftarrow>xs. int (count_list (m # ns) (Some n))) =
      (\<Sum>n\<leftarrow>xs. int (count_list ns (Some n)) + (if n = y then 1 else 0))"
    by (intro arg_cong[where f = sum_list] map_cong) (auto simp: y)
  also have "\<dots> = int (length ns) + (\<Sum>n\<leftarrow>xs. if n = y then 1 else 0)"
    using Cons.IH Cons.prems by (simp only: sum_list_addf set_simps insert_subset)
  also have "(\<Sum>n\<leftarrow>xs. if n = y then 1 else 0) = (1::int)"
    using assms(1) y(2) by (simp add: sum_list_distinct_conv_sum_set)
  finally show ?case by simp
qed

lemma sum_list_const_mult_int: "(\<Sum>x\<leftarrow>xs. c * f x) = (c::int) * (\<Sum>x\<leftarrow>xs. f x)"
  by (induction xs) (simp_all add: algebra_simps)

lemma sum_list_nonpos_int: "(\<And>x. x \<in> set xs \<Longrightarrow> f x \<le> (0::int)) \<Longrightarrow> (\<Sum>x\<leftarrow>xs. f x) \<le> 0"
  by (induction xs) (simp_all add: add_nonpos_nonpos)

lemma sum_raised:
  assumes cold: "cold lb" and fair: "fair_state lb k ns lb'"
  shows "(\<Sum>n\<leftarrow>healthy_nodes lb. raised lb' n) = total_weight lb"
proof -
  let ?H = "healthy_nodes lb" and ?W = "total_weight lb"
  have dist: "distinct ?H"
    using cold by (simp add: cold_def names_distinct_def healthy_nodes_def distinct_map)
  have count: "(\<Sum>n\<leftarrow>?H. int (count_list ns (Some n))) = int k"
    using sum_count_list[OF dist] fair by (simp add: fair_state_def)
  have "(\<Sum>n\<leftarrow>?H. raised lb' n) =
      (\<Sum>n\<leftarrow>?H. int (Suc k) * bn_weight n - ?W * int (count_list ns (Some n)))"
    using fair by (intro arg_cong[where f = sum_list] map_cong)
      (auto simp: fair_state_def raised_def algebra_simps)
  also have "\<dots> = int (Suc k) * (\<Sum>n\<leftarrow>?H. bn_weight n) -
      ?W * (\<Sum>n\<leftarrow>?H. int (count_list ns (Some n)))"
    by (simp only: sum_list_subtractf sum_list_const_mult_int)
  also have "\<dots> = ?W"
    by (simp add: count total_weight_def[of lb] algebra_simps)
  finally show ?thesis .
qed

lemma fair_step:
  assumes cold: "cold lb" and fair: "fair_state lb k ns lb'" and pick: "pick lb' = (n, lb'')"
  shows "fair_state lb (Suc k) (ns @ [n]) lb''"
proof -
  have nodes: "lb_nodes lb' = lb_nodes lb" using fair by (simp add: fair_state_def)
  have H: "healthy_nodes lb' = healthy_nodes lb" and W: "total_weight lb' = total_weight lb"
    using nodes by (rule healthy_nodes_cong, rule total_weight_cong)
  have dist: "names_distinct lb'"
    using cold names_distinct_cong[OF nodes] by (simp add: cold_def)
  have "healthy_nodes lb' \<noteq> []"
    using cold H by (auto simp: cold_def total_weight_def)
  then obtain b where n: "n = Some b"
    using pick_None_iff[of lb'] pick by (cases n) auto
  note spec = pick_Some_spec[OF dist, of b lb'', unfolded H W]
  have b_in: "b \<in> set (healthy_nodes lb)"
    using pick_Some_in[of lb' b lb''] pick n H by simp
  have "\<not> raised lb' b \<le> 0"
  proof
    assume "raised lb' b \<le> 0"
    then have "\<And>m. m \<in> set (healthy_nodes lb) \<Longrightarrow> raised lb' m \<le> 0"
      using spec(1) pick n by force
    then have "(\<Sum>m\<leftarrow>healthy_nodes lb. raised lb' m) \<le> 0" by (rule sum_list_nonpos_int)
    then show False using sum_raised[OF cold fair] cold by (simp add: cold_def)
  qed
  then have pos: "0 < raised lb' b" by simp
  have cw: "lb_cw lb'' (bn_name m) =
      int (Suc k) * bn_weight m - total_weight lb * int (count_list (ns @ [n]) (Some m)) \<and>
      - total_weight lb < lb_cw lb'' (bn_name m)" if m: "m \<in> set (healthy_nodes lb)" for m
  proof -
    have old: "lb_cw lb' (bn_name m) =
        int k * bn_weight m - total_weight lb * int (count_list ns (Some m))"
      and low: "- total_weight lb < lb_cw lb' (bn_name m)"
      using fair m unfolding fair_state_def by blast+
    have w: "0 \<le> bn_weight m" using cold m by (simp add: cold_def)
    have new: "lb_cw lb'' (bn_name m) =
        (if m = b then raised lb' b - total_weight lb else raised lb' m)"
      using spec(2) pick n m by simp
    show ?thesis
    proof (cases "m = b")
      case True
      then show ?thesis using old new pos by (simp add: raised_def n algebra_simps)
    next
      case False
      then show ?thesis using old new low w by (simp add: raised_def n algebra_simps)
    qed
  qed
  have "lb_nodes lb'' = lb_nodes lb" using pick_nodes[of lb'] pick nodes by simp
  moreover have "length (ns @ [n]) = Suc k" "set (ns @ [n]) \<subseteq> Some ` set (healthy_nodes lb)"
    using fair n b_in by (auto simp: fair_state_def)
  ultimately show ?thesis
    using cw unfolding fair_state_def by blast
qed

lemma fair_picks:
  assumes "cold lb" and "picks k lb = (ns, lb')"
  shows "fair_state lb k ns lb'"
  using assms(2)
proof (induction k arbitrary: ns lb')
  case 0
  then show ?case using assms(1) by (simp add: fair_state_def cold_def)
next
  case (Suc k)
  obtain ns0 lb0 where run: "picks k lb = (ns0, lb0)" by fastforce
  obtain n lb1 where pick: "pick lb0 = (n, lb1)" by fastforce
  show ?case
    using fair_step[OF assms(1) Suc.IH[OF run] pick] Suc.prems run pick by simp
qed

lemma sum_list_le_eq_int:
  assumes "\<And>x. x \<in> set xs \<Longrightarrow> f x \<le> (g x :: int)" and "(\<Sum>x\<leftarrow>xs. f x) = (\<Sum>x\<leftarrow>xs. g x)"
    and "x \<in> set xs"
  shows "f x = g x"
  using assms
proof (induction xs)
  case (Cons y ys)
  have "(\<Sum>x\<leftarrow>ys. f x) \<le> (\<Sum>x\<leftarrow>ys. g x)" using Cons.prems(1) by (auto intro: sum_list_mono)
  moreover have "f y \<le> g y" using Cons.prems(1) by simp
  ultimately have "f y = g y" "(\<Sum>x\<leftarrow>ys. f x) = (\<Sum>x\<leftarrow>ys. g x)"
    using Cons.prems(2) by simp_all
  then show ?case using Cons by auto
qed simp

lemma fair_cycle:
  assumes cold: "cold lb" and run: "picks (nat (total_weight lb)) lb = (ns, lb')"
  shows "(\<forall>n \<in> set (healthy_nodes lb). int (count_list ns (Some n)) = bn_weight n) \<and>
    set ns \<subseteq> Some ` set (healthy_nodes lb) \<and>
    (\<forall>n \<in> set (healthy_nodes lb). lb_cw lb' (bn_name n) = 0)"
proof -
  let ?H = "healthy_nodes lb" and ?W = "total_weight lb"
  have pos: "0 < ?W" using cold by (simp add: cold_def)
  have fair: "fair_state lb (nat ?W) ns lb'" using fair_picks[OF cold run] .
  have dist: "distinct ?H"
    using cold by (simp add: cold_def names_distinct_def healthy_nodes_def distinct_map)
  have sub: "set ns \<subseteq> Some ` set ?H" and len: "int (length ns) = ?W"
    using fair pos by (simp_all add: fair_state_def)
  have cw: "lb_cw lb' (bn_name n) = ?W * (bn_weight n - int (count_list ns (Some n)))"
    and low: "?W * (- 1) < ?W * (bn_weight n - int (count_list ns (Some n)))"
    if "n \<in> set ?H" for n
    using fair that pos by (auto simp: fair_state_def algebra_simps)
  have le: "int (count_list ns (Some n)) \<le> bn_weight n" if "n \<in> set ?H" for n
    using low[OF that] pos by (simp only: mult_less_cancel_left_pos)
  have "(\<Sum>n\<leftarrow>?H. int (count_list ns (Some n))) = (\<Sum>n\<leftarrow>?H. bn_weight n)"
    using sum_count_list[OF dist sub] len by (simp add: total_weight_def)
  then have eq: "int (count_list ns (Some n)) = bn_weight n" if "n \<in> set ?H" for n
    using sum_list_le_eq_int[of ?H "\<lambda>n. int (count_list ns (Some n))" bn_weight n] le that by blast
  show ?thesis using eq sub cw by simp
qed

text \<open>
  C2. Weighted fairness of the load balancer (\<open>LoadBalancer::pick\<close>). Take a group whose node
  names are distinct, whose healthy nodes have non-negative weights with a positive total \<open>W\<close>,
  and whose current weights are 0, as after registration. Then \<open>W\<close> successive picks return each
  healthy node exactly as often as its weight says, never an unhealthy one, and leave every
  current weight at 0 again, so the schedule repeats.
\<close>

theorem weighted_fairness:
  assumes cold: "cold lb" and run: "picks (nat (total_weight lb)) lb = (ns, lb')"
  shows "(\<forall>n \<in> set (healthy_nodes lb). int (count_list ns (Some n)) = bn_weight n) \<and>
    set ns \<subseteq> Some ` set (healthy_nodes lb) \<and>
    (\<forall>n \<in> set (healthy_nodes lb). lb_cw lb' (bn_name n) = 0)"
  using assms by (rule fair_cycle)

definition demo_node :: "string \<Rightarrow> int \<Rightarrow> backend_node" where
  "demo_node name w = default_node\<lparr>bn_name := name, bn_weight := w\<rparr>"

definition demo_lb :: load_balancer where
  "demo_lb = add_node (demo_node ''b'' 1) (add_node (demo_node ''a'' 2) empty_lb)"

lemma demo_lb_nodes: "lb_nodes demo_lb = [demo_node ''a'' 2, demo_node ''b'' 1]"
  by (simp add: demo_lb_def add_node_def empty_lb_def)

lemma demo_lb_facts:
  "healthy_nodes demo_lb = [demo_node ''a'' 2, demo_node ''b'' 1]"
  "total_weight demo_lb = 3" "names_distinct demo_lb" "cold demo_lb"
  by (simp_all add: healthy_nodes_def total_weight_def names_distinct_def cold_def demo_lb_nodes
      demo_node_def default_node_def) (simp_all add: demo_lb_def add_node_def empty_lb_def)

theorem weighted_fairness_witness:
  "cold demo_lb \<and> picks (nat (total_weight demo_lb)) demo_lb = picks 3 demo_lb \<and>
   int (count_list (fst (picks 3 demo_lb)) (Some (demo_node ''a'' 2))) = 2"
  using weighted_fairness[of demo_lb "fst (picks 3 demo_lb)" "snd (picks 3 demo_lb)"]
  by (simp add: demo_lb_facts) (simp add: demo_node_def)

lemma picks_add: "picks (j + k) lb = (fst (picks j lb) @ fst (picks k (snd (picks j lb))), snd (picks k (snd (picks j lb))))"
  by (induction k) (simp_all add: Let_def case_prod_beta)

lemma length_picks: "length (fst (picks k lb)) = k"
  by (induction k) (simp_all add: Let_def case_prod_beta)

lemma picks_nth: "i < k \<Longrightarrow> fst (picks k lb) ! i = fst (pick (snd (picks i lb)))"
  by (induction k) (auto simp: Let_def case_prod_beta nth_append length_picks less_Suc_eq)

lemma picks_other:
  assumes "cold lb" "x \<notin> bn_name ` set (healthy_nodes lb)"
  shows "lb_cw (snd (picks k lb)) x = lb_cw lb x"
proof (induction k)
  case (Suc k)
  let ?l = "snd (picks k lb)"
  have nodes: "lb_nodes ?l = lb_nodes lb" using fair_picks[OF assms(1), of k] by (metis fair_state_def prod.collapse)
  have d: "names_distinct ?l" using assms(1) names_distinct_cong[OF nodes] by (simp add: cold_def)
  have H: "healthy_nodes ?l = healthy_nodes lb" using nodes by (rule healthy_nodes_cong)
  then have "healthy_nodes ?l \<noteq> []" using assms(1) by (auto simp: cold_def total_weight_def)
  then obtain b l2 where run: "pick ?l = (Some b, l2)" using pick_None_iff[of ?l] by (cases "pick ?l"; cases "fst (pick ?l)") auto
  have "lb_cw (snd (pick ?l)) x = lb_cw ?l x" using pick_Some_spec(3)[OF d run] assms(2) H run by simp
  then show ?case using Suc.IH by (simp add: Let_def case_prod_beta)
qed simp

text \<open>The state after a cycle is the state before it.\<close>

lemma cycle_returns:
  assumes "cold lb"
  shows "snd (picks (nat (total_weight lb)) lb) = lb"
proof -
  let ?l = "snd (picks (nat (total_weight lb)) lb)"
  have "lb_cw ?l x = lb_cw lb x" for x
  proof (cases "x \<in> bn_name ` set (healthy_nodes lb)")
    case True
    then show ?thesis
      using fair_cycle[OF assms, of "fst (picks (nat (total_weight lb)) lb)" ?l] assms by (auto simp: cold_def)
  next
    case False
    then show ?thesis by (rule picks_other[OF assms])
  qed
  moreover have "lb_nodes ?l = lb_nodes lb" using fair_picks[OF assms] by (metis fair_state_def prod.collapse)
  ultimately show ?thesis by (intro load_balancer.equality) auto
qed

text \<open>C22. No backend starves: from a cold start, however many requests have been balanced already, every healthy
  node of positive weight is chosen for one of the next \<open>W\<close> requests, where \<open>W\<close> is the total weight of
  the group.\<close>

theorem backend_served:
  assumes "cold lb" "n \<in> set (healthy_nodes lb)" "0 < bn_weight n"
  shows "\<exists>j < nat (total_weight lb). fst (pick (snd (picks (k + j) lb))) = Some n"
proof -
  let ?W = "nat (total_weight lb)" and ?l = "snd (picks k lb)"
  have "picks (?W + k) lb = picks (k + ?W) lb" by (simp add: add.commute)
  then have "fst (picks ?W lb) @ fst (picks k lb) = fst (picks k lb) @ fst (picks ?W ?l)"
    unfolding picks_add by (simp add: cycle_returns[OF assms(1)])
  then have "count_list (fst (picks ?W lb) @ fst (picks k lb)) (Some n) = count_list (fst (picks k lb) @ fst (picks ?W ?l)) (Some n)"
    by simp
  moreover have "int (count_list (fst (picks ?W lb)) (Some n)) = bn_weight n"
    using fair_cycle[OF assms(1), of "fst (picks ?W lb)" "snd (picks ?W lb)"] assms(2) by simp
  ultimately have "count_list (fst (picks ?W ?l)) (Some n) \<noteq> 0" using assms(3) by auto
  then have "Some n \<in> set (fst (picks ?W ?l))" by (simp add: count_list_0_iff)
  then obtain j where "j < ?W" "fst (picks ?W ?l) ! j = Some n" by (metis in_set_conv_nth length_picks)
  then show ?thesis using picks_nth[of j ?W ?l] by (auto simp: picks_add)
qed

theorem backend_served_witness:
  "\<exists>j < 3. fst (pick (snd (picks (7 + j) demo_lb))) = Some (demo_node ''b'' 1)"
  using backend_served[of demo_lb "demo_node ''b'' 1" 7]
  by (simp add: demo_lb_facts) (simp add: demo_node_def)

text \<open>
  Bounds of the current weights. From such a cold start, after any number of picks every
  current weight of a healthy node lies strictly between minus the total weight and the number
  of healthy nodes times the total weight: the C++ \<open>int\<close> counters cannot overflow as long as
  that product fits.
\<close>

theorem current_weight_bounds:
  assumes cold: "cold lb" and run: "picks k lb = (ns, lb')" and n: "n \<in> set (healthy_nodes lb)"
  shows "- total_weight lb < lb_cw lb' (bn_name n) \<and>
    lb_cw lb' (bn_name n) < int (length (healthy_nodes lb)) * total_weight lb"
proof
  let ?H = "healthy_nodes lb" and ?W = "total_weight lb"
  have fair: "fair_state lb k ns lb'" using fair_picks[OF cold run] .
  then show low: "- ?W < lb_cw lb' (bn_name n)" using n unfolding fair_state_def by blast
  have dist: "distinct ?H"
    using cold by (simp add: cold_def names_distinct_def healthy_nodes_def distinct_map)
  have "(\<Sum>m\<leftarrow>?H. lb_cw lb' (bn_name m)) + (\<Sum>m\<leftarrow>?H. bn_weight m) = ?W"
    using sum_raised[OF cold fair] by (simp add: raised_def sum_list_addf)
  then have "(\<Sum>m\<leftarrow>?H. lb_cw lb' (bn_name m)) = 0" by (simp add: total_weight_def)
  moreover have "(\<Sum>m\<leftarrow>?H. lb_cw lb' (bn_name m)) =
      lb_cw lb' (bn_name n) + (\<Sum>m\<leftarrow>remove1 n ?H. lb_cw lb' (bn_name m))"
    using n by (rule sum_list_map_remove1)
  moreover have "(\<Sum>m\<leftarrow>remove1 n ?H. - ?W) \<le> (\<Sum>m\<leftarrow>remove1 n ?H. lb_cw lb' (bn_name m))"
  proof (rule sum_list_mono)
    fix m assume "m \<in> set (remove1 n ?H)"
    then have "m \<in> set ?H" using set_remove1_subset by fast
    then show "- ?W \<le> lb_cw lb' (bn_name m)"
      using fair unfolding fair_state_def by (meson less_imp_le)
  qed
  moreover have "(\<Sum>m\<leftarrow>remove1 n ?H. - ?W) = - (int (length ?H) - 1) * ?W"
  proof -
    have len: "int (length (remove1 n ?H)) = int (length ?H) - 1"
      using n by (cases ?H) (auto simp: length_remove1 dest: length_pos_if_in_set)
    show ?thesis unfolding sum_list_triv len by (simp add: algebra_simps)
  qed
  moreover have "0 < ?W" using cold by (simp add: cold_def)
  ultimately show "lb_cw lb' (bn_name n) < int (length ?H) * ?W"
    by (simp add: algebra_simps)
qed

theorem current_weight_bounds_witness:
  "cold demo_lb \<and> - 3 < lb_cw (snd (picks 4 demo_lb)) ''b'' \<and>
   lb_cw (snd (picks 4 demo_lb)) ''b'' < 6"
  using current_weight_bounds[of demo_lb 4 "fst (picks 4 demo_lb)" "snd (picks 4 demo_lb)"
      "demo_node ''b'' 1"]
  by (simp add: demo_lb_facts) (simp add: demo_node_def default_node_def)

section \<open>Routing\<close>

definition group_healthy :: "router \<Rightarrow> string \<Rightarrow> backend_node set" where
  "group_healthy r g = (case r g of None \<Rightarrow> {} | Some lb \<Rightarrow> set (healthy_nodes lb))"

lemma pick_cases:
  obtains (none) lb' where "pick lb = (None, lb')" "healthy_nodes lb = []"
  | (some) b lb' where "pick lb = (Some b, lb')" "b \<in> set (healthy_nodes lb)"
proof (cases "fst (pick lb)")
  case None
  then show ?thesis using none[of "snd (pick lb)"] pick_None_iff[of lb] by (metis prod.collapse)
next
  case (Some b)
  then show ?thesis using some[of b "snd (pick lb)"] pick_Some_in[of lb b] by (metis prod.collapse)
qed

lemma route_default_spec:
  "(case fst (route_default r) of
      None \<Rightarrow> group_healthy r default_group = {}
    | Some b \<Rightarrow> b \<in> group_healthy r default_group)"
proof (cases "r default_group")
  case None
  then show ?thesis by (simp add: route_default_def group_healthy_def)
next
  case (Some lb)
  then show ?thesis
    by (cases rule: pick_cases[of lb]) (auto simp: route_default_def group_healthy_def)
qed

lemma route_default_frame: "g \<noteq> default_group \<Longrightarrow> snd (route_default r) g = r g"
  by (simp add: route_default_def split: option.split prod.split)

lemma pick_healthy_nodes: "pick lb = (x, lb') \<Longrightarrow> healthy_nodes lb' = healthy_nodes lb"
  by (metis healthy_nodes_cong pick_nodes snd_conv)

lemma route_cases:
  "(case fst (route model r) of
      None \<Rightarrow> group_healthy r model = {} \<and> group_healthy r default_group = {}
    | Some b \<Rightarrow> b \<in> group_healthy r model \<or>
        (group_healthy r model = {} \<and> b \<in> group_healthy r default_group)) \<and>
   (\<forall>g. g \<notin> {model, default_group} \<longrightarrow> snd (route model r) g = r g)"
proof (cases "r model")
  case None
  then have "route model r = route_default r" "group_healthy r model = {}"
    by (simp_all add: route_def group_healthy_def)
  then show ?thesis
    using route_default_spec[of r] by (simp add: route_default_frame split: option.splits)
next
  case (Some lb)
  show ?thesis
  proof (cases rule: pick_cases[of lb])
    case (none lb')
    have "route model r = route_default (r(model \<mapsto> lb'))" "group_healthy r model = {}"
      using Some none by (simp_all add: route_def group_healthy_def)
    moreover have "group_healthy (r(model \<mapsto> lb')) default_group = group_healthy r default_group"
      using Some pick_healthy_nodes[OF none(1)]
      by (cases "default_group = model") (simp_all add: group_healthy_def)
    ultimately show ?thesis
      using route_default_spec[of "r(model \<mapsto> lb')"]
      by (simp add: route_default_frame split: option.splits)
  next
    case (some b lb')
    then show ?thesis using Some by (simp add: route_def group_healthy_def)
  qed
qed

definition demo_router :: router where
  "demo_router = register_node default_group (demo_node ''fallback'' 1)
     (register_node ''m'' (demo_node ''a'' 1) Map.empty)"

text \<open>
  Functional behaviour of \<open>Router::route\<close>. A returned node is healthy and belongs to the
  group of the requested model, unless that group has no healthy node, and then it belongs to
  the default group; null is returned exactly when neither group has a healthy node. Only the
  balancers of these two groups are touched.
\<close>

theorem route_spec:
  "(case fst (route model r) of
      None \<Rightarrow> group_healthy r model = {} \<and> group_healthy r default_group = {}
    | Some b \<Rightarrow> b \<in> group_healthy r model \<or>
        (group_healthy r model = {} \<and> b \<in> group_healthy r default_group)) \<and>
   (\<forall>g. g \<notin> {model, default_group} \<longrightarrow> snd (route model r) g = r g)"
  by (rule route_cases)

theorem route_spec_witness:
  "\<not> ''x'' \<in> {''m'', default_group} \<and> snd (route ''m'' demo_router) ''x'' = demo_router ''x''"
  using route_spec[where model = "''m''" and r = demo_router] by (simp add: default_group_def)

section \<open>Health marking\<close>

lemma set_health_names [simp]: "map bn_name (set_health h name ns) = map bn_name ns"
  by (induction ns) simp_all

lemma set_health_other:
  "n \<in> set (set_health h name ns) \<Longrightarrow> bn_name n \<noteq> name \<Longrightarrow> n \<in> set ns"
  by (induction ns) (auto split: if_splits)

lemma set_health_marked:
  "distinct (map bn_name ns) \<Longrightarrow> n \<in> set (set_health h name ns) \<Longrightarrow> bn_name n = name \<Longrightarrow>
     bn_healthy n = h"
proof (induction ns)
  case (Cons m ns)
  show ?case
  proof (cases "bn_name m = name")
    case True
    with Cons.prems(1,3) have "n \<notin> set ns" by force
    with True Cons.prems(2) show ?thesis by simp
  next
    case False
    with Cons.prems have "n \<in> set (set_health h name ns)" by auto
    with Cons show ?thesis by simp
  qed
qed simp

lemma mark_unhealthy_names [simp]: "names_distinct (mark_unhealthy name lb) = names_distinct lb"
  by (simp add: names_distinct_def mark_unhealthy_def)

text \<open>
  Safety of health marking: once a node of a group with distinct names is marked unhealthy,
  no later pick of that group returns a node of that name, however many picks are made.
\<close>

theorem mark_unhealthy_excludes:
  assumes dist: "names_distinct lb" and run: "picks k (mark_unhealthy name lb) = (ns, lb')"
    and n: "Some n \<in> set ns"
  shows "bn_name n \<noteq> name \<and> n \<in> set (healthy_nodes lb)"
proof -
  have "lb_nodes lb' = lb_nodes (mark_unhealthy name lb) \<and>
      (\<forall>n. Some n \<in> set ns \<longrightarrow> n \<in> set (healthy_nodes (mark_unhealthy name lb)))"
    using run
  proof (induction k arbitrary: ns lb')
    case (Suc k)
    obtain ns0 lb0 where run0: "picks k (mark_unhealthy name lb) = (ns0, lb0)" by fastforce
    obtain m lb1 where pick: "pick lb0 = (m, lb1)" by fastforce
    note IH = Suc.IH[OF run0]
    have "lb_nodes lb1 = lb_nodes lb0" using pick_nodes[of lb0] pick by simp
    moreover have "n \<in> set (healthy_nodes lb0)" if "m = Some n" for n
      using pick_Some_in pick that by blast
    ultimately show ?case
      using IH Suc.prems run0 pick by (auto simp: healthy_nodes_def)
  qed simp
  then have "n \<in> set (healthy_nodes (mark_unhealthy name lb))" using n by blast
  then have "n \<in> set (set_health False name (lb_nodes lb))" "bn_healthy n"
    by (simp_all add: healthy_nodes_def mark_unhealthy_def)
  then show ?thesis
    using dist set_health_marked set_health_other
    by (fastforce simp: healthy_nodes_def names_distinct_def)
qed

theorem mark_unhealthy_excludes_witness:
  "names_distinct demo_lb \<and>
   Some (demo_node ''b'' 1) \<in> set (fst (picks 1 (mark_unhealthy ''a'' demo_lb))) \<and>
   bn_name (demo_node ''b'' 1) \<noteq> ''a''"
proof -
  have nodes: "lb_nodes (mark_unhealthy ''a'' demo_lb) =
      [(demo_node ''a'' 2)\<lparr>bn_healthy := False\<rparr>, demo_node ''b'' 1]"
    by (simp add: mark_unhealthy_def demo_lb_nodes) (simp add: demo_node_def default_node_def)
  have "Some (demo_node ''b'' 1) \<in> set (fst (picks 1 (mark_unhealthy ''a'' demo_lb)))"
    by (simp add: pick_def nodes) (simp add: demo_node_def default_node_def Let_def)
  then show ?thesis
    using mark_unhealthy_excludes[of demo_lb 1 "''a''"
        "fst (picks 1 (mark_unhealthy ''a'' demo_lb))" _ "demo_node ''b'' 1"]
    by (metis demo_lb_facts(3) prod.collapse)
qed

end
