(* ===== verification/Auth.thy ===== *)
theory Auth
  imports Gateway_Prelude
begin

text \<open>
  \<open>include/auth.h\<close>: the token bucket and the API key check. Clocks are
  \<open>steady_clock\<close> readings in nanoseconds, passed in by the caller. The lemmas show that
  \<open>verify\<close> never throws, what it answers on every branch, and that a key is never granted more
  requests than its bucket allows over any stretch of time.
\<close>

section \<open>TokenBucket\<close>

type_synonym ns = int

record token_bucket =
  tb_capacity :: double
  tb_rate :: double
  tb_tokens :: double
  tb_last :: ns

definition new_bucket :: "double \<Rightarrow> double \<Rightarrow> ns \<Rightarrow> token_bucket" where
  "new_bucket cap r now =
     \<lparr>tb_capacity = cap, tb_rate = r, tb_tokens = cap, tb_last = now\<rparr>"

definition seconds :: "ns \<Rightarrow> double" where
  "seconds d = of_int d / 1000000000"

definition consume :: "ns \<Rightarrow> double \<Rightarrow> token_bucket \<Rightarrow> bool \<times> token_bucket" where
  "consume now cost b =
     (let elapsed = seconds (now - tb_last b);
          b1 = b\<lparr>tb_last := now,
                 tb_tokens := min (tb_capacity b) (tb_tokens b + elapsed * tb_rate b)\<rparr>
      in if tb_tokens b1 < cost then (False, b1)
         else (True, b1\<lparr>tb_tokens := tb_tokens b1 - cost\<rparr>))"

section \<open>AuthManager\<close>

record key_info =
  ki_key :: string
  ki_allowed_models :: string
  ki_qps_limit :: int
  ki_enabled :: bool

record auth =
  au_keys :: "string \<rightharpoonup> key_info"
  au_buckets :: "string \<rightharpoonup> token_bucket"

definition empty_auth :: auth where
  "empty_auth = \<lparr>au_keys = Map.empty, au_buckets = Map.empty\<rparr>"

text \<open>\<open>keys_[key] = info\<close> overwrites, \<open>buckets_.emplace\<close> does nothing when the key is present.\<close>

definition add_key :: "ns \<Rightarrow> key_info \<Rightarrow> auth \<Rightarrow> auth" where
  "add_key now info a =
     a\<lparr>au_keys := (au_keys a)(ki_key info \<mapsto> info),
       au_buckets :=
         (case au_buckets a (ki_key info) of
            Some _ \<Rightarrow> au_buckets a
          | None \<Rightarrow> (au_buckets a)(ki_key info \<mapsto>
              new_bucket (of_int (ki_qps_limit info)) (of_int (ki_qps_limit info)) now))\<rparr>"

definition auth_passed :: string where "auth_passed = []"
definition auth_invalid :: string where "auth_invalid = ''invalid api key''"
definition auth_disabled :: string where "auth_disabled = ''key disabled''"
definition auth_limited :: string where "auth_limited = ''rate limit exceeded''"

lemmas auth_msg_defs = auth_passed_def auth_invalid_def auth_disabled_def auth_limited_def

text \<open>The empty string means passed. \<open>buckets_.at\<close> throws \<open>out_of_range\<close> on a missing key.\<close>

definition verify :: "ns \<Rightarrow> string \<Rightarrow> string \<Rightarrow> auth \<Rightarrow> string result \<times> auth" where
  "verify now api_key model a =
     (if api_key = [] then (Inr auth_passed, a)
      else case au_keys a api_key of
        None \<Rightarrow> (Inr auth_invalid, a)
      | Some ki \<Rightarrow>
          if \<not> ki_enabled ki then (Inr auth_disabled, a)
          else case au_buckets a api_key of
            None \<Rightarrow> (Inl OutOfRange, a)
          | Some b \<Rightarrow>
              let (ok, b') = consume now 1 b;
                  a' = a\<lparr>au_buckets := (au_buckets a)(api_key \<mapsto> b')\<rparr>
              in if \<not> ok then (Inr auth_limited, a') else (Inr auth_passed, a'))"

section \<open>Invariant\<close>

definition bucket_ok :: "token_bucket \<Rightarrow> bool" where
  "bucket_ok b \<longleftrightarrow> 0 \<le> tb_rate b \<and> 0 \<le> tb_tokens b \<and> tb_tokens b \<le> tb_capacity b"

text \<open>Every key has a bucket, every bucket is within bounds and was last used by time \<open>now\<close>.\<close>

definition auth_ok :: "ns \<Rightarrow> auth \<Rightarrow> bool" where
  "auth_ok now a \<longleftrightarrow> dom (au_keys a) \<subseteq> dom (au_buckets a) \<and>
     (\<forall>k b. au_buckets a k = Some b \<longrightarrow> bucket_ok b \<and> tb_last b \<le> now)"

lemma seconds_nonneg: "s \<le> t \<Longrightarrow> 0 \<le> seconds (t - s)"
  by (simp add: seconds_def)

lemma seconds_diff: "seconds (u - s) = seconds (u - t) + seconds (t - s)"
  by (simp add: seconds_def field_simps)

lemma consume_ok:
  assumes "bucket_ok b" "tb_last b \<le> now" "0 \<le> cost" "consume now cost b = (ok, b')"
  shows "bucket_ok b'" "tb_last b' = now" "tb_rate b' = tb_rate b" "tb_capacity b' = tb_capacity b"
    "tb_tokens b' + (if ok then cost else 0) \<le> tb_tokens b + tb_rate b * seconds (now - tb_last b)"
proof -
  have "0 \<le> seconds (now - tb_last b) * tb_rate b"
    using assms(1,2) seconds_nonneg by (simp add: bucket_ok_def)
  then show "bucket_ok b'" "tb_last b' = now" "tb_rate b' = tb_rate b" "tb_capacity b' = tb_capacity b"
    "tb_tokens b' + (if ok then cost else 0) \<le> tb_tokens b + tb_rate b * seconds (now - tb_last b)"
    using assms by (auto simp: consume_def bucket_ok_def Let_def algebra_simps split: if_splits)
qed

lemma consume_one_ok:
  "consume now 1 b = (ok, b') \<Longrightarrow> bucket_ok b \<Longrightarrow> tb_last b \<le> now \<Longrightarrow>
     bucket_ok b' \<and> tb_last b' \<le> now"
  using consume_ok(1,2)[of b now 1 ok b'] by simp

lemma auth_ok_add_key:
  "auth_ok now a \<Longrightarrow> 0 \<le> ki_qps_limit info \<Longrightarrow> auth_ok now (add_key now info a)"
  by (auto simp: auth_ok_def add_key_def new_bucket_def bucket_ok_def split: option.splits if_splits)

lemma auth_ok_mono: "auth_ok s a \<Longrightarrow> s \<le> t \<Longrightarrow> auth_ok t a"
  by (fastforce simp: auth_ok_def)

lemma auth_ok_verify: "auth_ok now a \<Longrightarrow> auth_ok now (snd (verify now k m a))"
  unfolding auth_ok_def verify_def
  by (auto simp: Let_def split: option.splits prod.splits if_splits dest: consume_one_ok)

text \<open>
  \<open>AuthManager\<close> keeps its two maps consistent: registering a key with a non-negative limit and
  checking any key, at any later time, preserve the invariant, and under it \<open>verify\<close> never
  throws although it reads the bucket with \<open>at\<close>.
\<close>

theorem auth_invariant:
  assumes "auth_ok now a" and "now \<le> t" and "0 \<le> ki_qps_limit info"
  shows "auth_ok t (add_key t info a) \<and> auth_ok t (snd (verify t k m a)) \<and>
    (\<exists>msg. fst (verify t k m a) = Inr msg)"
proof -
  have ok: "auth_ok t a" using assms(1,2) by (rule auth_ok_mono)
  have "au_keys a k = Some ki \<Longrightarrow> \<exists>b. au_buckets a k = Some b" for ki
    using assms(1) by (auto simp: auth_ok_def dom_def)
  then have "\<exists>msg. fst (verify t k m a) = Inr msg"
    by (auto simp: verify_def Let_def split: option.splits prod.splits)
  then show ?thesis
    using ok assms(3) auth_ok_add_key auth_ok_verify by blast
qed

definition demo_key :: "string \<Rightarrow> int \<Rightarrow> key_info" where
  "demo_key k q = \<lparr>ki_key = k, ki_allowed_models = ''*'', ki_qps_limit = q, ki_enabled = True\<rparr>"

lemma auth_ok_empty: "auth_ok now empty_auth"
  by (simp add: auth_ok_def empty_auth_def)

theorem auth_invariant_witness:
  "auth_ok 0 empty_auth \<and> 0 \<le> ki_qps_limit (demo_key ''k'' 2) \<and>
   auth_ok 5 (add_key 5 (demo_key ''k'' 2) empty_auth)"
  using auth_invariant[of 0 empty_auth 5 "demo_key ''k'' 2"] auth_ok_empty by (simp add: demo_key_def)

text \<open>
  The answer of \<open>verify\<close> on every branch, in the order of the code: an empty key passes,
  an unknown key and a disabled key are refused without touching a bucket, and an enabled key
  passes exactly when its refilled bucket holds a whole token. No other key's bucket changes, and
  the key table never does.
\<close>

theorem verify_spec:
  assumes "auth_ok now a"
  shows "fst (verify now k m a) =
      Inr (if k = [] then auth_passed
           else case au_keys a k of
             None \<Rightarrow> auth_invalid
           | Some ki \<Rightarrow>
               if \<not> ki_enabled ki then auth_disabled
               else if min (tb_capacity (the (au_buckets a k)))
                    (tb_tokens (the (au_buckets a k)) +
                     seconds (now - tb_last (the (au_buckets a k))) * tb_rate (the (au_buckets a k)))
                    < 1 then auth_limited
               else auth_passed) \<and>
    au_keys (snd (verify now k m a)) = au_keys a \<and>
    (\<forall>j. j \<noteq> k \<longrightarrow> au_buckets (snd (verify now k m a)) j = au_buckets a j) \<and>
    (fst (verify now k m a) \<in> {Inr auth_invalid, Inr auth_disabled} \<longrightarrow> snd (verify now k m a) = a)"
proof -
  have "au_keys a k = Some ki \<Longrightarrow> \<exists>b. au_buckets a k = Some b" for ki
    using assms by (auto simp: auth_ok_def dom_def)
  then show ?thesis
    by (auto simp: verify_def consume_def Let_def auth_msg_defs split: option.splits)
qed

theorem verify_spec_witness:
  "auth_ok 0 (add_key 0 (demo_key ''k'' 2) empty_auth) \<and>
   fst (verify 0 ''k'' ''m'' (add_key 0 (demo_key ''k'' 2) empty_auth)) = Inr auth_passed"
  using verify_spec[of 0 "add_key 0 (demo_key ''k'' 2) empty_auth" "''k''" "''m''"]
    auth_ok_add_key[OF auth_ok_empty, of "demo_key ''k'' 2" 0]
  by (simp add: add_key_def demo_key_def empty_auth_def new_bucket_def seconds_def)

section \<open>Rate limit\<close>

text \<open>Successive checks of one key at the times \<open>ts\<close>, with the answers.\<close>

fun verify_times :: "string \<Rightarrow> string \<Rightarrow> ns list \<Rightarrow> auth \<Rightarrow> string result list \<times> auth" where
  "verify_times k m [] a = ([], a)"
| "verify_times k m (t # ts) a =
     (let (r, a') = verify t k m a; (rs, a'') = verify_times k m ts a' in (r # rs, a''))"

lemma verify_enabled:
  assumes "k \<noteq> []" "au_keys a k = Some ki" "ki_enabled ki" "au_buckets a k = Some b"
    and "consume t 1 b = (ok, b')"
  shows "verify t k m a = (Inr (if ok then auth_passed else auth_limited),
    a\<lparr>au_buckets := (au_buckets a)(k \<mapsto> b')\<rparr>)"
  using assms by (simp add: verify_def)

lemma verify_times_budget:
  assumes "k \<noteq> []" "au_keys a k = Some ki" "ki_enabled ki" "au_buckets a k = Some b"
    and "bucket_ok b" "sorted (tb_last b # ts)"
  shows "of_nat (count_list (fst (verify_times k m ts a)) (Inr auth_passed))
    \<le> tb_tokens b + tb_rate b * seconds (last (tb_last b # ts) - tb_last b)"
  using assms
proof (induction ts arbitrary: a b)
  case Nil
  then show ?case by (simp add: seconds_def bucket_ok_def)
next
  case (Cons t ts)
  obtain ok b' where c: "consume t 1 b = (ok, b')" by fastforce
  let ?a = "a\<lparr>au_buckets := (au_buckets a)(k \<mapsto> b')\<rparr>"
  have v: "verify t k m a = (Inr (if ok then auth_passed else auth_limited), ?a)"
    using verify_enabled[OF Cons.prems(1-4) c] .
  have ok': "bucket_ok b'" "tb_last b' = t" "tb_rate b' = tb_rate b"
    "tb_tokens b' + (if ok then 1 else 0) \<le> tb_tokens b + tb_rate b * seconds (t - tb_last b)"
    using consume_ok[OF Cons.prems(5) _ _ c] Cons.prems(6) by simp_all
  have "of_nat (count_list (fst (verify_times k m ts ?a)) (Inr auth_passed))
      \<le> tb_tokens b' + tb_rate b' * seconds (last (tb_last b' # ts) - tb_last b')"
    using Cons.prems ok' by (intro Cons.IH) auto
  then show ?case
    using ok' v seconds_diff[of "last (t # ts)" "tb_last b" t]
    by (auto simp: split_beta auth_msg_defs algebra_simps split: if_splits)
qed

text \<open>
  C21. The rate limit holds: over any stretch of checks of an enabled key, at non-decreasing clock
  readings, the number of granted requests is at most the tokens in the bucket at the start (never
  more than its capacity, the \<open>qps_limit\<close> it was created with) plus the rate times the elapsed
  seconds.
\<close>

theorem rate_limit_bound:
  assumes "auth_ok now a" "k \<noteq> []" "au_keys a k = Some ki" "ki_enabled ki"
    and "au_buckets a k = Some b" "sorted (tb_last b # ts)"
  shows "of_nat (count_list (fst (verify_times k m ts a)) (Inr auth_passed))
      \<le> tb_tokens b + tb_rate b * seconds (last (tb_last b # ts) - tb_last b) \<and>
    tb_tokens b \<le> tb_capacity b"
  using verify_times_budget[OF assms(2-5) _ assms(6)] assms(1,5)
  by (auto simp: auth_ok_def bucket_ok_def)

definition demo_auth :: auth where
  "demo_auth = add_key 0 (demo_key ''k'' 2) empty_auth"

lemma demo_auth_facts:
  "auth_ok 0 demo_auth" "au_keys demo_auth ''k'' = Some (demo_key ''k'' 2)"
  "au_buckets demo_auth ''k'' = Some (new_bucket 2 2 0)"
  using auth_ok_add_key[OF auth_ok_empty, of "demo_key ''k'' 2" 0]
  by (simp_all add: demo_auth_def) (simp_all add: add_key_def demo_key_def empty_auth_def)

theorem rate_limit_bound_witness:
  "auth_ok 0 demo_auth \<and>
   of_nat (count_list (fst (verify_times ''k'' ''m'' [0, 0, 0, 0] demo_auth)) (Inr auth_passed))
     \<le> (2 :: rat)"
  using rate_limit_bound[of 0 demo_auth "''k''" "demo_key ''k'' 2" "new_bucket 2 2 0"
      "[0, 0, 0, 0]" "''m''"] demo_auth_facts
  by (simp add: new_bucket_def seconds_def demo_key_def)

text \<open>
  Recovery: an enabled key that has waited long enough for one token to refill passes its next
  check, whatever happened before.
\<close>

theorem rate_limit_recovers:
  assumes "auth_ok now a" "k \<noteq> []" "au_keys a k = Some ki" "ki_enabled ki"
    and "au_buckets a k = Some b" "1 \<le> tb_capacity b"
    and "1 \<le> seconds (t - tb_last b) * tb_rate b"
  shows "fst (verify t k m a) = Inr auth_passed"
proof -
  have "0 \<le> tb_tokens b" using assms(1,5) by (auto simp: auth_ok_def bucket_ok_def)
  then have "\<not> min (tb_capacity b) (tb_tokens b + seconds (t - tb_last b) * tb_rate b) < 1"
    using assms(6,7) by (simp add: min_def)
  then show ?thesis
    using assms(2-5) by (simp add: verify_def consume_def Let_def)
qed

theorem rate_limit_recovers_witness:
  "1 \<le> seconds (500000000 - 0) * (2::rat) \<and>
   fst (verify 500000000 ''k'' ''m'' (demo_auth\<lparr>au_buckets :=
     [''k'' \<mapsto> \<lparr>tb_capacity = 2, tb_rate = 2, tb_tokens = 0, tb_last = 0\<rparr>]\<rparr>)) = Inr auth_passed"
proof -
  let ?b = "\<lparr>tb_capacity = 2, tb_rate = 2, tb_tokens = 0, tb_last = 0\<rparr>"
  let ?a = "demo_auth\<lparr>au_buckets := [''k'' \<mapsto> ?b]\<rparr>"
  have ok: "auth_ok 0 ?a"
    using demo_auth_facts(1)
    by (auto simp: auth_ok_def bucket_ok_def demo_auth_def add_key_def empty_auth_def demo_key_def)
  have "fst (verify 500000000 ''k'' ''m'' ?a) = Inr auth_passed"
    by (rule rate_limit_recovers[OF ok, of "''k''" "demo_key ''k'' 2" ?b])
      (simp_all add: demo_auth_facts seconds_def, simp add: demo_key_def)
  then show ?thesis by (simp add: seconds_def)
qed

end
