(* ===== verification/Lru_List.thy ===== *)
theory Lru_List
  imports Gateway_Prelude
begin

text \<open>
  The data structure under both in-memory caches (\<open>CacheStore\<close> of \<open>include/common.h\<close> and
  \<open>L1CacheStore\<close> of \<open>src/agent_cache.cpp\<close>): a \<open>std::list\<close> of nodes, most recent first, and an
  \<open>unordered_map\<close> from keys to list iterators. An iterator is the identity of the node it points
  to, so that a dangling iterator can be told from a valid one. The invariant says that the map's
  iterators are exactly the list's nodes; under it every dereference is defined, and the primitives
  act on the list of (key, payload) pairs as the association list operations do.

  The locale \<open>lru_store\<close> is the interface of a bounded store with recency order: what one \<open>put\<close>
  promises, and what follows for any sequence of them.
\<close>

section \<open>Lists with iterators\<close>

record 'a lru =
  lru_list :: "(nat \<times> string \<times> 'a) list"
  lru_map :: "(string, nat) umap"
  lru_next :: nat

definition lru_empty :: "'a lru" where
  "lru_empty = \<lparr>lru_list = [], lru_map = [], lru_next = 0\<rparr>"

definition lru_deref :: "'a lru \<Rightarrow> nat \<Rightarrow> (string \<times> 'a) option" where
  "lru_deref c i = map_of (lru_list c) i"

text \<open>\<open>lru_.erase(it->second); map_.erase(it)\<close>\<close>

definition lru_erase :: "nat \<Rightarrow> string \<Rightarrow> 'a lru \<Rightarrow> 'a lru" where
  "lru_erase i k c =
     c\<lparr>lru_list := AList.delete i (lru_list c), lru_map := um_erase k (lru_map c)\<rparr>"

text \<open>\<open>lru_.splice(lru_.begin(), lru_, it->second)\<close>\<close>

definition lru_splice_front :: "nat \<Rightarrow> 'a lru \<Rightarrow> 'a lru" where
  "lru_splice_front i c =
     c\<lparr>lru_list := (case map_of (lru_list c) i of
                      None \<Rightarrow> lru_list c
                    | Some n \<Rightarrow> (i, n) # AList.delete i (lru_list c))\<rparr>"

text \<open>A write through an iterator: \<open>it->second->field = \<dots>\<close>\<close>

definition lru_modify :: "nat \<Rightarrow> ('a \<Rightarrow> 'a) \<Rightarrow> 'a lru \<Rightarrow> 'a lru" where
  "lru_modify i f c =
     c\<lparr>lru_list := map (\<lambda>(j, k, v). (j, k, if j = i then f v else v)) (lru_list c)\<rparr>"

text \<open>\<open>lru_.push_front({key, \<dots>}); map_[key] = lru_.begin()\<close>\<close>

definition lru_push_front :: "string \<Rightarrow> 'a \<Rightarrow> 'a lru \<Rightarrow> 'a lru" where
  "lru_push_front k v c =
     c\<lparr>lru_list := (lru_next c, k, v) # lru_list c,
       lru_map := um_set k (lru_next c) (lru_map c), lru_next := Suc (lru_next c)\<rparr>"

text \<open>\<open>map_.erase(lru_.back().key); lru_.pop_back()\<close>, undefined on an empty list.\<close>

definition lru_pop_back :: "'a lru \<Rightarrow> 'a lru result" where
  "lru_pop_back c =
     (case rev (lru_list c) of
        [] \<Rightarrow> Inl UB
      | (i, k, v) # _ \<Rightarrow>
          Inr (c\<lparr>lru_list := butlast (lru_list c), lru_map := um_erase k (lru_map c)\<rparr>))"

section \<open>Invariant and view\<close>

definition lru_ok :: "'a lru \<Rightarrow> bool" where
  "lru_ok c \<longleftrightarrow> um_ok (lru_map c) \<and> distinct (map fst (lru_list c)) \<and> (\<forall>n \<in> set (lru_list c). fst n < lru_next c) \<and>
     (\<forall>k i. um_find (lru_map c) k = Some i \<longleftrightarrow> (\<exists>v. (i, k, v) \<in> set (lru_list c)))"

definition lru_view :: "'a lru \<Rightarrow> (string \<times> 'a) list" where
  "lru_view c = map snd (lru_list c)"

lemma lru_ok_empty [simp]: "lru_ok lru_empty"
  by (simp add: lru_ok_def lru_empty_def)

lemma lru_view_empty [simp]: "lru_view lru_empty = []"
  by (simp add: lru_view_def lru_empty_def)

lemma lru_key_unique:
  "lru_ok c \<Longrightarrow> (i, k, v) \<in> set (lru_list c) \<Longrightarrow> (j, k, w) \<in> set (lru_list c) \<Longrightarrow> i = j \<and> v = w"
proof -
  assume ok: "lru_ok c" and i: "(i, k, v) \<in> set (lru_list c)" and j: "(j, k, w) \<in> set (lru_list c)"
  have "um_find (lru_map c) k = Some i" "um_find (lru_map c) k = Some j" using ok i j unfolding lru_ok_def by blast+
  then have "i = j" by simp
  moreover have "distinct (map fst (lru_list c))" using ok by (simp add: lru_ok_def)
  ultimately show ?thesis using i j eq_key_imp_eq_value by fast
qed

lemma lru_node_iff:
  assumes ok: "lru_ok c" and k: "um_find (lru_map c) k = Some i" and n: "(j, k', v) \<in> set (lru_list c)"
  shows "j = i \<longleftrightarrow> k' = k"
proof
  assume "j = i"
  obtain w where "(i, k, w) \<in> set (lru_list c)" using ok k unfolding lru_ok_def by blast
  moreover have "distinct (map fst (lru_list c))" using ok by (simp add: lru_ok_def)
  ultimately have "(k', v) = (k, w)" using n \<open>j = i\<close> eq_key_imp_eq_value by fast
  then show "k' = k" by simp
next
  assume "k' = k"
  then have "um_find (lru_map c) k = Some j" using ok n unfolding lru_ok_def by blast
  with k show "j = i" by simp
qed

lemma distinct_map_inj:
  "distinct xs \<Longrightarrow> (\<And>x y. x \<in> set xs \<Longrightarrow> y \<in> set xs \<Longrightarrow> f x = f y \<Longrightarrow> x = y) \<Longrightarrow> distinct (map f xs)"
  by (simp add: distinct_map inj_on_def)

lemma lru_view_distinct: "lru_ok c \<Longrightarrow> distinct (map fst (lru_view c))"
proof -
  assume ok: "lru_ok c"
  have "distinct (lru_list c)" using ok by (simp add: lru_ok_def distinct_map)
  then have "distinct (map (\<lambda>n. fst (snd n)) (lru_list c))"
  proof (rule distinct_map_inj)
    fix x y assume "x \<in> set (lru_list c)" "y \<in> set (lru_list c)" "fst (snd x) = fst (snd y)"
    then show "x = y" using lru_key_unique[OF ok] by (metis prod.collapse)
  qed
  then show ?thesis by (simp add: lru_view_def comp_def)
qed

lemma lru_map_Some:
  assumes "lru_ok c" "um_find (lru_map c) k = Some i"
  obtains v where "(i, k, v) \<in> set (lru_list c)" "lru_deref c i = Some (k, v)"
    "map_of (lru_view c) k = Some v"
proof -
  obtain v where v: "(i, k, v) \<in> set (lru_list c)"
    using assms unfolding lru_ok_def by blast
  moreover have "lru_deref c i = Some (k, v)"
    using assms(1) v by (simp add: lru_deref_def lru_ok_def map_of_is_SomeI)
  moreover have "map_of (lru_view c) k = Some v"
    using lru_view_distinct[OF assms(1)] v
    by (intro map_of_is_SomeI) (force simp: lru_view_def)+
  ultimately show ?thesis using that by blast
qed

lemma lru_map_None: "lru_ok c \<Longrightarrow> um_find (lru_map c) k = None \<longleftrightarrow> map_of (lru_view c) k = None"
proof
  assume ok: "lru_ok c" and "um_find (lru_map c) k = None"
  then have "\<And>i v. (i, k, v) \<notin> set (lru_list c)"
    unfolding lru_ok_def by (metis option.distinct(1))
  then show "map_of (lru_view c) k = None"
    by (auto simp: lru_view_def map_of_eq_None_iff)
next
  assume "lru_ok c" "map_of (lru_view c) k = None"
  then show "um_find (lru_map c) k = None"
    by (metis lru_map_Some option.distinct(1) option.exhaust)
qed

lemma AList_delete_filter: "AList.delete k m = filter (\<lambda>p. fst p \<noteq> k) m"
  by (auto simp: AList.delete_eq intro: filter_cong)

lemma lru_delete_view:
  assumes "lru_ok c" "um_find (lru_map c) k = Some i"
  shows "map snd (AList.delete i (lru_list c)) = AList.delete k (lru_view c)"
proof -
  have "fst n \<noteq> i \<longleftrightarrow> fst (snd n) \<noteq> k" if "n \<in> set (lru_list c)" for n
    using lru_node_iff[OF assms, of "fst n" "fst (snd n)" "snd (snd n)"] that by simp
  then show ?thesis
    by (simp add: AList_delete_filter lru_view_def filter_map comp_def cong: filter_cong)
qed

section \<open>The primitives on the view\<close>

lemma lru_view_erase:
  "lru_ok c \<Longrightarrow> um_find (lru_map c) k = Some i \<Longrightarrow> lru_view (lru_erase i k c) = AList.delete k (lru_view c)"
  using lru_delete_view by (simp add: lru_erase_def lru_view_def)

lemma lru_view_splice:
  assumes "lru_ok c" "um_find (lru_map c) k = Some i" "map_of (lru_view c) k = Some v"
  shows "lru_view (lru_splice_front i c) = (k, v) # AList.delete k (lru_view c)"
  using assms lru_delete_view[OF assms(1,2)]
  by (auto simp: lru_splice_front_def lru_view_def lru_deref_def elim: lru_map_Some)

lemma lru_view_modify:
  assumes "lru_ok c" "um_find (lru_map c) k = Some i"
  shows "lru_view (lru_modify i f c) = map (\<lambda>(j, v). (j, if j = k then f v else v)) (lru_view c)"
proof -
  have "fst n = i \<longleftrightarrow> fst (snd n) = k" if "n \<in> set (lru_list c)" for n
    using lru_node_iff[OF assms, of "fst n" "fst (snd n)" "snd (snd n)"] that by simp
  then show ?thesis by (auto simp: lru_modify_def lru_view_def)
qed

lemma lru_view_push [simp]: "lru_view (lru_push_front k v c) = (k, v) # lru_view c"
  by (simp add: lru_view_def lru_push_front_def)

lemma lru_okI:
  assumes "um_ok (lru_map c)" "distinct (map fst (lru_list c))" "\<And>n. n \<in> set (lru_list c) \<Longrightarrow> fst n < lru_next c"
    and "\<And>k i. um_find (lru_map c) k = Some i \<Longrightarrow> \<exists>v. (i, k, v) \<in> set (lru_list c)"
    and "\<And>k i v. (i, k, v) \<in> set (lru_list c) \<Longrightarrow> um_find (lru_map c) k = Some i"
  shows "lru_ok c"
  using assms unfolding lru_ok_def by blast

lemma lru_okD:
  assumes "lru_ok c"
  shows "distinct (map fst (lru_list c))" "\<And>n. n \<in> set (lru_list c) \<Longrightarrow> fst n < lru_next c"
    "\<And>k i. um_find (lru_map c) k = Some i \<Longrightarrow> \<exists>v. (i, k, v) \<in> set (lru_list c)"
    "\<And>k i v. (i, k, v) \<in> set (lru_list c) \<Longrightarrow> um_find (lru_map c) k = Some i"
    "um_ok (lru_map c)"
  using assms unfolding lru_ok_def by blast+

lemma set_AList_delete: "set (AList.delete i m) = {n \<in> set m. fst n \<noteq> i}"
  by (simp add: AList_delete_filter)

lemma lru_ok_erase:
  assumes ok: "lru_ok c" and k: "um_find (lru_map c) k = Some i"
  shows "lru_ok (lru_erase i k c)"
proof (rule lru_okI)
  show "um_ok (lru_map (lru_erase i k c))" using lru_okD(5)[OF ok] by (simp add: lru_erase_def)
  show "distinct (map fst (lru_list (lru_erase i k c)))"
    using lru_okD(1)[OF ok] by (simp add: lru_erase_def distinct_delete)
  show "fst n < lru_next (lru_erase i k c)" if "n \<in> set (lru_list (lru_erase i k c))" for n
    using that lru_okD(2)[OF ok] by (simp add: lru_erase_def set_AList_delete)
  show "\<exists>v. (j, k', v) \<in> set (lru_list (lru_erase i k c))" if "um_find (lru_map (lru_erase i k c)) k' = Some j" for k' j
  proof -
    have k': "k' \<noteq> k" "um_find (lru_map c) k' = Some j" using that by (auto simp: lru_erase_def split: if_splits)
    obtain v where v: "(j, k', v) \<in> set (lru_list c)" using lru_okD(3)[OF ok k'(2)] by blast
    then show ?thesis
      using lru_node_iff[OF ok k v] k'(1) by (auto simp: lru_erase_def set_AList_delete)
  qed
  show "um_find (lru_map (lru_erase i k c)) k' = Some j" if "(j, k', v) \<in> set (lru_list (lru_erase i k c))" for k' j v
    using that lru_node_iff[OF ok k] lru_okD(4)[OF ok]
    by (auto simp: lru_erase_def set_AList_delete)
qed

lemma lru_ok_cong:
  assumes "lru_ok c" "set (lru_list c') = set (lru_list c)" "distinct (map fst (lru_list c'))"
    and "lru_map c' = lru_map c" "lru_next c' = lru_next c"
  shows "lru_ok c'"
  using assms by (simp add: lru_ok_def)

lemma lru_ok_splice:
  assumes "lru_ok c" "um_find (lru_map c) k = Some i"
  shows "lru_ok (lru_splice_front i c)"
proof -
  obtain v where v: "(i, k, v) \<in> set (lru_list c)" "map_of (lru_list c) i = Some (k, v)"
    using lru_map_Some[OF assms] by (metis lru_deref_def)
  have "n = (i, k, v)" if "n \<in> set (lru_list c)" "fst n = i" for n
    using lru_okD(1)[OF assms(1)] v(1) that by (metis eq_key_imp_eq_value prod.collapse)
  then have "insert (i, k, v) {n \<in> set (lru_list c). fst n \<noteq> i} = set (lru_list c)"
    using v(1) by blast
  then have "set (lru_list (lru_splice_front i c)) = set (lru_list c)"
    using v(2) by (simp add: lru_splice_front_def set_AList_delete)
  moreover have "distinct (map fst (lru_list (lru_splice_front i c)))"
    using lru_okD(1)[OF assms(1)] v
    by (auto simp: lru_splice_front_def distinct_delete set_AList_delete)
  ultimately show ?thesis
    by (rule lru_ok_cong[OF assms(1)]) (simp_all add: lru_splice_front_def)
qed

lemma in_lru_modify:
  "(j, k, w) \<in> set (lru_list (lru_modify i f c)) \<longleftrightarrow>
     (\<exists>v. (j, k, v) \<in> set (lru_list c) \<and> w = (if j = i then f v else v))"
  by (auto simp: lru_modify_def image_iff split_beta) force+

lemma lru_ok_modify:
  assumes ok: "lru_ok c"
  shows "lru_ok (lru_modify i f c)"
proof (rule lru_okI)
  show "um_ok (lru_map (lru_modify i f c))" using lru_okD(5)[OF ok] by (simp add: lru_modify_def)
  show "distinct (map fst (lru_list (lru_modify i f c)))"
    using lru_okD(1)[OF ok] by (simp add: lru_modify_def comp_def split_beta)
  show "fst n < lru_next (lru_modify i f c)" if n: "n \<in> set (lru_list (lru_modify i f c))" for n
  proof -
    obtain v where "(fst n, fst (snd n), v) \<in> set (lru_list c)"
      using n in_lru_modify[of "fst n" "fst (snd n)" "snd (snd n)" i f c] by auto
    then show ?thesis using lru_okD(2)[OF ok] by (fastforce simp: lru_modify_def)
  qed
  show "\<exists>v. (j, k, v) \<in> set (lru_list (lru_modify i f c))"
    if "um_find (lru_map (lru_modify i f c)) k = Some j" for k j
    using that lru_okD(3)[OF ok, of k j] unfolding in_lru_modify by (auto simp: lru_modify_def)
  show "um_find (lru_map (lru_modify i f c)) k = Some j"
    if "(j, k, v) \<in> set (lru_list (lru_modify i f c))" for k j v
    using that lru_okD(4)[OF ok] unfolding in_lru_modify by (auto simp: lru_modify_def)
qed

lemma lru_ok_push:
  assumes ok: "lru_ok c" and k: "um_find (lru_map c) k = None"
  shows "lru_ok (lru_push_front k v c)"
proof (rule lru_okI)
  show "um_ok (lru_map (lru_push_front k v c))" using lru_okD(5)[OF ok] by (simp add: lru_push_front_def)
  have fresh: "lru_next c \<notin> fst ` set (lru_list c)"
    using lru_okD(2)[OF ok] by fastforce
  then show "distinct (map fst (lru_list (lru_push_front k v c)))"
    using lru_okD(1)[OF ok] by (simp add: lru_push_front_def)
  show "fst n < lru_next (lru_push_front k v c)" if "n \<in> set (lru_list (lru_push_front k v c))" for n
    using that lru_okD(2)[OF ok, of n] by (auto simp: lru_push_front_def less_Suc_eq)
  show "\<exists>w. (j, k', w) \<in> set (lru_list (lru_push_front k v c))"
    if "um_find (lru_map (lru_push_front k v c)) k' = Some j" for k' j
    using that lru_okD(3)[OF ok, of k' j] by (auto simp: lru_push_front_def split: if_splits)
  show "um_find (lru_map (lru_push_front k v c)) k' = Some j"
    if "(j, k', w) \<in> set (lru_list (lru_push_front k v c))" for k' j w
    using that lru_okD(4)[OF ok, of j k' w] k by (auto simp: lru_push_front_def)
qed

lemma lru_pop_back_ok:
  assumes ok: "lru_ok c" and ne: "lru_list c \<noteq> []"
  obtains c' where "lru_pop_back c = Inr c'" "lru_ok c'" "lru_view c' = butlast (lru_view c)"
    "length (lru_list c') = length (lru_list c) - 1"
    "\<And>k. um_find (lru_map c) k = None \<Longrightarrow> um_find (lru_map c') k = None"
proof -
  obtain xs i k v where l: "lru_list c = xs @ [(i, k, v)]"
    using ne by (metis append_butlast_last_id prod_cases3)
  have k: "um_find (lru_map c) k = Some i" using lru_okD(4)[OF ok, of i k v] l by simp
  have "i \<notin> fst ` set xs" using lru_okD(1)[OF ok] l by simp
  then have "AList.delete i (lru_list c) = xs"
    by (auto simp: l AList_delete_filter filter_id_conv)
  then have "lru_pop_back c = Inr (lru_erase i k c)"
    by (simp add: lru_pop_back_def lru_erase_def l)
  then show ?thesis
    using that[of "lru_erase i k c"] lru_ok_erase[OF ok k] \<open>AList.delete i (lru_list c) = xs\<close>
    by (simp add: lru_erase_def lru_view_def l)
qed

text \<open>\<open>map_.size()\<close> is \<open>lru_.size()\<close>, and the map holds exactly the keys of the view.\<close>

lemma lru_size:
  assumes ok: "lru_ok c"
  shows "length (lru_map c) = length (lru_list c)"
proof -
  have "fst ` set (lru_map c) = fst ` set (lru_view c)"
  proof -
    have "k \<in> fst ` set (lru_map c) \<longleftrightarrow> k \<in> fst ` set (lru_view c)" for k
      using lru_map_None[OF ok, of k] by (simp add: um_find_def map_of_eq_None_iff)
    then show ?thesis by blast
  qed
  moreover have "length (lru_map c) = card (fst ` set (lru_map c))"
    using lru_okD(5)[OF ok] by (metis um_ok_def distinct_card length_map list.set_map)
  moreover have "length (lru_view c) = card (fst ` set (lru_view c))"
    using lru_view_distinct[OF ok] by (metis distinct_card length_map list.set_map)
  ultimately show ?thesis by (simp add: lru_view_def)
qed

section \<open>Bounded stores with recency order\<close>

text \<open>The keys in the order of their most recent occurrence, most recent first.\<close>

fun mru :: "'a list \<Rightarrow> 'a list" where
  "mru [] = []"
| "mru (x # xs) = x # removeAll x (mru xs)"

lemma set_mru [simp]: "set (mru xs) = set xs"
  by (induction xs) auto

lemma distinct_mru [simp]: "distinct (mru xs)"
  by (induction xs) (auto simp: distinct_removeAll)

lemma mru_distinct: "distinct xs \<Longrightarrow> mru xs = xs"
  by (induction xs) (auto simp: removeAll_id)

lemma length_removeAll_distinct: "distinct xs \<Longrightarrow> length xs \<le> Suc (length (removeAll x xs))"
  by (induction xs) (auto simp: removeAll_id)

lemma take_removeAll_take:
  assumes "distinct xs"
  shows "take n (removeAll x xs) = take n (removeAll x (take (Suc n) xs))"
proof (cases "length xs \<le> Suc n")
  case False
  have "distinct (take (Suc n) xs)" using assms by simp
  then have "n \<le> length (removeAll x (take (Suc n) xs))"
    using length_removeAll_distinct[of "take (Suc n) xs" x] False by simp
  moreover have "removeAll x xs = removeAll x (take (Suc n) xs) @ removeAll x (drop (Suc n) xs)"
    by (metis append_take_drop_id removeAll_append)
  ultimately show ?thesis by simp
qed simp

lemma take_mru_append:
  "take c (mru (xs @ take c (mru ys))) = take c (mru (xs @ ys))"
proof (induction xs)
  case Nil
  have "mru (take c (mru ys)) = take c (mru ys)" by (rule mru_distinct) simp
  then show ?case by simp
next
  case (Cons x xs)
  show ?case
  proof (cases c)
    case (Suc n)
    let ?A = "mru (xs @ take c (mru ys))" and ?B = "mru (xs @ ys)"
    have "take n (removeAll x ?A) = take n (removeAll x ?B)"
      using take_removeAll_take[of ?A n x] take_removeAll_take[of ?B n x] Cons.IH Suc by simp
    then show ?thesis using Suc by simp
  qed simp
qed

text \<open>
  The interface: \<open>view\<close> lists the store's pairs from the most to the least recently used one, and
  a \<open>put\<close> into a store of positive capacity brings its key to the front and drops what no longer
  fits at the other end.
\<close>

locale lru_store =
  fixes inv :: "'s \<Rightarrow> bool"
    and view :: "'s \<Rightarrow> (string \<times> 'v) list"
    and cap :: "'s \<Rightarrow> nat"
    and put :: "string \<times> 'v \<Rightarrow> 's \<Rightarrow> 's result"
  assumes inv_view: "inv s \<Longrightarrow> distinct (map fst (view s)) \<and> length (view s) \<le> cap s"
    and put_spec: "inv s \<Longrightarrow> 0 < cap s \<Longrightarrow>
      \<exists>s'. put p s = Inr s' \<and> inv s' \<and> cap s' = cap s \<and>
        view s' = take (cap s) (p # AList.delete (fst p) (view s))"
begin

lemma keys_put: "map fst (take c (p # AList.delete (fst p) xs)) =
    take c (fst p # removeAll (fst p) (map fst xs))"
proof -
  have "map fst (AList.delete k xs) = removeAll k (map fst xs)" for k
    by (induction xs) auto
  then show ?thesis by (simp add: take_map[symmetric])
qed

text \<open>Any sequence of puts succeeds and leaves the most recently used distinct keys, in order.\<close>

lemma puts_recency:
  "inv s \<Longrightarrow> 0 < cap s \<Longrightarrow>
     \<exists>s'. foldE put ps s = Inr s' \<and> inv s' \<and> cap s' = cap s \<and>
       map fst (view s') = take (cap s) (mru (rev (map fst ps) @ map fst (view s)))"
proof (induction ps arbitrary: s)
  case Nil
  then show ?case using inv_view[of s] by (simp add: mru_distinct)
next
  case (Cons p ps)
  obtain s1 where s1: "put p s = Inr s1" "inv s1" "cap s1 = cap s"
    "view s1 = take (cap s) (p # AList.delete (fst p) (view s))"
    using put_spec[OF Cons.prems, of p] by blast
  obtain s2 where s2: "foldE put ps s1 = Inr s2" "inv s2" "cap s2 = cap s"
    "map fst (view s2) = take (cap s) (mru (rev (map fst ps) @ map fst (view s1)))"
    using Cons.IH[OF s1(2)] s1(3) Cons.prems(2) by auto
  have "mru (map fst (view s)) = map fst (view s)"
    using inv_view[OF Cons.prems(1)] by (simp add: mru_distinct)
  then have "map fst (view s1) = take (cap s) (mru (fst p # map fst (view s)))"
    unfolding s1(4) keys_put by simp
  then have "map fst (view s2) =
      take (cap s) (mru (rev (map fst ps) @ fst p # map fst (view s)))"
    using s2(4) take_mru_append by metis
  then show ?case using s1(1) s2 by simp
qed

text \<open>A pair survives as long as fewer other keys than the capacity have been put since.\<close>

lemma put_survives:
  assumes inv: "inv s" and cap: "0 < cap s" and view: "view s = xs @ (k, v) # ys"
    and keys: "fst ` set xs \<subseteq> S" and S: "finite S" "card S < cap s" "k \<notin> S" "fst p \<in> S"
  shows "\<exists>s' xs' ys'. put p s = Inr s' \<and> inv s' \<and> cap s' = cap s \<and>
    view s' = xs' @ (k, v) # ys' \<and> fst ` set xs' \<subseteq> S"
proof -
  obtain s' where s': "put p s = Inr s'" "inv s'" "cap s' = cap s"
    "view s' = take (cap s) (p # AList.delete (fst p) (view s))"
    using put_spec[OF inv cap, of p] by blast
  let ?xs = "p # AList.delete (fst p) xs"
  have "fst p \<noteq> k" using S by blast
  then have split: "p # AList.delete (fst p) (view s) =
      ?xs @ (k, v) # AList.delete (fst p) ys"
    by (simp add: view AList_delete_filter)
  have sub: "fst ` set ?xs \<subseteq> S"
    using keys S(4) by (auto simp: set_AList_delete)
  have "distinct (map fst xs)" using inv_view[OF inv] by (simp add: view)
  then have "distinct (map fst ?xs)"
    by (auto simp: distinct_delete set_AList_delete)
  then have "length ?xs = card (fst ` set ?xs)"
    by (metis distinct_card length_map list.set_map)
  then have "length ?xs \<le> card S" using card_mono[OF S(1) sub] by simp
  then have "view s' = ?xs @ (k, v) # take (cap s - Suc (length ?xs)) (AList.delete (fst p) ys)"
    using S(2) s'(4) unfolding split
    by (cases "cap s - length ?xs") (auto simp: take_Cons')
  then show ?thesis using s' sub by blast
qed

lemma puts_survive_view:
  assumes "inv s" "0 < cap s" "view s = xs @ (k, v) # ys" "fst ` set xs \<subseteq> S"
    and "finite S" "card S < cap s" "k \<notin> S" "fst ` set ps \<subseteq> S"
  shows "\<exists>s' xs' ys'. foldE put ps s = Inr s' \<and> inv s' \<and> cap s' = cap s \<and>
    view s' = xs' @ (k, v) # ys' \<and> fst ` set xs' \<subseteq> S"
  using assms
proof (induction ps arbitrary: s xs ys)
  case (Cons p ps)
  have p: "fst p \<in> S" using Cons.prems(8) by simp
  obtain s1 xs1 ys1 where s1: "put p s = Inr s1" "inv s1" "cap s1 = cap s"
    "view s1 = xs1 @ (k, v) # ys1" "fst ` set xs1 \<subseteq> S"
    using put_survives[OF Cons.prems(1-7) p] by blast
  show ?case
    using Cons.IH[OF s1(2) _ s1(4,5) Cons.prems(5)] s1(1,3) Cons.prems by auto
qed auto

lemma puts_survive:
  assumes "inv s" "0 < cap s" "k \<notin> fst ` set ps" "card (fst ` set ps) < cap s"
  shows "\<exists>s'. foldE put ((k, v) # ps) s = Inr s' \<and> inv s' \<and> map_of (view s') k = Some v"
proof -
  obtain s1 where s1: "put (k, v) s = Inr s1" "inv s1" "cap s1 = cap s"
    "view s1 = take (cap s) ((k, v) # AList.delete k (view s))"
    using put_spec[OF assms(1,2), of "(k, v)"] by auto
  then obtain ys where "view s1 = [] @ (k, v) # ys"
    using assms(2) by (cases "cap s") auto
  then obtain s' xs' ys' where s': "foldE put ps s1 = Inr s'" "inv s'"
    "view s' = xs' @ (k, v) # ys'" "fst ` set xs' \<subseteq> fst ` set ps"
    using puts_survive_view[OF s1(2), of "[]" k v ys "fst ` set ps" ps] assms s1(3) by auto
  have "map_of (view s') k = Some v"
    using inv_view[OF s'(2)] s'(3) by (intro map_of_is_SomeI) auto
  then show ?thesis using s1(1) s'(1,2) by auto
qed

end

end
