(* ===== verification/Cache_Store.thy ===== *)
theory Cache_Store
  imports Lru_List
begin

text \<open>
  \<open>gw::CacheStore\<close> (\<open>include/common.h\<close>): the key/value store with time-outs that the Lua scripts
  reach through \<open>gateway.cache_get\<close> and \<open>gateway.cache_set\<close>. The operations follow the source
  statement by statement on the list with iterators; the specification is an association list in
  recency order, and the refinement theorem says that no operation ever dereferences a dangling
  iterator and that each acts on the list of pairs as the specification does.
\<close>

section \<open>Model\<close>

record cs_entry =
  ce_value :: string
  ce_expires :: int    \<comment> \<open>nanoseconds of \<open>steady_clock\<close>\<close>

record cache_store =
  cs_lru :: "cs_entry lru"
  cs_max_size :: nat

definition cs_init :: cache_store where
  "cs_init = \<lparr>cs_lru = lru_empty, cs_max_size = 10000\<rparr>"

text \<open>\<open>steady_clock::now() + std::chrono::seconds(ttl_seconds)\<close>\<close>

definition cs_deadline :: "int \<Rightarrow> int \<Rightarrow> int" where
  "cs_deadline now ttl = now + ttl * 1000000000"

definition cs_get :: "int \<Rightarrow> string \<Rightarrow> cache_store \<Rightarrow> (string option \<times> cache_store) result" where
  "cs_get now key c =
     (case um_find (lru_map (cs_lru c)) key of
        None \<Rightarrow> Inr (None, c)
      | Some it \<Rightarrow>
          (case lru_deref (cs_lru c) it of
             None \<Rightarrow> Inl UB
           | Some (_, entry) \<Rightarrow>
               if now > ce_expires entry
               then Inr (None, c\<lparr>cs_lru := lru_erase it key (cs_lru c)\<rparr>)
               else Inr (Some (ce_value entry), c\<lparr>cs_lru := lru_splice_front it (cs_lru c)\<rparr>)))"

definition cs_set :: "int \<Rightarrow> string \<Rightarrow> string \<Rightarrow> int \<Rightarrow> cache_store \<Rightarrow> cache_store result" where
  "cs_set now key value ttl c =
     (let l = cs_lru c; e = \<lparr>ce_value = value, ce_expires = cs_deadline now ttl\<rparr> in
      case um_find (lru_map l) key of
        Some it \<Rightarrow>
          (case lru_deref l it of
             None \<Rightarrow> Inl UB
           | Some _ \<Rightarrow> Inr (c\<lparr>cs_lru := lru_splice_front it (lru_modify it (\<lambda>_. e) l)\<rparr>))
      | None \<Rightarrow>
          bindE (if length (lru_list l) \<ge> cs_max_size c then lru_pop_back l else Inr l)
            (\<lambda>l. Inr (c\<lparr>cs_lru := lru_push_front key e l\<rparr>)))"

definition cs_size :: "cache_store \<Rightarrow> nat" where
  "cs_size c = length (lru_map (cs_lru c))"

definition cs_clear :: "cache_store \<Rightarrow> cache_store" where
  "cs_clear c = c\<lparr>cs_lru := (cs_lru c)\<lparr>lru_list := [], lru_map := []\<rparr>\<rparr>"

section \<open>Specification\<close>

definition cs_ok :: "cache_store \<Rightarrow> bool" where
  "cs_ok c \<longleftrightarrow> lru_ok (cs_lru c) \<and> 0 < cs_max_size c \<and> length (lru_list (cs_lru c)) \<le> cs_max_size c"

definition cs_view :: "cache_store \<Rightarrow> (string \<times> cs_entry) list" where
  "cs_view c = lru_view (cs_lru c)"

definition spec_get ::
  "int \<Rightarrow> string \<Rightarrow> (string \<times> cs_entry) list \<Rightarrow> string option \<times> (string \<times> cs_entry) list" where
  "spec_get now k m =
     (case map_of m k of
        None \<Rightarrow> (None, m)
      | Some e \<Rightarrow>
          if now > ce_expires e then (None, AList.delete k m)
          else (Some (ce_value e), (k, e) # AList.delete k m))"

definition spec_put :: "nat \<Rightarrow> string \<Rightarrow> 'a \<Rightarrow> (string \<times> 'a) list \<Rightarrow> (string \<times> 'a) list" where
  "spec_put n k e m = take n ((k, e) # AList.delete k m)"

lemma cs_ok_init [simp]: "cs_ok cs_init"
  by (simp add: cs_ok_def cs_init_def) (simp add: lru_empty_def)

lemma cs_view_init [simp]: "cs_view cs_init = []"
  by (simp add: cs_view_def cs_init_def)

lemma cs_clear_ok: "cs_ok c \<Longrightarrow> cs_ok (cs_clear c) \<and> cs_view (cs_clear c) = []"
  by (simp add: cs_ok_def cs_clear_def cs_view_def lru_view_def lru_ok_def)

lemma cs_view_length: "cs_ok c \<Longrightarrow> cs_size c = length (cs_view c)"
  by (simp add: cs_ok_def cs_size_def cs_view_def lru_size lru_view_def)

lemma length_splice:
  assumes "lru_ok l" "um_find (lru_map l) k = Some i"
  shows "length (lru_list (lru_splice_front i l)) = length (lru_list l)"
  using lru_size[OF assms(1)] lru_size[OF lru_ok_splice[OF assms]] by (simp add: lru_splice_front_def)

lemma lru_modify_simps [simp]:
  "lru_map (lru_modify i f l) = lru_map l" "length (lru_list (lru_modify i f l)) = length (lru_list l)"
  by (simp_all add: lru_modify_def)

lemma lru_deref_modify:
  "lru_deref l i = Some (k, v) \<Longrightarrow> lru_deref (lru_modify i f l) i = Some (k, f v)"
proof -
  have "map_of xs i = Some (k, v) \<Longrightarrow>
      map_of (map (\<lambda>(j, k, v). (j, k, if j = i then f v else v)) xs) i = Some (k, f v)" for xs
    by (induction xs) auto
  then show "lru_deref l i = Some (k, v) \<Longrightarrow> lru_deref (lru_modify i f l) i = Some (k, f v)"
    by (simp add: lru_deref_def lru_modify_def)
qed

text \<open>An overwrite through the iterator followed by the splice, and an insertion, as \<open>spec_put\<close>.\<close>

lemma lru_overwrite:
  assumes ok: "lru_ok l" and k: "um_find (lru_map l) k = Some i" and n: "length (lru_list l) \<le> n"
  shows "lru_ok (lru_splice_front i (lru_modify i (\<lambda>_. e) l)) \<and>
    length (lru_list (lru_splice_front i (lru_modify i (\<lambda>_. e) l))) \<le> n \<and>
    lru_view (lru_splice_front i (lru_modify i (\<lambda>_. e) l)) = spec_put n k e (lru_view l)"
proof -
  let ?m = "lru_modify i (\<lambda>_. e) l"
  have ok': "lru_ok ?m" by (rule lru_ok_modify[OF ok])
  have k': "um_find (lru_map ?m) k = Some i" using k by simp
  obtain v where "lru_deref l i = Some (k, v)" using lru_map_Some[OF ok k] .
  then have "lru_deref ?m i = Some (k, e)" by (rule lru_deref_modify)
  moreover obtain w where "lru_deref ?m i = Some (k, w)" "map_of (lru_view ?m) k = Some w"
    by (rule lru_map_Some[OF ok' k'])
  ultimately have v: "map_of (lru_view ?m) k = Some e" by simp
  have "AList.delete k (map (\<lambda>(j, v). (j, if j = k then e else v)) xs) = AList.delete k xs" for xs
    by (induction xs) auto
  then have view: "lru_view (lru_splice_front i ?m) = (k, e) # AList.delete k (lru_view l)"
    unfolding lru_view_splice[OF ok' k' v] lru_view_modify[OF ok k] by simp
  have len: "length (lru_list (lru_splice_front i ?m)) \<le> n"
    using length_splice[OF ok' k'] n by simp
  moreover have "length (lru_view (lru_splice_front i ?m)) = length (lru_list (lru_splice_front i ?m))"
    by (simp add: lru_view_def)
  ultimately show ?thesis
    using lru_ok_splice[OF ok' k'] unfolding view spec_put_def by simp
qed

lemma lru_insert:
  assumes ok: "lru_ok l" and k: "um_find (lru_map l) k = None" and n: "length (lru_list l) < n"
  shows "lru_ok (lru_push_front k e l) \<and> length (lru_list (lru_push_front k e l)) \<le> n \<and>
    lru_view (lru_push_front k e l) = (k, e) # lru_view l"
  using lru_ok_push[OF ok k] lru_view_push[of k e l] n
  by (simp add: lru_push_front_def[THEN arg_cong[where f = "\<lambda>x. length (lru_list x)"]] del: lru_view_push)

lemma delete_absent: "um_find (lru_map l) k = None \<Longrightarrow> lru_ok l \<Longrightarrow> AList.delete k (lru_view l) = lru_view l"
  using lru_map_None[of l k] by (simp add: delete_id map_of_eq_None_iff)

text \<open>The result and the new view of \<open>get\<close>.\<close>

lemma cs_get_correct:
  assumes ok: "cs_ok c"
  shows "\<exists>c'. cs_get now k c = Inr (fst (spec_get now k (cs_view c)), c') \<and> cs_ok c' \<and>
    cs_max_size c' = cs_max_size c \<and> cs_view c' = snd (spec_get now k (cs_view c))"
proof (cases "um_find (lru_map (cs_lru c)) k")
  case None
  then have "map_of (cs_view c) k = None" using ok lru_map_None by (auto simp: cs_ok_def cs_view_def)
  then show ?thesis using None ok by (simp add: cs_get_def spec_get_def)
next
  case (Some i)
  have l: "lru_ok (cs_lru c)" using ok by (simp add: cs_ok_def)
  obtain e where e: "lru_deref (cs_lru c) i = Some (k, e)" "map_of (lru_view (cs_lru c)) k = Some e"
    by (rule lru_map_Some[OF l Some])
  have "length (lru_list (lru_erase i k (cs_lru c))) \<le> length (lru_list (cs_lru c))"
    by (simp add: lru_erase_def AList_delete_filter)
  then show ?thesis
    using ok Some e lru_ok_erase[OF l Some] lru_ok_splice[OF l Some] lru_view_erase[OF l Some]
      lru_view_splice[OF l Some e(2)] length_splice[OF l Some]
    by (auto simp: cs_get_def spec_get_def cs_view_def cs_ok_def)
qed

lemma cs_set_correct:
  assumes ok: "cs_ok c"
  shows "\<exists>c'. cs_set now k v ttl c = Inr c' \<and> cs_ok c' \<and> cs_max_size c' = cs_max_size c \<and>
    cs_view c' = spec_put (cs_max_size c) k \<lparr>ce_value = v, ce_expires = cs_deadline now ttl\<rparr> (cs_view c)"
proof -
  let ?e = "\<lparr>ce_value = v, ce_expires = cs_deadline now ttl\<rparr>" and ?l = "cs_lru c" and ?n = "cs_max_size c"
  have l: "lru_ok ?l" "0 < ?n" "length (lru_list ?l) \<le> ?n" using ok by (auto simp: cs_ok_def)
  show ?thesis
  proof (cases "um_find (lru_map ?l) k")
    case (Some i)
    then obtain w where "lru_deref ?l i = Some (k, w)" using lru_map_Some[OF l(1)] by blast
    then show ?thesis
      using Some lru_overwrite[OF l(1) Some l(3), of ?e] l(2)
      by (simp add: cs_set_def Let_def cs_ok_def cs_view_def)
  next
    case None
    show ?thesis
    proof (cases "length (lru_list ?l) \<ge> ?n")
      case True
      then have "lru_list ?l \<noteq> []" using l(2) by auto
      then obtain l' where l': "lru_pop_back ?l = Inr l'" "lru_ok l'"
          "lru_view l' = butlast (lru_view ?l)" "length (lru_list l') = length (lru_list ?l) - 1"
          "\<And>k. um_find (lru_map ?l) k = None \<Longrightarrow> um_find (lru_map l') k = None"
        by (rule lru_pop_back_ok[OF l(1)]) blast
      have "length (lru_view ?l) = ?n" using True l(3) by (simp add: lru_view_def)
      then have "(k, ?e) # butlast (lru_view ?l) = spec_put ?n k ?e (lru_view ?l)"
        using delete_absent[OF None l(1)] l(2)
        by (cases ?n) (simp_all add: spec_put_def butlast_conv_take)
      moreover have "length (lru_list l') < ?n" using l' l(2,3) by simp
      ultimately show ?thesis
        using True None l' l(2) lru_insert[OF l'(2) l'(5)[OF None], of ?n ?e]
        by (simp add: cs_set_def Let_def cs_ok_def cs_view_def)
    next
      case False
      then have "length (lru_list ?l) < ?n" by simp
      moreover have "(k, ?e) # lru_view ?l = spec_put ?n k ?e (lru_view ?l)"
        using delete_absent[OF None l(1)] False by (simp add: spec_put_def lru_view_def)
      ultimately show ?thesis
        using False None l(2) lru_insert[OF l(1) None, of ?n ?e]
        by (simp add: cs_set_def Let_def cs_ok_def cs_view_def)
    qed
  qed
qed

text \<open>\<open>set\<close> as the \<open>put\<close> of the store interface: the pair's payload holds the deadline.\<close>

definition cs_put :: "string \<times> cs_entry \<Rightarrow> cache_store \<Rightarrow> cache_store result" where
  "cs_put p = cs_set (ce_expires (snd p)) (fst p) (ce_value (snd p)) 0"

lemma cs_set_put: "cs_set now k v ttl = cs_put (k, \<lparr>ce_value = v, ce_expires = cs_deadline now ttl\<rparr>)"
  by (rule ext) (simp add: cs_put_def cs_set_def cs_deadline_def)

interpretation cs: lru_store cs_ok cs_view cs_max_size cs_put
proof (unfold_locales, goal_cases)
  case (1 s)
  then show ?case using lru_view_distinct by (auto simp: cs_ok_def cs_view_def lru_view_def)
next
  case (2 s p)
  then show ?case
    using cs_set_correct[OF 2(1), of "ce_expires (snd p)" "fst p" "ce_value (snd p)" 0]
    by (cases p, cases "snd p") (simp add: cs_put_def cs_deadline_def spec_put_def)
qed

section \<open>Properties\<close>

text \<open>C26. \<open>CacheStore\<close> refines an association list in recency order. From every state that
  satisfies the invariant, \<open>get\<close> and \<open>set\<close> run without undefined behaviour (no iterator in the map
  dangles, \<open>back()\<close> is never called on an empty list), keep the invariant, and act on the list of
  pairs as \<open>spec_get\<close> and \<open>spec_put\<close>: an expired entry is removed and missed, a hit moves to the
  front, a write goes to the front and evicts the last pair exactly when the store is full;
  \<open>size\<close> is the number of pairs and never exceeds the maximum.\<close>

theorem cache_store_refines:
  assumes "cs_ok c"
  shows "(\<exists>c'. cs_get now k c = Inr (fst (spec_get now k (cs_view c)), c') \<and> cs_ok c' \<and>
      cs_view c' = snd (spec_get now k (cs_view c))) \<and>
    (\<exists>c'. cs_set now k v ttl c = Inr c' \<and> cs_ok c' \<and>
      cs_view c' = spec_put (cs_max_size c) k \<lparr>ce_value = v, ce_expires = now + ttl * 1000000000\<rparr> (cs_view c)) \<and>
    cs_size c = length (cs_view c) \<and> cs_size c \<le> cs_max_size c \<and>
    cs_ok (cs_clear c) \<and> cs_view (cs_clear c) = []"
  using cs_get_correct[OF assms, of now k] cs_set_correct[OF assms, of now k v ttl]
    cs_view_length[OF assms] cs.inv_view[OF assms] cs_clear_ok[OF assms]
  by (auto simp: cs_deadline_def)

definition cs_demo :: cache_store where
  "cs_demo = cs_init\<lparr>cs_max_size := 2\<rparr>"

lemma cs_demo_ok [simp]: "cs_ok cs_demo"
  by (simp add: cs_demo_def cs_ok_def cs_init_def) (simp add: lru_empty_def)

theorem cache_store_refines_witness:
  "\<exists>c'. cs_set 5 ''a'' ''x'' 1 cs_demo = Inr c' \<and> cs_ok c' \<and>
     cs_view c' = [(''a'', \<lparr>ce_value = ''x'', ce_expires = 1000000005\<rparr>)]"
  using cache_store_refines[OF cs_demo_ok, of 5 "''a''" "''x''" 1]
  by (simp add: spec_put_def cs_demo_def cs_init_def cs_view_def)

text \<open>Least-recently-used eviction: after any sequence of writes the store holds exactly the
  most recently written distinct keys, most recent first, cut at the capacity.\<close>

theorem cache_store_recency:
  assumes "cs_ok c"
  shows "\<exists>c'. foldE (\<lambda>(now, k, v, ttl). cs_set now k v ttl) ops c = Inr c' \<and> cs_ok c' \<and>
    map fst (cs_view c') =
      take (cs_max_size c) (mru (rev (map (\<lambda>(now, k, v, ttl). k) ops) @ map fst (cs_view c)))"
proof -
  let ?p = "\<lambda>(now, k, v, ttl). (k, \<lparr>ce_value = v, ce_expires = cs_deadline now ttl\<rparr>)"
  have "foldE (\<lambda>(now, k, v, ttl). cs_set now k v ttl) ops c = foldE cs_put (map ?p ops) c"
    by (induction ops arbitrary: c) (auto simp: cs_set_put split: prod.splits intro!: arg_cong2[where f = bindE])
  moreover have "map fst (map ?p ops) = map (\<lambda>(now, k, v, ttl). k) ops"
    by (simp add: case_prod_beta comp_def)
  moreover have "0 < cs_max_size c" using assms by (simp add: cs_ok_def)
  ultimately show ?thesis using cs.puts_recency[OF assms, of "map ?p ops"] by metis
qed

theorem cache_store_recency_witness:
  "\<exists>c'. foldE (\<lambda>(now, k, v, ttl). cs_set now k v ttl)
      [(0, ''a'', ''1'', 9), (1, ''b'', ''2'', 9), (2, ''a'', ''3'', 9), (3, ''c'', ''4'', 9)] cs_demo = Inr c' \<and>
    map fst (cs_view c') = [''c'', ''a'']"
  using cache_store_recency[OF cs_demo_ok,
      of "[(0, ''a'', ''1'', 9), (1, ''b'', ''2'', 9), (2, ''a'', ''3'', 9), (3, ''c'', ''4'', 9)]"]
  by (auto simp: cs_demo_def cs_init_def cs_view_def numeral_2_eq_2)

text \<open>Read after write: a value written under a key is what a \<open>get\<close> of it returns at any time
  up to its deadline, as long as the key is not written again and fewer distinct other keys than the
  capacity are written in between.\<close>

theorem cache_store_get_after_set:
  assumes "cs_ok c" "\<forall>op \<in> set ops. fst (snd op) \<noteq> k"
    and "card ((\<lambda>op. fst (snd op)) ` set ops) < cs_max_size c" and "now \<le> t + ttl * 1000000000"
  shows "\<exists>c1 c2 c3. cs_set t k v ttl c = Inr c1 \<and>
    foldE (\<lambda>(now, k, v, ttl). cs_set now k v ttl) ops c1 = Inr c2 \<and> cs_get now k c2 = Inr (Some v, c3)"
proof -
  let ?p = "\<lambda>(now, k, v, ttl). (k, \<lparr>ce_value = v, ce_expires = cs_deadline now ttl\<rparr>)"
  let ?e = "\<lparr>ce_value = v, ce_expires = cs_deadline t ttl\<rparr>"
  have "foldE (\<lambda>(now, k, v, ttl). cs_set now k v ttl) ops c = foldE cs_put (map ?p ops) c" for c
    by (induction ops arbitrary: c) (auto simp: cs_set_put split: prod.splits intro!: arg_cong2[where f = bindE])
  moreover have "fst ` set (map ?p ops) = (\<lambda>op. fst (snd op)) ` set ops"
    by (force simp: image_iff)
  moreover have "k \<notin> (\<lambda>op. fst (snd op)) ` set ops" using assms(2) by force
  ultimately obtain c' where c': "foldE cs_put ((k, ?e) # map ?p ops) c = Inr c'" "cs_ok c'"
      "map_of (cs_view c') k = Some ?e"
    using cs.puts_survive[OF assms(1), of k "map ?p ops" ?e] assms(1,3) by (auto simp: cs_ok_def)
  then obtain c1 where "cs_set t k v ttl c = Inr c1"
      "foldE (\<lambda>(now, k, v, ttl). cs_set now k v ttl) ops c1 = Inr c'"
    using \<open>\<And>c. foldE (\<lambda>(now, k, v, ttl). cs_set now k v ttl) ops c = foldE cs_put (map ?p ops) c\<close>
    by (auto simp: cs_set_put bindE_eq_Inr)
  moreover obtain c3 where "cs_get now k c' = Inr (Some v, c3)"
    using cs_get_correct[OF c'(2), of now k] c'(3) assms(4) by (auto simp: spec_get_def cs_deadline_def)
  ultimately show ?thesis by blast
qed

theorem cache_store_get_after_set_witness:
  "\<exists>c1 c2 c3. cs_set 0 ''a'' ''x'' 1 cs_demo = Inr c1 \<and>
    foldE (\<lambda>(now, k, v, ttl). cs_set now k v ttl) [(1, ''b'', ''y'', 5)] c1 = Inr c2 \<and>
    cs_get 7 ''a'' c2 = Inr (Some ''x'', c3)"
  by (rule cache_store_get_after_set) (simp_all add: cs_demo_def cs_init_def cs_ok_def lru_empty_def lru_ok_def)

end
