(* ===== verification/Json.thy ===== *)
theory Json
  imports Gateway_Prelude
begin

text \<open>
  The JSON library. The sources call nlohmann::json, which is not part of the repository, so the
  library is a parameter of the model: a record of the operations the sources use, passed to every
  definition that calls one of them. \<open>json_laws\<close> lists what the theorems rely on, each a documented
  behaviour of the library for objects the program itself has built (initializer lists, \<open>value\<close>,
  \<open>contains\<close>, \<open>operator[]\<close>, \<open>get\<close>); nothing is assumed of \<open>parse\<close> and \<open>dump\<close> except where a theorem
  names the texts it needs. \<open>sample_json\<close> is a concrete library that satisfies the laws, for the
  witnesses.
\<close>

section \<open>The library's operations\<close>

record 'j jlib =
  jparse :: "string \<Rightarrow> 'j result"                      \<comment> \<open>\<open>json::parse\<close>\<close>
  jdump :: "'j \<Rightarrow> string result"                       \<comment> \<open>\<open>dump()\<close>; throws on a string that is not UTF-8\<close>
  jnull :: 'j                                        \<comment> \<open>a default-constructed \<open>json\<close>\<close>
  jbool :: "bool \<Rightarrow> 'j"
  jint :: "int \<Rightarrow> 'j"
  jnum :: "double \<Rightarrow> 'j"
  jstr :: "string \<Rightarrow> 'j"
  jarr :: "'j list \<Rightarrow> 'j"
  jobj :: "(string \<times> 'j) list \<Rightarrow> 'j"                  \<comment> \<open>an initializer list of pairs\<close>
  jis_obj :: "'j \<Rightarrow> bool"
  jis_arr :: "'j \<Rightarrow> bool"
  jis_str :: "'j \<Rightarrow> bool"
  jempty :: "'j \<Rightarrow> bool"
  jcontains :: "'j \<Rightarrow> string \<Rightarrow> bool"
  jat :: "'j \<Rightarrow> string \<Rightarrow> 'j result"                  \<comment> \<open>\<open>j[key]\<close> as a value\<close>
  jfirst :: "'j \<Rightarrow> 'j result"                        \<comment> \<open>\<open>j[0]\<close>\<close>
  jput :: "string \<Rightarrow> 'j \<Rightarrow> 'j \<Rightarrow> 'j result"           \<comment> \<open>\<open>j[key] = v\<close>\<close>
  jelems :: "'j \<Rightarrow> 'j list"                           \<comment> \<open>\<open>for (auto& x : j)\<close>\<close>
  jitems :: "'j \<Rightarrow> (string \<times> 'j) list"               \<comment> \<open>\<open>j.items()\<close>\<close>
  jget_str :: "'j \<Rightarrow> string result"
  jget_int :: "'j \<Rightarrow> int result"
  jget_strs :: "'j \<Rightarrow> string list result"
  jvalue_str :: "'j \<Rightarrow> string \<Rightarrow> string \<Rightarrow> string result"
  jvalue_int :: "'j \<Rightarrow> string \<Rightarrow> int \<Rightarrow> int result"
  jvalue_int64 :: "'j \<Rightarrow> string \<Rightarrow> int \<Rightarrow> int result"
  jvalue_num :: "'j \<Rightarrow> string \<Rightarrow> double \<Rightarrow> double result"
  jvalue_bool :: "'j \<Rightarrow> string \<Rightarrow> bool \<Rightarrow> bool result"

text \<open>A value read back at 32 bits: \<open>int32\<close> is \<open>static_cast<int>\<close> of a 64-bit integer.\<close>

definition int32 :: "int \<Rightarrow> int" where
  "int32 i = (i + 2147483648) mod 4294967296 - 2147483648"

definition in_int32 :: "int \<Rightarrow> bool" where
  "in_int32 i \<longleftrightarrow> -2147483648 \<le> i \<and> i < 2147483648"

lemma int32_id [simp]: "in_int32 i \<Longrightarrow> int32 i = i"
  by (simp add: in_int32_def int32_def)

definition jstrs :: "'j jlib \<Rightarrow> string list \<Rightarrow> 'j" where
  "jstrs L xs = jarr L (map (jstr L) xs)"

section \<open>What the proofs rely on\<close>

text \<open>Documented behaviour on the values that the program builds.\<close>

definition json_laws :: "'j jlib \<Rightarrow> bool" where
  "json_laws L \<longleftrightarrow>
     (\<forall>fs k. jcontains L (jobj L fs) k \<longleftrightarrow> k \<in> fst ` set fs) \<and>
     (\<forall>fs k v. map_of fs k = Some v \<longrightarrow> jat L (jobj L fs) k = Inr v) \<and>
     (\<forall>fs k d. jvalue_str L (jobj L fs) k d = (case map_of fs k of None \<Rightarrow> Inr d | Some v \<Rightarrow> jget_str L v)) \<and>
     (\<forall>fs k d i. map_of fs k = Some (jint L i) \<longrightarrow> jvalue_int L (jobj L fs) k d = Inr (int32 i)) \<and>
     (\<forall>fs k d i. map_of fs k = Some (jint L i) \<longrightarrow> jvalue_int64 L (jobj L fs) k d = Inr i) \<and>
     (\<forall>fs k d x. map_of fs k = Some (jnum L x) \<longrightarrow> jvalue_num L (jobj L fs) k d = Inr x) \<and>
     (\<forall>s. jget_str L (jstr L s) = Inr s) \<and>
     (\<forall>xs. jelems L (jarr L xs) = xs) \<and>
     (\<forall>xs. jget_strs L (jstrs L xs) = Inr xs) \<and>
     (\<forall>fs. jis_obj L (jobj L fs)) \<and> (\<forall>xs. jis_arr L (jarr L xs)) \<and> (\<forall>s. jis_str L (jstr L s)) \<and>
     jitems L (jnull L) = [] \<and>
     (\<forall>fs. distinct (map fst fs) \<longrightarrow>
        set (jitems L (jobj L fs)) = set fs \<and> distinct (map fst (jitems L (jobj L fs))))"

text \<open>Documented behaviour of \<open>j[key] = v\<close> on an object.\<close>

definition json_put_laws :: "'j jlib \<Rightarrow> bool" where
  "json_put_laws L \<longleftrightarrow>
     (\<forall>j k v. jis_obj L j \<longrightarrow> (\<exists>j'. jput L k v j = Inr j' \<and> jis_obj L j' \<and>
        jcontains L j' k \<and> jat L j' k = Inr v \<and>
        (\<forall>k'. k' \<noteq> k \<longrightarrow> jcontains L j' k' = jcontains L j k' \<and> jat L j' k' = jat L j k'))) \<and>
     (\<forall>j k. jis_obj L j \<and> jcontains L j k \<longrightarrow> (\<exists>v. jat L j k = Inr v))"

lemma json_lawsD:
  assumes "json_laws L"
  shows "jcontains L (jobj L fs) k \<longleftrightarrow> k \<in> fst ` set fs"
    and "map_of fs k = Some v \<Longrightarrow> jat L (jobj L fs) k = Inr v"
    and "jvalue_str L (jobj L fs) k ds = (case map_of fs k of None \<Rightarrow> Inr ds | Some v \<Rightarrow> jget_str L v)"
    and "map_of fs k = Some (jint L i) \<Longrightarrow> jvalue_int L (jobj L fs) k d = Inr (int32 i)"
    and "map_of fs k = Some (jint L i) \<Longrightarrow> jvalue_int64 L (jobj L fs) k d = Inr i"
    and "map_of fs k = Some (jnum L x) \<Longrightarrow> jvalue_num L (jobj L fs) k dn = Inr x"
    and "jget_str L (jstr L s) = Inr s"
    and "jelems L (jarr L xs) = xs"
    and "jget_strs L (jstrs L ss) = Inr ss"
    and "jis_obj L (jobj L fs)" and "jis_arr L (jarr L xs)" and "jis_str L (jstr L s)"
    and "jitems L (jnull L) = []"
    and "distinct (map fst fs) \<Longrightarrow>
      set (jitems L (jobj L fs)) = set fs \<and> distinct (map fst (jitems L (jobj L fs)))"
  using assms by (simp_all add: json_laws_def)

section \<open>A concrete library for the witnesses\<close>

datatype jv = JNull | JBool bool | JInt int | JNum rat | JStr string | JArr "jv list"
  | JObj "(string \<times> jv) list"

fun jv_at :: "jv \<Rightarrow> string \<Rightarrow> jv result" where
  "jv_at (JObj fs) k = (case map_of fs k of None \<Rightarrow> Inl UB | Some v \<Rightarrow> Inr v)"
| "jv_at _ k = Inl TypeError"

fun jv_first :: "jv \<Rightarrow> jv result" where
  "jv_first (JArr (x # xs)) = Inr x"
| "jv_first (JArr []) = Inl UB"
| "jv_first _ = Inl TypeError"

fun jv_put :: "string \<Rightarrow> jv \<Rightarrow> jv \<Rightarrow> jv result" where
  "jv_put k v (JObj fs) = Inr (JObj (AList.update k v fs))"
| "jv_put k v JNull = Inr (JObj [(k, v)])"
| "jv_put k v _ = Inl TypeError"

fun jv_contains :: "jv \<Rightarrow> string \<Rightarrow> bool" where
  "jv_contains (JObj fs) k \<longleftrightarrow> k \<in> fst ` set fs"
| "jv_contains _ k \<longleftrightarrow> False"

fun jv_empty :: "jv \<Rightarrow> bool" where
  "jv_empty JNull = True"
| "jv_empty (JArr xs) = (xs = [])"
| "jv_empty (JObj fs) = (fs = [])"
| "jv_empty _ = False"

fun jv_items :: "jv \<Rightarrow> (string \<times> jv) list" where
  "jv_items (JObj fs) = fs"
| "jv_items _ = []"

fun jv_elems :: "jv \<Rightarrow> jv list" where
  "jv_elems (JArr xs) = xs"
| "jv_elems (JObj fs) = map snd fs"
| "jv_elems JNull = []"
| "jv_elems j = [j]"

fun jv_str :: "jv \<Rightarrow> string result" where
  "jv_str (JStr s) = Inr s"
| "jv_str _ = Inl TypeError"

fun jv_int :: "jv \<Rightarrow> int result" where
  "jv_int (JInt i) = Inr i"
| "jv_int (JNum x) = Inr \<lfloor>x\<rfloor>"
| "jv_int _ = Inl TypeError"

fun jv_num :: "jv \<Rightarrow> rat result" where
  "jv_num (JInt i) = Inr (of_int i)"
| "jv_num (JNum x) = Inr x"
| "jv_num _ = Inl TypeError"

fun jv_bool :: "jv \<Rightarrow> bool result" where
  "jv_bool (JBool b) = Inr b"
| "jv_bool _ = Inl TypeError"

fun jv_strs :: "jv list \<Rightarrow> string list result" where
  "jv_strs [] = Inr []"
| "jv_strs (x # xs) = bindE (jv_str x) (\<lambda>s. bindE (jv_strs xs) (\<lambda>ss. Inr (s # ss)))"

fun jv_get_strs :: "jv \<Rightarrow> string list result" where
  "jv_get_strs (JArr xs) = jv_strs xs"
| "jv_get_strs _ = Inl TypeError"

definition jv_value :: "(jv \<Rightarrow> 'b result) \<Rightarrow> jv \<Rightarrow> string \<Rightarrow> 'b \<Rightarrow> 'b result" where
  "jv_value get j k d =
     (case j of JObj fs \<Rightarrow> (case map_of fs k of None \<Rightarrow> Inr d | Some v \<Rightarrow> get v) | _ \<Rightarrow> Inl TypeError)"

definition sample_json :: "(string \<Rightarrow> jv result) \<Rightarrow> (jv \<Rightarrow> string result) \<Rightarrow> jv jlib" where
  "sample_json parse dump = \<lparr>
     jparse = parse, jdump = dump,
     jnull = JNull, jbool = JBool, jint = JInt, jnum = JNum, jstr = JStr, jarr = JArr, jobj = JObj,
     jis_obj = (\<lambda>j. case j of JObj _ \<Rightarrow> True | _ \<Rightarrow> False),
     jis_arr = (\<lambda>j. case j of JArr _ \<Rightarrow> True | _ \<Rightarrow> False),
     jis_str = (\<lambda>j. case j of JStr _ \<Rightarrow> True | _ \<Rightarrow> False),
     jempty = jv_empty, jcontains = jv_contains, jat = jv_at, jfirst = jv_first, jput = jv_put,
     jelems = jv_elems, jitems = jv_items,
     jget_str = jv_str, jget_int = (\<lambda>j. bindE (jv_int j) (\<lambda>i. Inr (int32 i))), jget_strs = jv_get_strs,
     jvalue_str = jv_value jv_str,
     jvalue_int = jv_value (\<lambda>j. bindE (jv_int j) (\<lambda>i. Inr (int32 i))),
     jvalue_int64 = jv_value jv_int, jvalue_num = jv_value jv_num, jvalue_bool = jv_value jv_bool\<rparr>"

lemma jv_strs_map [simp]: "jv_strs (map JStr xs) = Inr xs"
  by (induction xs) simp_all

lemma sample_json_sel [simp]:
  "jparse (sample_json p d) = p" "jdump (sample_json p d) = d" "jnull (sample_json p d) = JNull"
  "jbool (sample_json p d) = JBool" "jint (sample_json p d) = JInt" "jnum (sample_json p d) = JNum"
  "jstr (sample_json p d) = JStr" "jarr (sample_json p d) = JArr" "jobj (sample_json p d) = JObj"
  "jempty (sample_json p d) = jv_empty" "jcontains (sample_json p d) = jv_contains"
  "jat (sample_json p d) = jv_at" "jfirst (sample_json p d) = jv_first" "jput (sample_json p d) = jv_put" "jelems (sample_json p d) = jv_elems"
  "jitems (sample_json p d) = jv_items" "jget_str (sample_json p d) = jv_str"
  "jget_strs (sample_json p d) = jv_get_strs" "jvalue_str (sample_json p d) = jv_value jv_str"
  "jvalue_num (sample_json p d) = jv_value jv_num" "jvalue_bool (sample_json p d) = jv_value jv_bool"
  by (simp_all add: sample_json_def)

lemma sample_json_laws [simp]: "json_laws (sample_json p d)"
  by (simp add: json_laws_def sample_json_def jv_value_def jstrs_def split: option.split)

lemma sample_json_put_laws [simp]: "json_put_laws (sample_json p d)"
proof -
  have at: "\<exists>v. jv_at (JObj fs) k = Inr v" if "k \<in> fst ` set fs" for fs k
    using that by (cases "map_of fs k") (simp_all add: map_of_eq_None_iff)
  show ?thesis
    unfolding json_put_laws_def sample_json_def
    using at by (auto split: jv.splits simp: update_conv' dom_update simp del: fst_conv)
qed

end
