(* ===== verification/Tool_Registry.thy ===== *)
theory Tool_Registry
  imports Json
begin

text \<open>
  \<open>gw::ToolRegistry\<close> (\<open>include/common.h\<close>): the tools that executors announce, one entry per tool
  name and source (the session that announced it), and the OpenAI-style list of them that the
  gateway sends with a chat request. The registry is specified as a finite map from (source, name)
  to the tool's definition.
\<close>

record tool_def =
  td_name :: string
  td_description :: string
  td_parameters_json :: string

record tool_entry =
  te_def :: tool_def
  te_source :: string

type_synonym tool_registry = "tool_entry list"

definition tr_matches :: "string \<Rightarrow> string \<Rightarrow> tool_entry \<Rightarrow> bool" where
  "tr_matches name src e \<longleftrightarrow> td_name (te_def e) = name \<and> te_source e = src"

text \<open>The loop of \<open>add\<close>: overwrite the first match and return, append when there is none.\<close>

fun tr_add_loop :: "tool_def \<Rightarrow> string \<Rightarrow> tool_registry \<Rightarrow> tool_registry" where
  "tr_add_loop d src [] = [\<lparr>te_def = d, te_source = src\<rparr>]"
| "tr_add_loop d src (e # es) =
     (if tr_matches (td_name d) src e
      then e\<lparr>te_def := (te_def e)\<lparr>td_description := td_description d,
                               td_parameters_json := td_parameters_json d\<rparr>\<rparr> # es
      else e # tr_add_loop d src es)"

definition tr_add :: "string \<Rightarrow> string \<Rightarrow> string \<Rightarrow> string \<Rightarrow> tool_registry \<Rightarrow> tool_registry" where
  "tr_add name description parameters_json source es =
     (let src = if source = [] then ''static'' else source in
      tr_add_loop \<lparr>td_name = name, td_description = description, td_parameters_json = parameters_json\<rparr> src es)"

definition tr_remove_source :: "string \<Rightarrow> tool_registry \<Rightarrow> tool_registry" where
  "tr_remove_source source es = filter (\<lambda>e. te_source e \<noteq> source) es"

definition tr_names :: "tool_registry \<Rightarrow> string list" where
  "tr_names es = map (\<lambda>e. td_name (te_def e)) es"

text \<open>The schema clean-up in \<open>tools_json\<close>. \<open>jis_string_lit\<close> is the comparison with a literal.\<close>

definition jis_string_lit :: "'j jlib \<Rightarrow> string \<Rightarrow> 'j \<Rightarrow> bool" where
  "jis_string_lit L s j \<longleftrightarrow> jis_str L j \<and> jget_str L j = Inr s"

definition ensure_field :: "'j jlib \<Rightarrow> string \<Rightarrow> ('j \<Rightarrow> bool) \<Rightarrow> 'j \<Rightarrow> 'j \<Rightarrow> 'j result" where
  "ensure_field L k good dflt params =
     (if \<not> jcontains L params k then jput L k dflt params
      else bindE (jat L params k) (\<lambda>v. if good v then Inr params else jput L k dflt params))"

definition tool_params :: "'j jlib \<Rightarrow> string \<Rightarrow> 'j result" where
  "tool_params L parameters_json =
     (let params = (case jparse L (if parameters_json = [] then ''{}'' else parameters_json) of
                      Inl _ \<Rightarrow> jobj L [] | Inr p \<Rightarrow> p);
          params = (if jis_obj L params then params else jobj L []) in
      bindE (ensure_field L ''type'' (jis_string_lit L ''object'') (jstr L ''object'') params) (\<lambda>params.
      bindE (ensure_field L ''properties'' (jis_obj L) (jobj L []) params) (\<lambda>params.
      ensure_field L ''required'' (jis_arr L) (jarr L []) params)))"

definition tool_json :: "'j jlib \<Rightarrow> tool_entry \<Rightarrow> 'j list \<Rightarrow> 'j list result" where
  "tool_json L e arr =
     bindE (tool_params L (td_parameters_json (te_def e))) (\<lambda>params.
       Inr (arr @ [jobj L [(''type'', jstr L ''function''),
         (''function'', jobj L [(''name'', jstr L (td_name (te_def e))),
           (''description'', jstr L (td_description (te_def e))), (''parameters'', params)])]]))"

definition tools_json :: "'j jlib \<Rightarrow> tool_registry \<Rightarrow> string result" where
  "tools_json L es = bindE (foldE (tool_json L) es []) (\<lambda>arr. jdump L (jarr L arr))"

section \<open>The registry as a finite map\<close>

definition tr_key :: "tool_entry \<Rightarrow> string \<times> string" where
  "tr_key e = (te_source e, td_name (te_def e))"

definition tr_ok :: "tool_registry \<Rightarrow> bool" where
  "tr_ok es \<longleftrightarrow> distinct (map tr_key es)"

definition tr_map :: "tool_registry \<Rightarrow> string \<times> string \<Rightarrow> tool_def option" where
  "tr_map es = map_of (map (\<lambda>e. (tr_key e, te_def e)) es)"

lemma tr_add_loop_map:
  "tr_map (tr_add_loop d src es) = (tr_map es)((src, td_name d) \<mapsto> d)"
proof (induction es)
  case Nil
  then show ?case by (simp add: tr_map_def tr_key_def)
next
  case (Cons e es)
  have "(te_def e)\<lparr>td_description := td_description d, td_parameters_json := td_parameters_json d\<rparr> = d"
    if "td_name (te_def e) = td_name d" using that by (cases d) (simp add: tool_def.equality)
  then show ?case
    using Cons by (auto simp: tr_map_def tr_key_def tr_matches_def fun_eq_iff)
qed

lemma tr_add_loop_keys:
  "map tr_key (tr_add_loop d src es) =
     (if (src, td_name d) \<in> tr_key ` set es then map tr_key es else map tr_key es @ [(src, td_name d)])"
  by (induction es) (auto simp: tr_key_def tr_matches_def)

lemma tr_remove_map:
  "tr_map (tr_remove_source s es) k = (if fst k = s then None else tr_map es k)"
  by (induction es) (auto simp: tr_map_def tr_remove_source_def tr_key_def)

text \<open>The tool registry is a finite map from (source, name) to definitions: announcing a tool
  sets exactly its entry (an empty source means \<open>static\<close>), removing a source drops exactly the
  entries of that source, every (source, name) pair has at most one entry, and the order of the
  entries is the order of first announcement.\<close>

theorem tool_registry_map:
  assumes "tr_ok es"
  shows "tr_map (tr_add n d p s es) =
      (tr_map es)((if s = [] then ''static'' else s, n) \<mapsto>
         \<lparr>td_name = n, td_description = d, td_parameters_json = p\<rparr>) \<and>
    tr_map (tr_remove_source s es) = (\<lambda>k. if fst k = s then None else tr_map es k) \<and>
    tr_ok (tr_add n d p s es) \<and> tr_ok (tr_remove_source s es) \<and>
    (\<exists>new. tr_names (tr_add n d p s es) = tr_names es @ new \<and> set new \<subseteq> {n} \<and> length new \<le> 1)"
proof -
  let ?s = "if s = [] then ''static'' else s"
    and ?d = "\<lparr>td_name = n, td_description = d, td_parameters_json = p\<rparr>"
  have keys: "map tr_key (tr_add n d p s es) =
      (if (?s, n) \<in> tr_key ` set es then map tr_key es else map tr_key es @ [(?s, n)])"
    using tr_add_loop_keys[of ?d ?s es] by (simp add: tr_add_def)
  have names: "tr_names xs = map snd (map tr_key xs)" for xs by (simp add: tr_names_def tr_key_def)
  have "tr_ok (tr_add n d p s es)" using assms keys by (auto simp: tr_ok_def)
  moreover have "tr_ok (tr_remove_source s es)"
    using assms by (simp add: tr_ok_def tr_remove_source_def distinct_map inj_on_def)
  moreover have "\<exists>new. tr_names (tr_add n d p s es) = tr_names es @ new \<and> set new \<subseteq> {n} \<and> length new \<le> 1"
    unfolding names keys by (cases "(?s, n) \<in> tr_key ` set es") (auto intro: exI[of _ "[]"])
  ultimately show ?thesis
    using tr_add_loop_map[of ?d ?s es] tr_remove_map by (simp add: tr_add_def fun_eq_iff)
qed

theorem tool_registry_map_witness:
  "tr_map (tr_add ''ls'' ''list'' ''{}'' ''s1'' (tr_remove_source ''s1'' (tr_add ''ls'' ''old'' ''{}'' ''s1'' [])))
     = [(''s1'', ''ls'') \<mapsto> \<lparr>td_name = ''ls'', td_description = ''list'', td_parameters_json = ''{}''\<rparr>]"
  using tool_registry_map[of "[]" "''ls''" "''list''" "''{}''" "''s1''"]
  by (simp add: tr_ok_def tr_add_def tr_remove_source_def tr_map_def fun_eq_iff)

section \<open>The tool list sent upstream\<close>

definition good_params :: "'j jlib \<Rightarrow> 'j \<Rightarrow> bool" where
  "good_params L p \<longleftrightarrow> jis_obj L p \<and>
     (\<exists>t. jat L p ''type'' = Inr t \<and> jcontains L p ''type'' \<and> jis_string_lit L ''object'' t) \<and>
     (\<exists>t. jat L p ''properties'' = Inr t \<and> jcontains L p ''properties'' \<and> jis_obj L t) \<and>
     (\<exists>t. jat L p ''required'' = Inr t \<and> jcontains L p ''required'' \<and> jis_arr L t)"

lemma ensure_field_ok:
  assumes "json_put_laws L" "jis_obj L p" "good dflt"
  shows "\<exists>p'. ensure_field L k good dflt p = Inr p' \<and> jis_obj L p' \<and>
    (\<exists>t. jat L p' k = Inr t \<and> jcontains L p' k \<and> good t) \<and>
    (\<forall>k'. k' \<noteq> k \<longrightarrow> jcontains L p' k' = jcontains L p k' \<and> jat L p' k' = jat L p k')"
proof -
  obtain q where q: "jput L k dflt p = Inr q" "jis_obj L q" "jcontains L q k" "jat L q k = Inr dflt"
      "\<forall>k'. k' \<noteq> k \<longrightarrow> jcontains L q k' = jcontains L p k' \<and> jat L q k' = jat L p k'"
    using assms(1,2) unfolding json_put_laws_def by blast
  show ?thesis
  proof (cases "jcontains L p k")
    case True
    then obtain v where "jat L p k = Inr v" using assms(1,2) unfolding json_put_laws_def by blast
    then show ?thesis using q assms True by (cases "good v") (auto simp: ensure_field_def)
  next
    case False
    then show ?thesis using q assms(3) by (auto simp: ensure_field_def)
  qed
qed

lemma tool_params_ok:
  assumes L: "json_laws L" "json_put_laws L"
  shows "\<exists>p. tool_params L s = Inr p \<and> good_params L p"
proof -
  define p0 where "p0 = (let params = (case jparse L (if s = [] then ''{}'' else s) of Inl _ \<Rightarrow> jobj L [] | Inr p \<Rightarrow> p)
    in if jis_obj L params then params else jobj L [])"
  have o0: "jis_obj L p0" using json_lawsD(10)[OF L(1)] by (simp add: p0_def Let_def)
  have lit: "jis_string_lit L ''object'' (jstr L ''object'')"
    using json_lawsD(7,12)[OF L(1)] by (simp add: jis_string_lit_def)
  from ensure_field_ok[where k = "''type''" and good = "jis_string_lit L ''object''", OF L(2) o0 lit] obtain p1 where
    p1: "ensure_field L ''type'' (jis_string_lit L ''object'') (jstr L ''object'') p0 = Inr p1"
      "jis_obj L p1" "\<exists>t. jat L p1 ''type'' = Inr t \<and> jcontains L p1 ''type'' \<and> jis_string_lit L ''object'' t"
    by blast
  from ensure_field_ok[where k = "''properties''" and good = "jis_obj L", OF L(2) p1(2) json_lawsD(10)[OF L(1), of "[]"]] obtain p2 where
    p2: "ensure_field L ''properties'' (jis_obj L) (jobj L []) p1 = Inr p2" "jis_obj L p2"
      "\<exists>t. jat L p2 ''properties'' = Inr t \<and> jcontains L p2 ''properties'' \<and> jis_obj L t"
      "jcontains L p2 ''type'' = jcontains L p1 ''type''" "jat L p2 ''type'' = jat L p1 ''type''"
    by fastforce
  from ensure_field_ok[where k = "''required''" and good = "jis_arr L", OF L(2) p2(2) json_lawsD(11)[OF L(1), of "[]"]] obtain p3 where
    p3: "ensure_field L ''required'' (jis_arr L) (jarr L []) p2 = Inr p3" "jis_obj L p3"
      "\<exists>t. jat L p3 ''required'' = Inr t \<and> jcontains L p3 ''required'' \<and> jis_arr L t"
      "\<forall>k'. k' \<noteq> ''required'' \<longrightarrow> jcontains L p3 k' = jcontains L p2 k' \<and> jat L p3 k' = jat L p2 k'"
    by blast
  have "good_params L p3" using p1 p2 p3 by (simp add: good_params_def)
  then show ?thesis using p1(1) p2(1) p3(1) by (simp add: tool_params_def p0_def Let_def)
qed

text \<open>What one entry contributes to the list.\<close>

definition tool_json_of :: "'j jlib \<Rightarrow> tool_entry \<Rightarrow> 'j \<Rightarrow> 'j" where
  "tool_json_of L e p = jobj L [(''type'', jstr L ''function''),
     (''function'', jobj L [(''name'', jstr L (td_name (te_def e))),
        (''description'', jstr L (td_description (te_def e))), (''parameters'', p)])]"

lemma foldE_tool_json:
  assumes L: "json_laws L" "json_put_laws L"
  shows "\<exists>ps. foldE (tool_json L) es arr = Inr (arr @ map2 (tool_json_of L) es ps) \<and>
    length ps = length es \<and> (\<forall>p \<in> set ps. good_params L p)"
proof (induction es arbitrary: arr)
  case (Cons e es)
  obtain p where p: "tool_params L (td_parameters_json (te_def e)) = Inr p" "good_params L p"
    using tool_params_ok[OF L] by blast
  obtain ps where ps: "foldE (tool_json L) es (arr @ [tool_json_of L e p]) =
      Inr ((arr @ [tool_json_of L e p]) @ map2 (tool_json_of L) es ps)" "length ps = length es"
      "\<forall>p \<in> set ps. good_params L p"
    using Cons by blast
  have "foldE (tool_json L) (e # es) arr = Inr (arr @ map2 (tool_json_of L) (e # es) (p # ps))"
    using p(1) ps(1) by (simp add: tool_json_def tool_json_of_def)
  then show ?case using p(2) ps(2,3) by (metis length_Cons set_ConsD)
qed simp

text \<open>C31. The tool list is well formed whatever the executors announced: for every registry, also one
  whose parameter texts do not parse or hold something else than an object, \<open>tools_json\<close> serialises
  an array with one function object per entry, in registry order, whose \<open>parameters\<close> is an object
  with \<open>type\<close> the string \<open>object\<close>, an object \<open>properties\<close> and an array \<open>required\<close>; nothing but the
  final \<open>dump\<close> can throw.\<close>

theorem tools_json_wellformed:
  assumes "json_laws L" "json_put_laws L"
  shows "\<exists>ps. tools_json L es = jdump L (jarr L (map2 (tool_json_of L) es ps)) \<and>
    length ps = length es \<and> (\<forall>p \<in> set ps. good_params L p)"
  using foldE_tool_json[OF assms, of es "[]"] by (auto simp: tools_json_def)

theorem tools_json_wellformed_witness:
  "\<exists>p. tools_json (sample_json (\<lambda>_. Inl ParseError) (\<lambda>_. Inr ''ok'')) (tr_add ''ls'' ''list'' ''broken{'' ''s1'' [])
       = Inr ''ok'' \<and> good_params (sample_json (\<lambda>_. Inl ParseError) (\<lambda>_. Inr ''ok'')) p"
proof -
  let ?L = "sample_json (\<lambda>_. Inl ParseError) (\<lambda>_. Inr ''ok'')"
  obtain ps where "tools_json ?L (tr_add ''ls'' ''list'' ''broken{'' ''s1'' []) = Inr ''ok''"
      "length ps = 1" "\<forall>p \<in> set ps. good_params ?L p"
    using tools_json_wellformed[of ?L "tr_add ''ls'' ''list'' ''broken{'' ''s1'' []"]
    by (auto simp: tr_add_def)
  then show ?thesis by (cases ps) auto
qed

end
