(* ===== verification/Agent_Types.thy ===== *)
theory Agent_Types
  imports Json
begin

text \<open>
  The data of the multi-agent cache (\<open>include/agent_types.h\<close>): capabilities, cache entries, session
  turns and agent records, the eviction score, and the JSON form in which entries are stored on disk.
  \<open>CacheStatus\<close> is an enum class over \<open>int\<close>, so a status read from a file can be a code outside the
  three enumerators; \<open>OtherStatus\<close> is such a value.
\<close>

record agent_capability =
  ac_name :: string
  ac_description :: string
  ac_input_schema_json :: string
  ac_output_schema_json :: string
  ac_avg_cost_ms :: double
  ac_weight :: int

definition default_capability :: agent_capability where
  "default_capability = \<lparr>ac_name = [], ac_description = [], ac_input_schema_json = [],
     ac_output_schema_json = [], ac_avg_cost_ms = 0, ac_weight = 1\<rparr>"

datatype cache_layer = L1 | L2 | L3
datatype cache_status = FRESH | STALE | INVALIDATED | OtherStatus int

definition status_code :: "cache_status \<Rightarrow> int" where
  "status_code s = (case s of FRESH \<Rightarrow> 0 | STALE \<Rightarrow> 1 | INVALIDATED \<Rightarrow> 2 | OtherStatus i \<Rightarrow> i)"

definition status_of_code :: "int \<Rightarrow> cache_status" where
  "status_of_code i = (if i = 0 then FRESH else if i = 1 then STALE else if i = 2 then INVALIDATED else OtherStatus i)"

definition layer_code :: "cache_layer \<Rightarrow> int" where
  "layer_code l = (case l of L1 \<Rightarrow> 0 | L2 \<Rightarrow> 1 | L3 \<Rightarrow> 2)"

record cache_entry =
  e_key :: string
  e_agent_id :: string
  e_capability :: string
  e_input_hash :: string
  e_input_summary :: string
  e_output :: string
  e_output_summary :: string
  e_full_ref :: string
  e_confidence :: double
  e_confidence_decay :: double
  e_created_at_ms :: int
  e_base_ttl_seconds :: int
  e_status :: cache_status
  e_depends_on :: "string list"
  e_source_urls :: "string list"
  e_invalid_reason :: string
  e_access_count :: int
  e_priority :: double

definition default_entry :: cache_entry where
  "default_entry = \<lparr>e_key = [], e_agent_id = [], e_capability = [], e_input_hash = [],
     e_input_summary = [], e_output = [], e_output_summary = [], e_full_ref = [],
     e_confidence = 0, e_confidence_decay = 2 / 100, e_created_at_ms = 0, e_base_ttl_seconds = 300,
     e_status = FRESH, e_depends_on = [], e_source_urls = [], e_invalid_reason = [],
     e_access_count = 0, e_priority = 1\<rparr>"

record session_turn =
  t_call_id :: string
  t_agent_id :: string
  t_capability :: string
  t_input_summary :: string
  t_output_summary :: string
  t_cache_key :: string
  t_timestamp_ms :: int
  t_confidence :: double

record context_expand_result =
  x_call_id :: string
  x_ref :: string
  x_full_text :: string
  x_total_tokens :: nat
  x_truncated :: bool

record agent_record =
  ar_session_id :: string
  ar_agent_name :: string
  ar_capabilities :: "agent_capability list"
  ar_peer_addr :: string
  ar_registered_at_ms :: int
  ar_last_heartbeat_ms :: int
  ar_active_calls :: int
  ar_healthy :: bool

text \<open>\<open>x + base_ttl_seconds * 1000L\<close>: the last millisecond an entry is alive.\<close>

definition e_deadline :: "cache_entry \<Rightarrow> int" where
  "e_deadline e = e_created_at_ms e + e_base_ttl_seconds e * 1000"

section \<open>Eviction score\<close>

definition eviction_score :: "int \<Rightarrow> cache_entry \<Rightarrow> double" where
  "eviction_score now_ms e =
     (if e_status e = INVALIDATED then -1
      else let age_s = of_int (now_ms - e_created_at_ms e) / 1000;
               age_penalty = age_s / of_int (e_base_ttl_seconds e) in
           (e_priority e + of_int (e_access_count e) * (1 / 10)) * e_confidence e / (1 + age_penalty))"

text \<open>The eviction score orders entries as intended: an invalidated entry is below every other
  one, and of an entry with non-negative weight the score only falls with age, from its full value
  at creation.\<close>

theorem eviction_score_order:
  assumes "0 < e_base_ttl_seconds e" "0 \<le> e_confidence e" "0 \<le> e_priority e" "0 \<le> e_access_count e"
    and "e_created_at_ms e \<le> now" "now \<le> later" "e_status e \<noteq> INVALIDATED" "e_status d = INVALIDATED"
  shows "eviction_score now d < eviction_score later e \<and> eviction_score later e \<le> eviction_score now e \<and>
    eviction_score now e \<le> (e_priority e + of_int (e_access_count e) / 10) * e_confidence e"
proof -
  let ?w = "(e_priority e + of_int (e_access_count e) * (1 / 10)) * e_confidence e"
  let ?a = "\<lambda>t. 1 + of_int (t - e_created_at_ms e) / 1000 / of_int (e_base_ttl_seconds e) :: rat"
  have w: "0 \<le> ?w" using assms by simp
  have a1: "1 \<le> ?a now" using assms(1,5) by (simp add: divide_nonneg_pos)
  have a2: "?a now \<le> ?a later"
    using assms(1,6) by (intro add_left_mono divide_right_mono) auto
  have s: "eviction_score t e = ?w / ?a t" for t using assms by (simp add: eviction_score_def Let_def)
  have "0 \<le> ?w / ?a later" using w a1 a2 by (intro divide_nonneg_nonneg) auto
  moreover have "?w / ?a later \<le> ?w / ?a now" using w a1 a2 by (intro divide_left_mono) auto
  moreover have "?w / ?a now \<le> ?w / 1" using w a1 by (intro divide_left_mono) auto
  moreover have "eviction_score now d = -1" using assms(8) by (simp add: eviction_score_def)
  ultimately show ?thesis unfolding s by simp
qed

theorem eviction_score_order_witness:
  "eviction_score 5000 (default_entry\<lparr>e_status := INVALIDATED\<rparr>) <
     eviction_score 9000 (default_entry\<lparr>e_confidence := 1 / 2\<rparr>)"
  using eviction_score_order[of "default_entry\<lparr>e_confidence := 1 / 2\<rparr>" 5000 9000
      "default_entry\<lparr>e_status := INVALIDATED\<rparr>"]
  by (simp add: default_entry_def)

section \<open>JSON form\<close>

definition entry_to_json :: "'j jlib \<Rightarrow> cache_entry \<Rightarrow> 'j" where
  "entry_to_json L e = jobj L [
     (''key'', jstr L (e_key e)),
     (''agent_id'', jstr L (e_agent_id e)),
     (''capability'', jstr L (e_capability e)),
     (''input_hash'', jstr L (e_input_hash e)),
     (''input_summary'', jstr L (e_input_summary e)),
     (''output'', jstr L (e_output e)),
     (''output_summary'', jstr L (e_output_summary e)),
     (''full_ref'', jstr L (e_full_ref e)),
     (''confidence'', jnum L (e_confidence e)),
     (''confidence_decay'', jnum L (e_confidence_decay e)),
     (''created_at_ms'', jint L (e_created_at_ms e)),
     (''base_ttl_seconds'', jint L (e_base_ttl_seconds e)),
     (''status'', jint L (status_code (e_status e))),
     (''depends_on'', jstrs L (e_depends_on e)),
     (''source_urls'', jstrs L (e_source_urls e)),
     (''invalid_reason'', jstr L (e_invalid_reason e)),
     (''access_count'', jint L (e_access_count e)),
     (''priority'', jnum L (e_priority e))]"

text \<open>\<open>if (j.contains(k)) for (auto& d : j[k]) xs.push_back(d.get<std::string>())\<close>\<close>

definition json_string_items :: "'j jlib \<Rightarrow> 'j \<Rightarrow> string \<Rightarrow> string list result" where
  "json_string_items L j k =
     (if jcontains L j k then bindE (jat L j k) (\<lambda>a. mapE (jget_str L) (jelems L a)) else Inr [])"

definition entry_from_json :: "'j jlib \<Rightarrow> 'j \<Rightarrow> cache_entry result" where
  "entry_from_json L j =
     bindE (jvalue_str L j ''key'' []) (\<lambda>key.
     bindE (jvalue_str L j ''agent_id'' []) (\<lambda>agent_id.
     bindE (jvalue_str L j ''capability'' []) (\<lambda>capability.
     bindE (jvalue_str L j ''input_hash'' []) (\<lambda>input_hash.
     bindE (jvalue_str L j ''input_summary'' []) (\<lambda>input_summary.
     bindE (jvalue_str L j ''output'' []) (\<lambda>output.
     bindE (jvalue_str L j ''output_summary'' []) (\<lambda>output_summary.
     bindE (jvalue_str L j ''full_ref'' []) (\<lambda>full_ref.
     bindE (jvalue_num L j ''confidence'' 0) (\<lambda>confidence.
     bindE (jvalue_num L j ''confidence_decay'' (2 / 100)) (\<lambda>confidence_decay.
     bindE (jvalue_int64 L j ''created_at_ms'' 0) (\<lambda>created_at_ms.
     bindE (jvalue_int L j ''base_ttl_seconds'' 300) (\<lambda>base_ttl_seconds.
     bindE (jvalue_int L j ''status'' 0) (\<lambda>status.
     bindE (json_string_items L j ''depends_on'') (\<lambda>depends_on.
     bindE (json_string_items L j ''source_urls'') (\<lambda>source_urls.
     bindE (jvalue_str L j ''invalid_reason'' []) (\<lambda>invalid_reason.
     bindE (jvalue_int L j ''access_count'' 0) (\<lambda>access_count.
     bindE (jvalue_num L j ''priority'' 1) (\<lambda>priority.
       Inr \<lparr>e_key = key, e_agent_id = agent_id, e_capability = capability, e_input_hash = input_hash,
            e_input_summary = input_summary, e_output = output, e_output_summary = output_summary,
            e_full_ref = full_ref, e_confidence = confidence, e_confidence_decay = confidence_decay,
            e_created_at_ms = created_at_ms, e_base_ttl_seconds = base_ttl_seconds,
            e_status = status_of_code status, e_depends_on = depends_on, e_source_urls = source_urls,
            e_invalid_reason = invalid_reason, e_access_count = access_count, e_priority = priority\<rparr>
     ))))))))))))))))))"

definition entry_to_summary :: "'j jlib \<Rightarrow> cache_entry \<Rightarrow> 'j" where
  "entry_to_summary L e = jobj L [
     (''key'', jstr L (e_key e)), (''agent_id'', jstr L (e_agent_id e)),
     (''capability'', jstr L (e_capability e)), (''output_summary'', jstr L (e_output_summary e)),
     (''confidence'', jnum L (e_confidence e)), (''status'', jint L (status_code (e_status e)))]"

text \<open>The entries whose \<open>int\<close> fields hold 32-bit values and whose status is an enumerator or a
  32-bit code.\<close>

definition entry_in_range :: "cache_entry \<Rightarrow> bool" where
  "entry_in_range e \<longleftrightarrow> in_int32 (e_base_ttl_seconds e) \<and> in_int32 (e_access_count e) \<and>
     in_int32 (status_code (e_status e)) \<and>
     (\<forall>i. e_status e = OtherStatus i \<longrightarrow> i < 0 \<or> 2 < i)"

lemma status_of_code_code [simp]:
  "(\<And>i. s = OtherStatus i \<Longrightarrow> i < 0 \<or> 2 < i) \<Longrightarrow> status_of_code (status_code s) = s"
  by (cases s) (force simp: status_of_code_def status_code_def)+

lemma entry_roundtrip:
  assumes L: "json_laws L" and e: "entry_in_range e"
  shows "entry_from_json L (entry_to_json L e) = Inr e"
proof -
  note v = json_lawsD(3-7)[OF L]
  have items: "json_string_items L (jobj L fs) k = Inr xs" if "map_of fs k = Some (jstrs L xs)" for fs k xs
  proof -
    have "k \<in> fst ` set fs" using that by (metis domI dom_map_of_conv_image_fst)
    then show ?thesis
      using json_lawsD(1,2,8)[OF L] that mapE_map[of xs "jget_str L" "jstr L"] json_lawsD(7)[OF L]
      by (simp add: json_string_items_def jstrs_def)
  qed
  have st: "status_of_code (status_code (e_status e)) = e_status e"
    using e by (intro status_of_code_code) (auto simp: entry_in_range_def)
  have r: "int32 (e_base_ttl_seconds e) = e_base_ttl_seconds e" "int32 (e_access_count e) = e_access_count e"
      "int32 (status_code (e_status e)) = status_code (e_status e)"
    using e by (simp_all add: entry_in_range_def)
  show ?thesis
    unfolding entry_from_json_def entry_to_json_def
    by (simp add: v items st r)
qed

end
