(* ===== verification/Session_Buffer.thy ===== *)
theory Session_Buffer
  imports Agent_Types
begin

text \<open>
  \<open>gw::SessionBuffer\<close> (\<open>include/agent_cache.h\<close>, \<open>src/agent_cache.cpp\<close>): the turns of one session,
  oldest first, pruned by count and by an estimate of their tokens, and the context text built from
  the latest ones within a token budget. \<open>size_t\<close> sums of string sizes are natural numbers; the one
  product of a caller's number, \<open>max_tokens * 4\<close>, is taken in 64 bits.
\<close>

section \<open>Model\<close>

record session_buffer =
  sb_session_id :: string
  sb_turns :: "session_turn list"

definition kMaxTurns :: nat where "kMaxTurns = 50"
definition kMaxTotalTokens :: nat where "kMaxTotalTokens = 50000"

definition sb_new :: "string \<Rightarrow> session_buffer" where
  "sb_new session_id = \<lparr>sb_session_id = session_id, sb_turns = []\<rparr>"

fun estimated_loop :: "session_turn list \<Rightarrow> nat \<Rightarrow> nat" where
  "estimated_loop [] tot = tot"
| "estimated_loop (t # ts) tot =
     estimated_loop ts (tot + ((length (t_input_summary t) + length (t_output_summary t)) div 4 + 10))"

definition estimated_tokens :: "session_turn list \<Rightarrow> nat" where
  "estimated_tokens ts = estimated_loop ts 0"

text \<open>The two \<open>while\<close> loops of \<open>prune\<close>; each iteration is a \<open>pop_front\<close>.\<close>

fun prune_count :: "session_turn list \<Rightarrow> session_turn list" where
  "prune_count [] = []"
| "prune_count (t # ts) = (if length (t # ts) > kMaxTurns then prune_count ts else t # ts)"

fun prune_tokens :: "session_turn list \<Rightarrow> session_turn list" where
  "prune_tokens [] = []"
| "prune_tokens (t # ts) =
     (if estimated_tokens (t # ts) > kMaxTotalTokens \<and> length (t # ts) > 3 then prune_tokens ts else t # ts)"

definition sb_prune :: "session_buffer \<Rightarrow> session_buffer" where
  "sb_prune sb = sb\<lparr>sb_turns := prune_tokens (prune_count (sb_turns sb))\<rparr>"

definition sb_append :: "session_turn \<Rightarrow> session_buffer \<Rightarrow> session_buffer" where
  "sb_append turn sb = sb_prune (sb\<lparr>sb_turns := sb_turns sb @ [turn]\<rparr>)"

text \<open>\<open>recent\<close> walks the turns from the back; the bound is tested after each hit.\<close>

fun recent_loop :: "string \<Rightarrow> int \<Rightarrow> session_turn list \<Rightarrow> session_turn list \<Rightarrow> session_turn list" where
  "recent_loop capability n [] result = result"
| "recent_loop capability n (t # ts) result =
     (if t_capability t = capability
      then (if int (length (result @ [t])) \<ge> n then result @ [t]
            else recent_loop capability n ts (result @ [t]))
      else recent_loop capability n ts result)"

definition sb_recent :: "string \<Rightarrow> int \<Rightarrow> session_buffer \<Rightarrow> session_turn list" where
  "sb_recent capability n sb = recent_loop capability n (rev (sb_turns sb)) []"

text \<open>\<open>turns_.size() > (size_t)n\<close>: a negative \<open>n\<close> is a huge \<open>size_t\<close>.\<close>

definition sb_recent_all :: "int \<Rightarrow> session_buffer \<Rightarrow> session_turn list" where
  "sb_recent_all n sb =
     (if length (sb_turns sb) > unat (of_int n :: u64)
      then drop (length (sb_turns sb) - nat n) (sb_turns sb) else sb_turns sb)"

text \<open>The UTF-8 bytes of the arrow in the source's string literal, with the spaces around it.\<close>

definition arrow :: string where
  "arrow = [CHR 0x20, CHR 0xE2, CHR 0x86, CHR 0x92, CHR 0x20]"

definition same_cap_line :: "session_turn \<Rightarrow> string" where
  "same_cap_line t = ''[Agent '' @ t_agent_id t @ arrow @ t_capability t @ ''] '' @ t_output_summary t @ [CHR 0x0A]"

definition other_line :: "session_turn \<Rightarrow> string" where
  "other_line t = ''[Agent '' @ t_agent_id t @ ''] '' @ t_output_summary t @ [CHR 0x0A]"

fun add_same_cap :: "nat \<Rightarrow> session_turn list \<Rightarrow> string \<Rightarrow> string" where
  "add_same_cap budget [] ctx = ctx"
| "add_same_cap budget (t # ts) ctx =
     (if length ctx + length (same_cap_line t) > budget then ctx
      else add_same_cap budget ts (ctx @ same_cap_line t))"

fun add_others :: "nat \<Rightarrow> string \<Rightarrow> session_turn list \<Rightarrow> string \<Rightarrow> string" where
  "add_others budget capability [] ctx = ctx"
| "add_others budget capability (t # ts) ctx =
     (if t_capability t = capability then add_others budget capability ts ctx
      else if length ctx + length (other_line t) > budget then ctx
      else add_others budget capability ts (ctx @ other_line t))"

definition build_context_for :: "string \<Rightarrow> u64 \<Rightarrow> session_buffer \<Rightarrow> string" where
  "build_context_for capability max_tokens sb =
     (let budget = unat (max_tokens * 4);
          ctx = add_same_cap budget (sb_recent capability 3 sb) [] in
      add_others budget capability (sb_recent_all 5 sb) ctx)"

definition turn_to_json :: "'j jlib \<Rightarrow> session_turn \<Rightarrow> 'j" where
  "turn_to_json L t = jobj L [
     (''call_id'', jstr L (t_call_id t)), (''agent_id'', jstr L (t_agent_id t)),
     (''capability'', jstr L (t_capability t)), (''input_summary'', jstr L (t_input_summary t)),
     (''output_summary'', jstr L (t_output_summary t)), (''cache_key'', jstr L (t_cache_key t)),
     (''timestamp_ms'', jint L (t_timestamp_ms t)), (''confidence'', jnum L (t_confidence t))]"

definition sb_to_json :: "'j jlib \<Rightarrow> session_buffer \<Rightarrow> 'j" where
  "sb_to_json L sb = jobj L [(''session_id'', jstr L (sb_session_id sb)),
     (''turns'', jarr L (map (turn_to_json L) (sb_turns sb)))]"

section \<open>Pruning\<close>

text \<open>What \<open>prune\<close> aims at: at most 50 turns, and within the token limit unless at most three are left.\<close>

definition buffer_fits :: "session_turn list \<Rightarrow> bool" where
  "buffer_fits ts \<longleftrightarrow> length ts \<le> kMaxTurns \<and> (estimated_tokens ts \<le> kMaxTotalTokens \<or> length ts \<le> 3)"

lemma prune_count_drop:
  "\<exists>k. prune_count ts = drop k ts \<and> length (prune_count ts) \<le> kMaxTurns \<and>
     (\<forall>j < k. kMaxTurns < length (drop j ts))"
proof (induction ts)
  case (Cons t ts)
  show ?case
  proof (cases "length (t # ts) > kMaxTurns")
    case True
    obtain k where k: "prune_count ts = drop k ts" "length (prune_count ts) \<le> kMaxTurns"
      "\<forall>j < k. kMaxTurns < length (drop j ts)" using Cons by blast
    have "kMaxTurns < length (drop j (t # ts))" if "j < Suc k" for j
      using that True k(3) by (cases j) auto
    then show ?thesis using True k(1,2) by (intro exI[of _ "Suc k"]) auto
  qed (auto intro: exI[of _ 0])
next
  case Nil
  then show ?case by (intro exI[of _ 0]) (simp add: kMaxTurns_def)
qed

lemma prune_tokens_drop:
  "length ts \<le> kMaxTurns \<Longrightarrow> \<exists>k. prune_tokens ts = drop k ts \<and> buffer_fits (drop k ts) \<and>
     (\<forall>j < k. \<not> buffer_fits (drop j ts))"
proof (induction ts)
  case Nil
  then show ?case by (intro exI[of _ 0]) (simp add: buffer_fits_def)
next
  case (Cons t ts)
  show ?case
  proof (cases "estimated_tokens (t # ts) > kMaxTotalTokens \<and> length (t # ts) > 3")
    case True
    obtain k where k: "prune_tokens ts = drop k ts" "buffer_fits (drop k ts)"
      "\<forall>j < k. \<not> buffer_fits (drop j ts)" using Cons by auto
    have "\<not> buffer_fits (drop j (t # ts))" if "j < Suc k" for j
      using that True k(3) by (cases j) (auto simp: buffer_fits_def)
    then show ?thesis using True k(1,2) by (intro exI[of _ "Suc k"]) auto
  next
    case False
    then have "buffer_fits (t # ts)" using Cons.prems unfolding buffer_fits_def by linarith
    then show ?thesis using False by (intro exI[of _ 0]) auto
  qed
qed

lemma sb_append_turns: "sb_turns (sb_append t sb) = prune_tokens (prune_count (sb_turns sb @ [t]))"
  by (simp add: sb_append_def sb_prune_def)

lemma prune_drop:
  "\<exists>k. prune_tokens (prune_count ts) = drop k ts \<and> buffer_fits (drop k ts) \<and>
     (\<forall>j < k. \<not> buffer_fits (drop j ts))"
proof -
  obtain i where i: "prune_count ts = drop i ts" "length (prune_count ts) \<le> kMaxTurns"
    "\<forall>j < i. kMaxTurns < length (drop j ts)" using prune_count_drop by blast
  obtain k where k: "prune_tokens (prune_count ts) = drop k (prune_count ts)"
    "buffer_fits (drop k (prune_count ts))" "\<forall>j < k. \<not> buffer_fits (drop j (prune_count ts))"
    using prune_tokens_drop[OF i(2)] by blast
  have "\<not> buffer_fits (drop j ts)" if "j < k + i" for j
  proof (cases "j < i")
    case True
    then show ?thesis using i(3) unfolding buffer_fits_def by fastforce
  next
    case False
    then show ?thesis using k(3) that i(1) by (metis add.commute drop_drop less_diff_conv2 not_less ordered_cancel_comm_monoid_diff_class.diff_add)
  qed
  then show ?thesis using k(1,2) i(1) by (intro exI[of _ "k + i"]) simp
qed

text \<open>Appending a turn keeps the buffer within its limits and drops no more than that needs:
  the new turns are the old ones and the new one without the least number of oldest turns such that at
  most 50 remain and their estimate is within 50000 tokens or at most three remain. The newest turn is
  never dropped.\<close>

theorem session_append_prunes:
  "\<exists>k. sb_turns (sb_append t sb) = drop k (sb_turns sb @ [t]) \<and> buffer_fits (sb_turns (sb_append t sb)) \<and>
     (\<forall>j < k. \<not> buffer_fits (drop j (sb_turns sb @ [t]))) \<and> last (sb_turns (sb_append t sb)) = t \<and>
     sb_session_id (sb_append t sb) = sb_session_id sb"
proof -
  obtain k where k: "sb_turns (sb_append t sb) = drop k (sb_turns sb @ [t])"
    "buffer_fits (drop k (sb_turns sb @ [t]))" "\<forall>j < k. \<not> buffer_fits (drop j (sb_turns sb @ [t]))"
    using prune_drop[of "sb_turns sb @ [t]"] unfolding sb_append_turns by blast
  have "k \<le> length (sb_turns sb)"
  proof (rule ccontr)
    assume "\<not> k \<le> length (sb_turns sb)"
    then have "\<not> buffer_fits (drop (length (sb_turns sb)) (sb_turns sb @ [t]))" using k(3) not_le by blast
    then show False by (simp add: buffer_fits_def kMaxTurns_def)
  qed
  then have "last (sb_turns (sb_append t sb)) = t" using k(1) by simp
  moreover have "sb_session_id (sb_append t sb) = sb_session_id sb"
    by (simp add: sb_append_def sb_prune_def)
  ultimately show ?thesis using k by auto
qed

definition demo_turn :: "string \<Rightarrow> string \<Rightarrow> string \<Rightarrow> session_turn" where
  "demo_turn cap agent out = \<lparr>t_call_id = [], t_agent_id = agent, t_capability = cap, t_input_summary = [],
     t_output_summary = out, t_cache_key = [], t_timestamp_ms = 0, t_confidence = 1\<rparr>"

theorem session_append_prunes_witness:
  "\<exists>k. sb_turns (sb_append (demo_turn ''c'' ''a'' ''x'') (sb_new ''s'')) = drop k [demo_turn ''c'' ''a'' ''x''] \<and>
     last (sb_turns (sb_append (demo_turn ''c'' ''a'' ''x'') (sb_new ''s''))) = demo_turn ''c'' ''a'' ''x''"
  using session_append_prunes[of "demo_turn ''c'' ''a'' ''x''" "sb_new ''s''"] by (auto simp: sb_new_def)

section \<open>The latest turns\<close>

lemma recent_loop_take:
  assumes "length acc < max 1 (nat n)"
  shows "recent_loop c n ts acc = acc @ take (max 1 (nat n) - length acc) (filter (\<lambda>t. t_capability t = c) ts)"
  using assms
proof (induction ts arbitrary: acc)
  case (Cons t ts)
  show ?case
  proof (cases "t_capability t = c")
    case True
    show ?thesis
    proof (cases "int (length (acc @ [t])) \<ge> n")
      case ge: True
      then have "max 1 (nat n) - length acc = 1" using Cons.prems by auto
      then show ?thesis using True ge by simp
    next
      case lt: False
      then have l: "length (acc @ [t]) < max 1 (nat n)" by auto
      then have "max 1 (nat n) - length acc = Suc (max 1 (nat n) - length (acc @ [t]))" by auto
      then show ?thesis using True lt Cons.IH[OF l] by simp
    qed
  next
    case False
    then show ?thesis using Cons by simp
  qed
qed simp

lemma sb_recent_eq:
  "sb_recent c n sb = take (max 1 (nat n)) (filter (\<lambda>t. t_capability t = c) (rev (sb_turns sb)))"
  using recent_loop_take[of "[]"] by (simp add: sb_recent_def)

lemma add_same_cap_prefix:
  "length ctx \<le> b \<Longrightarrow> \<exists>i \<le> length ts. add_same_cap b ts ctx = ctx @ concat (map same_cap_line (take i ts)) \<and>
     length (add_same_cap b ts ctx) \<le> b \<and>
     (i < length ts \<longrightarrow> b < length (add_same_cap b ts ctx) + length (same_cap_line (ts ! i)))"
proof (induction ts arbitrary: ctx)
  case (Cons t ts)
  show ?case
  proof (cases "length ctx + length (same_cap_line t) > b")
    case True
    then show ?thesis using Cons.prems by (intro exI[of _ 0]) auto
  next
    case False
    then have "length (ctx @ same_cap_line t) \<le> b" by simp
    from Cons.IH[OF this] obtain i where "i \<le> length ts"
      "add_same_cap b ts (ctx @ same_cap_line t) = (ctx @ same_cap_line t) @ concat (map same_cap_line (take i ts))"
      "length (add_same_cap b ts (ctx @ same_cap_line t)) \<le> b"
      "i < length ts \<longrightarrow> b < length (add_same_cap b ts (ctx @ same_cap_line t)) + length (same_cap_line (ts ! i))"
      by blast
    then show ?thesis using False by (intro exI[of _ "Suc i"]) auto
  qed
qed simp

lemma add_others_filter:
  "add_others b c ts ctx = add_others b c (filter (\<lambda>t. t_capability t \<noteq> c) ts) ctx"
  by (induction ts arbitrary: ctx) auto

lemma add_others_prefix:
  "length ctx \<le> b \<Longrightarrow> \<forall>t \<in> set ts. t_capability t \<noteq> c \<Longrightarrow>
     \<exists>i \<le> length ts. add_others b c ts ctx = ctx @ concat (map other_line (take i ts)) \<and>
     length (add_others b c ts ctx) \<le> b \<and>
     (i < length ts \<longrightarrow> b < length (add_others b c ts ctx) + length (other_line (ts ! i)))"
proof (induction ts arbitrary: ctx)
  case (Cons t ts)
  show ?case
  proof (cases "length ctx + length (other_line t) > b")
    case True
    then show ?thesis using Cons.prems by (intro exI[of _ 0]) auto
  next
    case False
    then have "length (ctx @ other_line t) \<le> b" "\<forall>t \<in> set ts. t_capability t \<noteq> c"
      using Cons.prems(2) by auto
    from Cons.IH[OF this] obtain i where "i \<le> length ts"
      "add_others b c ts (ctx @ other_line t) = (ctx @ other_line t) @ concat (map other_line (take i ts))"
      "length (add_others b c ts (ctx @ other_line t)) \<le> b"
      "i < length ts \<longrightarrow> b < length (add_others b c ts (ctx @ other_line t)) + length (other_line (ts ! i))"
      by blast
    then show ?thesis using False Cons.prems(2) by (intro exI[of _ "Suc i"]) auto
  qed
qed simp

text \<open>The turns the context is built from: the three latest of the capability, newest first, and those
  of the five latest that are of another one, oldest first.\<close>

definition ctx_same :: "string \<Rightarrow> session_buffer \<Rightarrow> session_turn list" where
  "ctx_same c sb = take 3 (filter (\<lambda>t. t_capability t = c) (rev (sb_turns sb)))"

definition ctx_others :: "string \<Rightarrow> session_buffer \<Rightarrow> session_turn list" where
  "ctx_others c sb = filter (\<lambda>t. t_capability t \<noteq> c) (drop (length (sb_turns sb) - 5) (sb_turns sb))"

lemma sb_recent_all_5: "sb_recent_all 5 sb = drop (length (sb_turns sb) - 5) (sb_turns sb)"
  by (simp add: sb_recent_all_def)

text \<open>C32. The context for a downstream agent respects its budget and uses it greedily: it is the
  longest prefix that fits of the lines of the three latest turns of the capability, then the longest
  prefix that fits of the lines of the other turns among the five latest. The budget is four bytes a
  token, and the text is within it for every request whose product does not wrap.\<close>

theorem build_context_budget:
  assumes "unat max_tokens < 2 ^ 62"
  shows "\<exists>i j. build_context_for c max_tokens sb =
      concat (map same_cap_line (take i (ctx_same c sb))) @ concat (map other_line (take j (ctx_others c sb))) \<and>
    length (build_context_for c max_tokens sb) \<le> 4 * unat max_tokens \<and>
    (i < length (ctx_same c sb) \<longrightarrow>
       4 * unat max_tokens < length (concat (map same_cap_line (take (Suc i) (ctx_same c sb))))) \<and>
    (j < length (ctx_others c sb) \<longrightarrow>
       4 * unat max_tokens < length (build_context_for c max_tokens sb) + length (other_line (ctx_others c sb ! j)))"
proof -
  have b: "unat (max_tokens * 4) = 4 * unat max_tokens"
    using assms by (simp add: unat_word_ariths)
  let ?b = "4 * unat max_tokens" and ?S = "ctx_same c sb" and ?O = "ctx_others c sb"
  have same: "sb_recent c 3 sb = ?S" by (simp add: sb_recent_eq ctx_same_def)
  define ctx where "ctx = add_same_cap ?b ?S []"
  obtain i where i: "i \<le> length ?S" "ctx = concat (map same_cap_line (take i ?S))" "length ctx \<le> ?b"
    "i < length ?S \<longrightarrow> ?b < length ctx + length (same_cap_line (?S ! i))"
    using add_same_cap_prefix[of "[]" ?b ?S] unfolding ctx_def by (metis append_Nil list.size(3) le0)
  have "\<forall>t \<in> set ?O. t_capability t \<noteq> c" by (simp add: ctx_others_def)
  then obtain j where j: "add_others ?b c ?O ctx = ctx @ concat (map other_line (take j ?O))"
    "length (add_others ?b c ?O ctx) \<le> ?b"
    "j < length ?O \<longrightarrow> ?b < length (add_others ?b c ?O ctx) + length (other_line (?O ! j))"
    using add_others_prefix[OF i(3), of ?O c] by blast
  have bc: "build_context_for c max_tokens sb = add_others ?b c ?O ctx"
    using add_others_filter[of ?b c "sb_recent_all 5 sb"]
    by (simp add: build_context_for_def Let_def b same ctx_def sb_recent_all_5 ctx_others_def)
  have "?b < length (concat (map same_cap_line (take (Suc i) ?S)))" if "i < length ?S"
    using i(2,4) that by (simp add: take_Suc_conv_app_nth)
  then show ?thesis unfolding bc using i j by blast
qed

theorem build_context_budget_witness:
  "length (build_context_for ''c'' 1000 (sb_append (demo_turn ''c'' ''a'' ''x'') (sb_new ''s''))) \<le> 4000"
  using build_context_budget[of 1000 "''c''" "sb_append (demo_turn ''c'' ''a'' ''x'') (sb_new ''s'')"] by auto

end
