(* ===== verification/L1_Cache.thy ===== *)
theory L1_Cache
  imports Cache_Store Agent_Types
begin

text \<open>
  \<open>gw::L1CacheStore\<close> (\<open>src/agent_cache.cpp\<close>): the in-process cache of agent results, an LRU list of
  cache entries with a capacity that can be changed. It shares its list with iterators, and the store
  interface, with \<open>CacheStore\<close>.
\<close>

section \<open>Model\<close>

record l1_cache =
  l1_lru :: "cache_entry lru"
  l1_max_size :: nat

definition l1_init :: l1_cache where
  "l1_init = \<lparr>l1_lru = lru_empty, l1_max_size = 4096\<rparr>"

text \<open>\<open>now\<close> is the reading of \<open>steady_clock\<close> that \<open>get\<close> compares with the entry's system time.\<close>

definition l1_get :: "int \<Rightarrow> string \<Rightarrow> l1_cache \<Rightarrow> (cache_entry option \<times> l1_cache) result" where
  "l1_get now key c =
     (case um_find (lru_map (l1_lru c)) key of
        None \<Rightarrow> Inr (None, c)
      | Some it \<Rightarrow>
          (case lru_deref (l1_lru c) it of
             None \<Rightarrow> Inl UB
           | Some (_, e) \<Rightarrow>
               if now > e_deadline e then Inr (None, c\<lparr>l1_lru := lru_erase it key (l1_lru c)\<rparr>)
               else let e' = e\<lparr>e_access_count := e_access_count e + 1\<rparr> in
                    Inr (Some e', c\<lparr>l1_lru := lru_splice_front it (lru_modify it (\<lambda>_. e') (l1_lru c))\<rparr>)))"

text \<open>\<open>while (lru_.size() >= n) { map_.erase(lru_.back().key); lru_.pop_back(); }\<close>\<close>

lemma lru_pop_back_shorter:
  "lru_pop_back l = Inr l' \<Longrightarrow> length (lru_list l') < length (lru_list l)"
proof -
  assume r: "lru_pop_back l = Inr l'"
  then have "lru_list l \<noteq> []" by (auto simp: lru_pop_back_def)
  then have "0 < length (lru_list l)" by simp
  then show ?thesis using r by (auto simp: lru_pop_back_def split: list.splits)
qed

function lru_evict :: "nat \<Rightarrow> 'a lru \<Rightarrow> 'a lru result" where
  "lru_evict n l =
     (if length (lru_list l) \<ge> n
      then (case lru_pop_back l of Inl e \<Rightarrow> Inl e | Inr l' \<Rightarrow> lru_evict n l')
      else Inr l)"
  by auto
termination
  by (relation "measure (\<lambda>(n, l). length (lru_list l))") (auto dest: lru_pop_back_shorter)

declare lru_evict.simps [simp del]

definition l1_set :: "string \<Rightarrow> cache_entry \<Rightarrow> l1_cache \<Rightarrow> l1_cache result" where
  "l1_set key e c =
     (let l = l1_lru c in
      case um_find (lru_map l) key of
        Some it \<Rightarrow>
          (case lru_deref l it of
             None \<Rightarrow> Inl UB
           | Some _ \<Rightarrow> Inr (c\<lparr>l1_lru := lru_splice_front it (lru_modify it (\<lambda>_. e) l)\<rparr>))
      | None \<Rightarrow>
          bindE (lru_evict (l1_max_size c) l) (\<lambda>l. Inr (c\<lparr>l1_lru := lru_push_front key e l\<rparr>)))"

definition l1_invalidate :: "string \<Rightarrow> l1_cache \<Rightarrow> l1_cache" where
  "l1_invalidate key c =
     (case um_find (lru_map (l1_lru c)) key of
        None \<Rightarrow> c
      | Some it \<Rightarrow> c\<lparr>l1_lru := lru_erase it key (l1_lru c)\<rparr>)"

definition l1_size :: "l1_cache \<Rightarrow> nat" where
  "l1_size c = length (lru_map (l1_lru c))"

definition l1_clear :: "l1_cache \<Rightarrow> l1_cache" where
  "l1_clear c = c\<lparr>l1_lru := (l1_lru c)\<lparr>lru_list := [], lru_map := []\<rparr>\<rparr>"

text \<open>\<open>while (lru_.size() > max_size_)\<close> is the eviction down to \<open>max_size_ + 1\<close> exclusive.\<close>

definition l1_set_max_size :: "nat \<Rightarrow> l1_cache \<Rightarrow> l1_cache result" where
  "l1_set_max_size sz c =
     bindE (lru_evict (Suc sz) (l1_lru c)) (\<lambda>l. Inr (c\<lparr>l1_max_size := sz, l1_lru := l\<rparr>))"

section \<open>Correctness\<close>

definition l1_ok :: "l1_cache \<Rightarrow> bool" where
  "l1_ok c \<longleftrightarrow> lru_ok (l1_lru c) \<and> 0 < l1_max_size c \<and> length (lru_list (l1_lru c)) \<le> l1_max_size c"

definition l1_view :: "l1_cache \<Rightarrow> (string \<times> cache_entry) list" where
  "l1_view c = lru_view (l1_lru c)"

lemma l1_ok_init [simp]: "l1_ok l1_init"
  by (simp add: l1_ok_def l1_init_def) (simp add: lru_empty_def)

lemma l1_view_init [simp]: "l1_view l1_init = []"
  by (simp add: l1_view_def l1_init_def)

lemma l1_max_size_invalidate [simp]: "l1_max_size (l1_invalidate k c) = l1_max_size c"
  by (simp add: l1_invalidate_def split: option.split)

lemma l1_max_size_init [simp]: "l1_max_size l1_init = 4096"
  by (simp add: l1_init_def)

lemma take_butlast_Suc: "n \<le> length xs \<Longrightarrow> 0 < length xs \<Longrightarrow> take (n - 1) (butlast xs) = take (n - 1) xs"
  by (simp add: butlast_conv_take min_def)

lemma lru_evict_view:
  assumes "lru_ok l" "0 < n"
  shows "\<exists>l'. lru_evict n l = Inr l' \<and> lru_ok l' \<and> lru_view l' = take (n - 1) (lru_view l) \<and>
    length (lru_list l') < n \<and> (\<forall>k. um_find (lru_map l) k = None \<longrightarrow> um_find (lru_map l') k = None)"
  using assms
proof (induction n l rule: lru_evict.induct)
  case (1 n l)
  show ?case
  proof (cases "length (lru_list l) \<ge> n")
    case True
    then have "lru_list l \<noteq> []" using 1(3) by auto
    then obtain l1 where l1: "lru_pop_back l = Inr l1" "lru_ok l1" "lru_view l1 = butlast (lru_view l)"
        "\<And>k. um_find (lru_map l) k = None \<Longrightarrow> um_find (lru_map l1) k = None"
      by (rule lru_pop_back_ok[OF 1(2)]) blast
    obtain l2 where l2: "lru_evict n l1 = Inr l2" "lru_ok l2" "lru_view l2 = take (n - 1) (lru_view l1)"
        "length (lru_list l2) < n" "\<forall>k. um_find (lru_map l1) k = None \<longrightarrow> um_find (lru_map l2) k = None"
      using 1(1)[OF True l1(1) l1(2) 1(3)] by blast
    have "take (n - 1) (butlast (lru_view l)) = take (n - 1) (lru_view l)"
      using True 1(3) \<open>lru_list l \<noteq> []\<close> by (intro take_butlast_Suc) (simp_all add: lru_view_def)
    then show ?thesis
      using True l1 l2 by (subst lru_evict.simps) simp
  next
    case False
    then show ?thesis using 1(2) by (subst lru_evict.simps) (simp add: lru_view_def)
  qed
qed

lemma l1_set_correct:
  assumes ok: "l1_ok c"
  shows "\<exists>c'. l1_set k e c = Inr c' \<and> l1_ok c' \<and> l1_max_size c' = l1_max_size c \<and>
    l1_view c' = spec_put (l1_max_size c) k e (l1_view c)"
proof -
  let ?l = "l1_lru c" and ?n = "l1_max_size c"
  have l: "lru_ok ?l" "0 < ?n" "length (lru_list ?l) \<le> ?n" using ok by (auto simp: l1_ok_def)
  show ?thesis
  proof (cases "um_find (lru_map ?l) k")
    case (Some i)
    then obtain w where "lru_deref ?l i = Some (k, w)" using lru_map_Some[OF l(1)] by blast
    then show ?thesis
      using Some lru_overwrite[OF l(1) Some l(3), of e] l(2)
      by (simp add: l1_set_def Let_def l1_ok_def l1_view_def)
  next
    case None
    obtain l' where l': "lru_evict ?n ?l = Inr l'" "lru_ok l'" "lru_view l' = take (?n - 1) (lru_view ?l)"
        "length (lru_list l') < ?n" "um_find (lru_map l') k = None"
      using lru_evict_view[OF l(1,2)] None by blast
    have "(k, e) # take (?n - 1) (lru_view ?l) = spec_put ?n k e (lru_view ?l)"
      using delete_absent[OF None l(1)] l(2) by (cases ?n) (simp_all add: spec_put_def)
    then show ?thesis
      using None l' l(2) lru_insert[OF l'(2,5,4), of e] by (simp add: l1_set_def Let_def l1_ok_def l1_view_def)
  qed
qed

definition spec_l1_get ::
  "int \<Rightarrow> string \<Rightarrow> (string \<times> cache_entry) list \<Rightarrow> cache_entry option \<times> (string \<times> cache_entry) list" where
  "spec_l1_get now k m =
     (case map_of m k of
        None \<Rightarrow> (None, m)
      | Some e \<Rightarrow>
          if now > e_deadline e then (None, AList.delete k m)
          else let e' = e\<lparr>e_access_count := e_access_count e + 1\<rparr> in (Some e', (k, e') # AList.delete k m))"

lemma delete_length_take: "length m \<le> n \<Longrightarrow> map_of m k = Some e \<Longrightarrow>
    spec_put n k e' m = (k, e') # AList.delete k m"
proof -
  assume n: "length m \<le> n" and k: "map_of m k = Some e"
  have "length (AList.delete k m) < length m"
    using k by (induction m) (auto simp: AList_delete_filter le_imp_less_Suc split: if_splits)
  then show ?thesis using n by (simp add: spec_put_def)
qed

lemma l1_get_correct:
  assumes ok: "l1_ok c"
  shows "\<exists>c'. l1_get now k c = Inr (fst (spec_l1_get now k (l1_view c)), c') \<and> l1_ok c' \<and>
    l1_max_size c' = l1_max_size c \<and> l1_view c' = snd (spec_l1_get now k (l1_view c))"
proof (cases "um_find (lru_map (l1_lru c)) k")
  case None
  then have "map_of (l1_view c) k = None" using ok lru_map_None by (auto simp: l1_ok_def l1_view_def)
  then show ?thesis using None ok by (simp add: l1_get_def spec_l1_get_def)
next
  case (Some i)
  have l: "lru_ok (l1_lru c)" "length (lru_list (l1_lru c)) \<le> l1_max_size c" using ok by (auto simp: l1_ok_def)
  obtain e where e: "lru_deref (l1_lru c) i = Some (k, e)" "map_of (lru_view (l1_lru c)) k = Some e"
    by (rule lru_map_Some[OF l(1) Some])
  let ?e = "e\<lparr>e_access_count := e_access_count e + 1\<rparr>"
  have len: "length (lru_list (lru_erase i k (l1_lru c))) \<le> l1_max_size c"
    using l(2) by (auto simp: lru_erase_def AList_delete_filter intro: order_trans[OF length_filter_le])
  have "length (lru_view (l1_lru c)) \<le> l1_max_size c" using l(2) by (simp add: lru_view_def)
  then have put: "spec_put (l1_max_size c) k ?e (lru_view (l1_lru c)) = (k, ?e) # AList.delete k (lru_view (l1_lru c))"
    by (rule delete_length_take[OF _ e(2)])
  show ?thesis
  proof (cases "now > e_deadline e")
    case True
    then show ?thesis
      using ok Some e len lru_ok_erase[OF l(1) Some] lru_view_erase[OF l(1) Some]
      by (simp add: l1_get_def spec_l1_get_def l1_view_def l1_ok_def)
  next
    case False
    then show ?thesis
      using ok Some e lru_overwrite[OF l(1) Some l(2), of ?e] put
      by (simp add: l1_get_def spec_l1_get_def l1_view_def l1_ok_def Let_def)
  qed
qed

lemma l1_invalidate_correct:
  assumes ok: "l1_ok c"
  shows "l1_ok (l1_invalidate k c) \<and> l1_view (l1_invalidate k c) = AList.delete k (l1_view c)"
proof (cases "um_find (lru_map (l1_lru c)) k")
  case None
  then show ?thesis
    using ok delete_absent[OF None] by (simp add: l1_invalidate_def l1_ok_def l1_view_def)
next
  case (Some i)
  have l: "lru_ok (l1_lru c)" "length (lru_list (l1_lru c)) \<le> l1_max_size c" using ok by (auto simp: l1_ok_def)
  have "length (lru_list (lru_erase i k (l1_lru c))) \<le> l1_max_size c"
    using l(2) by (auto simp: lru_erase_def AList_delete_filter intro: order_trans[OF length_filter_le])
  then show ?thesis
    using ok Some lru_ok_erase[OF l(1) Some] lru_view_erase[OF l(1) Some]
    by (simp add: l1_invalidate_def l1_ok_def l1_view_def)
qed

lemma l1_set_max_size_correct:
  assumes "l1_ok c" "0 < sz"
  shows "\<exists>c'. l1_set_max_size sz c = Inr c' \<and> l1_ok c' \<and> l1_max_size c' = sz \<and>
    l1_view c' = take sz (l1_view c)"
  using lru_evict_view[of "l1_lru c" "Suc sz"] assms
  by (auto simp: l1_set_max_size_def l1_ok_def l1_view_def)

lemma l1_find_view: "l1_ok c \<Longrightarrow> map_of (l1_view (l1_invalidate k c)) j = (if j = k then None else map_of (l1_view c) j)"
  using l1_invalidate_correct by (simp add: delete_conv')

interpretation l1: lru_store l1_ok l1_view l1_max_size "\<lambda>p. l1_set (fst p) (snd p)"
proof (unfold_locales, goal_cases)
  case (1 s)
  then show ?case using lru_view_distinct by (auto simp: l1_ok_def l1_view_def lru_view_def)
next
  case (2 s p)
  then show ?case using l1_set_correct[OF 2(1), of "fst p" "snd p"] by (simp add: spec_put_def)
qed



text \<open>Agent results survive in L1 by recency: an entry that has been written is still cached after
  any writes under fewer distinct other keys than the capacity.\<close>

theorem l1_survives:
  assumes "l1_ok c" "k \<notin> fst ` set ps" "card (fst ` set ps) < l1_max_size c"
  shows "\<exists>c'. foldE (\<lambda>p. l1_set (fst p) (snd p)) ((k, e) # ps) c = Inr c' \<and> l1_ok c' \<and>
    map_of (l1_view c') k = Some e"
  using l1.puts_survive[OF assms(1) _ assms(2,3)] assms(1) by (simp add: l1_ok_def)

theorem l1_survives_witness:
  "\<exists>c'. foldE (\<lambda>p. l1_set (fst p) (snd p)) [(''a'', default_entry), (''b'', default_entry)] l1_init = Inr c' \<and>
     map_of (l1_view c') ''a'' = Some default_entry"
  using l1_survives[OF l1_ok_init, of "''a''" "[(''b'', default_entry)]" default_entry]
  by (simp del: foldE.simps) blast

end
