(* ===== verification/L2_Cache.thy ===== *)
theory L2_Cache
  imports Agent_Types
begin

text \<open>
  \<open>gw::L2PersistentCache\<close> (\<open>src/agent_cache.cpp\<close>): the cache of agent results that is written to disk
  after every change. Its state is the map of entries, the reverse index from a key to the keys that
  depend on it, and the two file names; the file system is a map from paths to contents that every
  operation threads through. \<open>dump\<close> can throw in the middle of a save, so an operation returns the
  exception, if any, with the state it leaves. The recursion of the cascade is written with its call
  stack as an argument.
\<close>

section \<open>State\<close>

type_synonym fs = "string \<Rightarrow> string option"

text \<open>Opening a file with an empty name fails, and the stream ignores what is written.\<close>

definition fs_write :: "string \<Rightarrow> string \<Rightarrow> fs \<Rightarrow> fs" where
  "fs_write path content fs = (if path = [] then fs else fs(path \<mapsto> content))"

record l2_cache =
  l2_data_file :: string
  l2_revidx_file :: string
  l2_entries :: "(string, cache_entry) umap"
  l2_dep_rev :: "(string, string list) umap"

definition l2_new :: l2_cache where
  "l2_new = \<lparr>l2_data_file = [], l2_revidx_file = [], l2_entries = [], l2_dep_rev = []\<rparr>"

definition kConfidenceFresh :: double where "kConfidenceFresh = 7 / 10"
definition kConfidenceStale :: double where "kConfidenceStale = 3 / 10"

text \<open>What \<open>std::pow\<close> and \<open>std::to_string(double)\<close> compute is a parameter: neither is a function of
  the rationals.\<close>

record libm =
  lm_pow :: "double \<Rightarrow> double \<Rightarrow> double"
  lm_to_string :: "double \<Rightarrow> string"

section \<open>Saving and loading\<close>

text \<open>The content of a file that one \<open>dump()\<close> after the other is written to, up to the exception.\<close>

fun dump_lines :: "'j jlib \<Rightarrow> (string, cache_entry) umap \<Rightarrow> exn option \<times> string" where
  "dump_lines L [] = (None, [])"
| "dump_lines L ((k, e) # es) =
     (case jdump L (entry_to_json L e) of
        Inl ex \<Rightarrow> (Some ex, [])
      | Inr s \<Rightarrow> (case dump_lines L es of (ex, rest) \<Rightarrow> (ex, s @ [CHR 0x0A] @ rest)))"

definition save_to_disk :: "'j jlib \<Rightarrow> l2_cache \<Rightarrow> fs \<Rightarrow> exn option \<times> fs" where
  "save_to_disk L c fs =
     (case dump_lines L (l2_entries c) of (ex, content) \<Rightarrow> (ex, fs_write (l2_data_file c) content fs))"

definition revidx_json :: "'j jlib \<Rightarrow> (string, string list) umap \<Rightarrow> 'j" where
  "revidx_json L rv = (if rv = [] then jnull L else jobj L (map (\<lambda>(k, v). (k, jstrs L v)) rv))"

text \<open>The file is truncated before \<open>dump\<close> runs.\<close>

definition save_revidx :: "'j jlib \<Rightarrow> l2_cache \<Rightarrow> fs \<Rightarrow> exn option \<times> fs" where
  "save_revidx L c fs =
     (case jdump L (revidx_json L (l2_dep_rev c)) of
        Inl ex \<Rightarrow> (Some ex, fs_write (l2_revidx_file c) [] fs)
      | Inr s \<Rightarrow> (None, fs_write (l2_revidx_file c) s fs))"

definition save_both :: "'j jlib \<Rightarrow> l2_cache \<Rightarrow> fs \<Rightarrow> exn option \<times> fs" where
  "save_both L c fs =
     (case save_to_disk L c fs of
        (Some ex, fs) \<Rightarrow> (Some ex, fs)
      | (None, fs) \<Rightarrow> save_revidx L c fs)"

text \<open>\<open>std::getline\<close> until the end of the file.\<close>

fun getlines :: "string \<Rightarrow> string \<Rightarrow> string list" where
  "getlines acc [] = (if acc = [] then [] else [acc])"
| "getlines acc (x # xs) = (if x = CHR 0x0A then acc # getlines [] xs else getlines (acc @ [x]) xs)"

fun load_lines :: "'j jlib \<Rightarrow> string list \<Rightarrow> (string, cache_entry) umap \<Rightarrow> (string, cache_entry) umap" where
  "load_lines L [] es = es"
| "load_lines L (line # ls) es =
     (if line = [] then load_lines L ls es
      else case bindE (jparse L line) (entry_from_json L) of
             Inl _ \<Rightarrow> load_lines L ls es
           | Inr e \<Rightarrow> load_lines L ls (um_set (e_key e) e es))"

text \<open>The loop over the index file; the flag says whether it ended without an exception.\<close>

fun load_rev_items ::
  "'j jlib \<Rightarrow> (string \<times> 'j) list \<Rightarrow> (string, string list) umap \<Rightarrow> bool \<times> (string, string list) umap" where
  "load_rev_items L [] rv = (True, rv)"
| "load_rev_items L ((k, v) # items) rv =
     (case jget_strs L v of Inl _ \<Rightarrow> (False, rv) | Inr ks \<Rightarrow> load_rev_items L items (um_set k ks rv))"

definition rev_of :: "(string, string list) umap \<Rightarrow> string \<Rightarrow> string list" where
  "rev_of rv dep = (case um_find rv dep of None \<Rightarrow> [] | Some v \<Rightarrow> v)"

text \<open>\<open>for (auto& dep : entry.depends_on) dep_rev_[dep].push_back(key)\<close> over all entries.\<close>

definition rebuild_rev ::
  "(string, cache_entry) umap \<Rightarrow> (string, string list) umap \<Rightarrow> (string, string list) umap" where
  "rebuild_rev es rv =
     fold (\<lambda>(k, e). fold (\<lambda>dep rv. um_set dep (rev_of rv dep @ [k]) rv) (e_depends_on e)) es rv"

definition load_from_disk :: "'j jlib \<Rightarrow> fs \<Rightarrow> l2_cache \<Rightarrow> l2_cache" where
  "load_from_disk L fs c =
     (case fs (l2_data_file c) of
        None \<Rightarrow> c
      | Some content \<Rightarrow>
          let es = load_lines L (getlines [] content) (l2_entries c); c = c\<lparr>l2_entries := es\<rparr> in
          (case fs (l2_revidx_file c) of
             None \<Rightarrow> c
           | Some text \<Rightarrow>
               (case (case jparse L text of Inl _ \<Rightarrow> (False, l2_dep_rev c)
                      | Inr rj \<Rightarrow> load_rev_items L (jitems L rj) (l2_dep_rev c)) of
                  (True, rv) \<Rightarrow> c\<lparr>l2_dep_rev := rv\<rparr>
                | (False, rv) \<Rightarrow> c\<lparr>l2_dep_rev := rebuild_rev es rv\<rparr>)))"

definition l2_init :: "'j jlib \<Rightarrow> string \<Rightarrow> fs \<Rightarrow> l2_cache \<Rightarrow> l2_cache" where
  "l2_init L storage_dir fs c =
     load_from_disk L fs (c\<lparr>l2_data_file := storage_dir @ ''/l2_cache.jsonl'',
                            l2_revidx_file := storage_dir @ ''/l2_revidx.json''\<rparr>)"

definition l2_shutdown :: "'j jlib \<Rightarrow> l2_cache \<Rightarrow> fs \<Rightarrow> exn option \<times> l2_cache \<times> fs" where
  "l2_shutdown L c fs =
     (case save_both L c fs of
        (Some ex, fs) \<Rightarrow> (Some ex, c, fs)
      | (None, fs) \<Rightarrow> (None, c\<lparr>l2_entries := [], l2_dep_rev := []\<rparr>, fs))"

section \<open>Reading and writing\<close>

definition l2_get :: "int \<Rightarrow> string \<Rightarrow> l2_cache \<Rightarrow> cache_entry option \<times> l2_cache" where
  "l2_get now_ms key c =
     (case um_find (l2_entries c) key of
        None \<Rightarrow> (None, c)
      | Some e \<Rightarrow>
          if now_ms > e_deadline e then (None, c)
          else if e_status e = INVALIDATED then (None, c)
          else let e' = e\<lparr>e_access_count := e_access_count e + 1\<rparr> in
               (Some e', c\<lparr>l2_entries := um_set key e' (l2_entries c)\<rparr>))"

text \<open>\<open>auto& rev = dep_rev_[dep]; rev.erase(std::remove(\<dots>, key), \<dots>)\<close>\<close>

definition rev_unindex :: "string \<Rightarrow> string \<Rightarrow> (string, string list) umap \<Rightarrow> (string, string list) umap" where
  "rev_unindex key dep rv = um_set dep (removeAll key (rev_of rv dep)) rv"

text \<open>The same through \<open>find\<close>, which does not create the vector.\<close>

definition rev_unindex_found :: "string \<Rightarrow> string \<Rightarrow> (string, string list) umap \<Rightarrow> (string, string list) umap" where
  "rev_unindex_found key dep rv =
     (case um_find rv dep of None \<Rightarrow> rv | Some v \<Rightarrow> um_set dep (removeAll key v) rv)"

definition rev_index :: "string \<Rightarrow> string \<Rightarrow> (string, string list) umap \<Rightarrow> (string, string list) umap" where
  "rev_index key dep rv =
     (let v = rev_of rv dep in um_set dep (if key \<in> set v then v else v @ [key]) rv)"

definition l2_set_mem :: "string \<Rightarrow> cache_entry \<Rightarrow> l2_cache \<Rightarrow> l2_cache" where
  "l2_set_mem key e c =
     (let rv = (case um_find (l2_entries c) key of
                   None \<Rightarrow> l2_dep_rev c
                 | Some old \<Rightarrow> fold (rev_unindex key) (e_depends_on old) (l2_dep_rev c)) in
      c\<lparr>l2_entries := um_set key e (l2_entries c), l2_dep_rev := fold (rev_index key) (e_depends_on e) rv\<rparr>)"

definition l2_set :: "'j jlib \<Rightarrow> string \<Rightarrow> cache_entry \<Rightarrow> l2_cache \<Rightarrow> fs \<Rightarrow> exn option \<times> l2_cache \<times> fs" where
  "l2_set L key e c fs =
     (let c = l2_set_mem key e c in case save_both L c fs of (ex, fs) \<Rightarrow> (ex, c, fs))"

definition l2_remove_mem :: "string \<Rightarrow> l2_cache \<Rightarrow> l2_cache" where
  "l2_remove_mem key c =
     (case um_find (l2_entries c) key of
        None \<Rightarrow> c
      | Some e \<Rightarrow>
          c\<lparr>l2_dep_rev := fold (rev_unindex_found key) (e_depends_on e) (l2_dep_rev c),
            l2_entries := um_erase key (l2_entries c)\<rparr>)"

definition l2_remove :: "'j jlib \<Rightarrow> string \<Rightarrow> l2_cache \<Rightarrow> fs \<Rightarrow> exn option \<times> l2_cache \<times> fs" where
  "l2_remove L key c fs =
     (let c = l2_remove_mem key c in case save_both L c fs of (ex, fs) \<Rightarrow> (ex, c, fs))"

definition l2_size :: "l2_cache \<Rightarrow> nat" where
  "l2_size c = length (l2_entries c)"

definition l2_dependents_of :: "string \<Rightarrow> l2_cache \<Rightarrow> string list" where
  "l2_dependents_of key c = rev_of (l2_dep_rev c) key"

section \<open>Invalidation\<close>

definition soften :: "string \<Rightarrow> cache_entry \<Rightarrow> cache_entry" where
  "soften reason e = e\<lparr>e_status := STALE, e_confidence := e_confidence e * (3 / 10), e_invalid_reason := reason\<rparr>"

definition l2_soft_invalidate ::
  "'j jlib \<Rightarrow> string \<Rightarrow> string \<Rightarrow> l2_cache \<Rightarrow> fs \<Rightarrow> exn option \<times> l2_cache \<times> fs" where
  "l2_soft_invalidate L key reason c fs =
     (case um_find (l2_entries c) key of
        None \<Rightarrow> (None, c, fs)
      | Some e \<Rightarrow>
          let c = c\<lparr>l2_entries := um_set key (soften reason e) (l2_entries c)\<rparr> in
          (case save_to_disk L c fs of (ex, fs) \<Rightarrow> (ex, c, fs)))"

text \<open>The UTF-8 bytes of the reason given to a dependent of \<open>key\<close>.\<close>

definition upstream_reason :: "string \<Rightarrow> string \<Rightarrow> string" where
  "upstream_reason key reason =
     [CHR 0xE4, CHR 0xB8, CHR 0x8A, CHR 0xE6, CHR 0xB8, CHR 0xB8, CHR 0x20] @ key @
     [CHR 0x20, CHR 0xE5, CHR 0xB7, CHR 0xB2, CHR 0xE5, CHR 0xA4, CHR 0xB1, CHR 0xE6, CHR 0x95, CHR 0x88,
      CHR 0x3A, CHR 0x20] @ reason"

text \<open>
  \<open>cascade_invalidate_internal\<close>. A frame \<open>(key, reason, ds)\<close> is an activation of the function whose loop
  still has the dependents \<open>ds\<close> to visit; entering an activation checks and extends \<open>visited\<close>. The
  parameter \<open>reason\<close> is a reference: the caller's text in the first activation (\<open>Some\<close>), and in every other
  one (\<open>None\<close>) the \<open>invalid_reason\<close> of the key's own entry, which the activations below may overwrite.
\<close>

lemma um_set_keys: "um_find m k = Some v \<Longrightarrow> map fst (um_set k w m) = map fst m"
  unfolding um_find_def um_set_def by (induction m) (auto split: if_splits)

lemma filter_unvisited:
  assumes "d \<in> set ks" "d \<notin> set vis"
  shows "length (filter (\<lambda>k. k \<notin> set (vis @ [d])) ks) < length (filter (\<lambda>k. k \<notin> set vis) ks)"
proof -
  have "filter (\<lambda>k. k \<notin> set (vis @ [d])) ks = filter (\<lambda>k. k \<noteq> d) (filter (\<lambda>k. k \<notin> set vis) ks)"
    by (simp add: conj_commute)
  moreover have "length (filter (\<lambda>k. k \<noteq> d) (filter (\<lambda>k. k \<notin> set vis) ks)) < length (filter (\<lambda>k. k \<notin> set vis) ks)"
    by (rule length_filter_less[of d]) (use assms in auto)
  ultimately show ?thesis by metis
qed

definition reason_text :: "(string, cache_entry) umap \<Rightarrow> string \<Rightarrow> string option \<Rightarrow> string" where
  "reason_text es key reason =
     (case reason of
        Some s \<Rightarrow> s
      | None \<Rightarrow> (case um_find es key of Some e \<Rightarrow> e_invalid_reason e | None \<Rightarrow> []))"

function cascade_run ::
  "(string, string list) umap \<Rightarrow> (string \<times> string option \<times> string list) list \<Rightarrow> string list \<Rightarrow>
     (string, cache_entry) umap \<Rightarrow> (string, cache_entry) umap" where
  "cascade_run rv [] visited es = es"
| "cascade_run rv ((key, reason, []) # st) visited es = cascade_run rv st visited es"
| "cascade_run rv ((key, reason, d # ds) # st) visited es =
     (case um_find es d of
        None \<Rightarrow> cascade_run rv ((key, reason, ds) # st) visited es
      | Some e \<Rightarrow>
          if e_status e \<noteq> INVALIDATED
          then let r = upstream_reason key (reason_text es key reason); es' = um_set d (soften r e) es in
               (if d \<in> set visited then cascade_run rv ((key, reason, ds) # st) visited es'
                else cascade_run rv ((d, None, rev_of rv d) # (key, reason, ds) # st) (visited @ [d]) es')
          else cascade_run rv ((key, reason, ds) # st) visited es)"
  by pat_completeness auto
termination
proof (relation "measures [\<lambda>(rv, st, visited, es). length (filter (\<lambda>k. k \<notin> set visited) (map fst es)),
    \<lambda>(rv, st, visited, es). sum_list (map (\<lambda>(k, r, ds). Suc (length ds)) st)]", goal_cases)
  case (5 rv key reason d ds st visited es e x xa)
  have k: "map fst xa = map fst es" using 5 um_set_keys by metis
  have "d \<in> set (map fst es)" using um_find_SomeD[OF 5(1)] by force
  then have "length (filter (\<lambda>k. k \<notin> set (visited @ [d])) (map fst xa)) <
      length (filter (\<lambda>k. k \<notin> set visited) (map fst es))"
    unfolding k using 5 by (intro filter_unvisited)
  then show ?case by simp
next
  case (4 rv key reason d ds st visited es e x xa)
  have k: "map fst xa = map fst es" using 4 um_set_keys by metis
  have "length (filter (\<lambda>k. k \<notin> set visited) (map fst xa)) = length (filter (\<lambda>k. k \<notin> set visited) (map fst es))"
    unfolding k ..
  then show ?case by simp
qed auto

declare cascade_run.simps [simp del]

text \<open>The first call of \<open>cascade_invalidate_internal\<close>, with an empty \<open>visited\<close>.\<close>

definition cascade_invalidate ::
  "string \<Rightarrow> string \<Rightarrow> (string, string list) umap \<Rightarrow> (string, cache_entry) umap \<Rightarrow> (string, cache_entry) umap" where
  "cascade_invalidate key reason rv es = cascade_run rv [(key, Some reason, rev_of rv key)] [key] es"

definition harden :: "string \<Rightarrow> cache_entry \<Rightarrow> cache_entry" where
  "harden reason e = e\<lparr>e_status := INVALIDATED, e_invalid_reason := reason, e_confidence := 0\<rparr>"

definition l2_hard_invalidate_mem :: "string \<Rightarrow> string \<Rightarrow> bool \<Rightarrow> l2_cache \<Rightarrow> l2_cache" where
  "l2_hard_invalidate_mem key reason cascade c =
     (case um_find (l2_entries c) key of
        None \<Rightarrow> c
      | Some e \<Rightarrow>
          let es = um_set key (harden reason e) (l2_entries c) in
          c\<lparr>l2_entries := (if cascade then cascade_invalidate key reason (l2_dep_rev c) es else es)\<rparr>)"

definition l2_hard_invalidate ::
  "'j jlib \<Rightarrow> string \<Rightarrow> string \<Rightarrow> bool \<Rightarrow> l2_cache \<Rightarrow> fs \<Rightarrow> exn option \<times> l2_cache \<times> fs" where
  "l2_hard_invalidate L key reason cascade c fs =
     (case um_find (l2_entries c) key of
        None \<Rightarrow> (None, c, fs)
      | Some _ \<Rightarrow>
          let c = l2_hard_invalidate_mem key reason cascade c in
          (case save_both L c fs of (ex, fs) \<Rightarrow> (ex, c, fs)))"

section \<open>Maintenance\<close>

text \<open>The UTF-8 bytes of the reason text.\<close>

definition decay_reason :: "libm \<Rightarrow> double \<Rightarrow> string" where
  "decay_reason M conf =
     [CHR 0xE7, CHR 0xBD, CHR 0xAE, CHR 0xE4, CHR 0xBF, CHR 0xA1, CHR 0xE5, CHR 0xBA, CHR 0xA6,
      CHR 0xE8, CHR 0xA1, CHR 0xB0, CHR 0xE5, CHR 0x87, CHR 0x8F, CHR 0xE8, CHR 0x87, CHR 0xB3, CHR 0x20]
      @ lm_to_string M conf"

definition decay_entry :: "libm \<Rightarrow> int \<Rightarrow> cache_entry \<Rightarrow> cache_entry" where
  "decay_entry M now_ms e =
     (if e_status e = INVALIDATED then e
      else let days = of_int (now_ms - e_created_at_ms e) / (1000 * 86400);
               new_conf = e_confidence e * lm_pow M (1 - e_confidence_decay e) days;
               e = (if new_conf < kConfidenceStale
                    then e\<lparr>e_status := STALE, e_invalid_reason := decay_reason M new_conf\<rparr> else e) in
           e\<lparr>e_confidence := new_conf\<rparr>)"

definition l2_apply_confidence_decay ::
  "'j jlib \<Rightarrow> libm \<Rightarrow> int \<Rightarrow> l2_cache \<Rightarrow> fs \<Rightarrow> exn option \<times> l2_cache \<times> fs" where
  "l2_apply_confidence_decay L M now_ms c fs =
     (let c = c\<lparr>l2_entries := map (\<lambda>(k, e). (k, decay_entry M now_ms e)) (l2_entries c)\<rparr> in
      case save_to_disk L c fs of (ex, fs) \<Rightarrow> (ex, c, fs))"

definition purgeable :: "int \<Rightarrow> cache_entry \<Rightarrow> bool" where
  "purgeable now_ms e \<longleftrightarrow>
     e_status e = INVALIDATED \<and> now_ms > e_created_at_ms e + e_base_ttl_seconds e * 1000 * 2"

definition purge_keys :: "int \<Rightarrow> l2_cache \<Rightarrow> string list" where
  "purge_keys now_ms c = map fst (filter (\<lambda>(k, e). purgeable now_ms e) (l2_entries c))"

definition l2_purge_expired ::
  "'j jlib \<Rightarrow> int \<Rightarrow> l2_cache \<Rightarrow> fs \<Rightarrow> exn option \<times> l2_cache \<times> fs" where
  "l2_purge_expired L now_ms c fs =
     (let ks = purge_keys now_ms c; c = fold l2_remove_mem ks c in
      if ks = [] then (None, c, fs)
      else (case save_both L c fs of (ex, fs) \<Rightarrow> (ex, c, fs)))"

end
