(* ===== verification/L2_Index.thy ===== *)
theory L2_Index
  imports L2_Cache
begin

text \<open>
  The reverse index of the L2 cache and its reads and writes: the index lists, for every key, exactly
  the cached keys that depend on it, after any sequence of operations; and a read returns the last
  entry written under its key while it is alive.
\<close>

section \<open>The reverse index\<close>

definition l2_ok :: "l2_cache \<Rightarrow> bool" where
  "l2_ok c \<longleftrightarrow> um_ok (l2_entries c) \<and> um_ok (l2_dep_rev c) \<and> (\<forall>dep. distinct (rev_of (l2_dep_rev c) dep)) \<and>
     (\<forall>dep key. key \<in> set (rev_of (l2_dep_rev c) dep) \<longleftrightarrow>
        (\<exists>e. um_find (l2_entries c) key = Some e \<and> dep \<in> set (e_depends_on e)))"

lemma l2_ok_new [simp]: "l2_ok l2_new"
  by (simp add: l2_ok_def l2_new_def rev_of_def)

lemma rev_of_set [simp]: "rev_of (um_set d v rv) x = (if x = d then v else rev_of rv x)"
  by (simp add: rev_of_def)

lemma rev_of_unindex [simp]:
  "rev_of (rev_unindex key dep rv) x = (if x = dep then removeAll key (rev_of rv x) else rev_of rv x)"
  by (simp add: rev_unindex_def)

lemma rev_of_unindex_found [simp]:
  "rev_of (rev_unindex_found key dep rv) x = (if x = dep then removeAll key (rev_of rv x) else rev_of rv x)"
  by (simp add: rev_unindex_found_def rev_of_def split: option.split)

lemma removeAll_twice [simp]: "removeAll k (removeAll k xs) = removeAll k xs"
  by (simp add: removeAll_id)

lemma fold_unindex:
  "rev_of (fold (rev_unindex key) deps rv) x = (if x \<in> set deps then removeAll key (rev_of rv x) else rev_of rv x)"
  "rev_of (fold (rev_unindex_found key) deps rv) x =
     (if x \<in> set deps then removeAll key (rev_of rv x) else rev_of rv x)"
  by (induction deps arbitrary: rv) auto

lemma fold_index:
  "set (rev_of (fold (rev_index key) deps rv) x) =
     (if x \<in> set deps then insert key (set (rev_of rv x)) else set (rev_of rv x))"
  by (induction deps arbitrary: rv) (auto simp: rev_index_def Let_def)

lemma fold_index_distinct:
  "\<forall>x. distinct (rev_of rv x) \<Longrightarrow> distinct (rev_of (fold (rev_index key) deps rv) x)"
  by (induction deps arbitrary: rv) (auto simp: rev_index_def Let_def)

lemma um_ok_fold_rev [simp]:
  "um_ok rv \<Longrightarrow> um_ok (fold (rev_unindex key) deps rv)"
  "um_ok rv \<Longrightarrow> um_ok (fold (rev_unindex_found key) deps rv)"
  "um_ok rv \<Longrightarrow> um_ok (fold (rev_index key) deps rv)"
  by (induction deps arbitrary: rv)
     (auto simp: rev_unindex_def rev_unindex_found_def rev_index_def Let_def split: option.split)

lemma l2_ok_set: "l2_ok c \<Longrightarrow> l2_ok (l2_set_mem k e c)"
proof -
  assume ok: "l2_ok c"
  define rv where "rv = (case um_find (l2_entries c) k of None \<Rightarrow> l2_dep_rev c
    | Some old \<Rightarrow> fold (rev_unindex k) (e_depends_on old) (l2_dep_rev c))"
  have rv: "set (rev_of rv x) = set (rev_of (l2_dep_rev c) x) - {k}" "distinct (rev_of rv x)" "um_ok rv" for x
    using ok by (auto simp: rv_def l2_ok_def fold_unindex distinct_removeAll split: option.split)
  have "set (rev_of (fold (rev_index k) (e_depends_on e) rv) x) =
      (if x \<in> set (e_depends_on e) then insert k (set (rev_of rv x)) else set (rev_of rv x))" for x
    by (rule fold_index)
  then show ?thesis
    using ok rv fold_index_distinct[of rv k "e_depends_on e"]
    by (auto simp: l2_set_mem_def l2_ok_def rv_def[symmetric] Let_def)
qed

lemma l2_ok_remove: "l2_ok c \<Longrightarrow> l2_ok (l2_remove_mem k c)"
  by (auto simp: l2_remove_mem_def l2_ok_def fold_unindex distinct_removeAll split: option.split)

lemma l2_ok_fold_remove: "l2_ok c \<Longrightarrow> l2_ok (fold l2_remove_mem ks c)"
  by (induction ks arbitrary: c) (auto simp: l2_ok_remove)

text \<open>Changes to entries that leave their dependencies alone keep the index.\<close>

definition same_deps :: "(string, cache_entry) umap \<Rightarrow> (string, cache_entry) umap \<Rightarrow> bool" where
  "same_deps es es' \<longleftrightarrow> (um_ok es \<longrightarrow> um_ok es') \<and>
     (\<forall>k. map_option e_depends_on (um_find es' k) = map_option e_depends_on (um_find es k))"

lemma same_deps_refl [simp]: "same_deps es es" by (simp add: same_deps_def)

lemma same_deps_trans: "same_deps a b \<Longrightarrow> same_deps b c \<Longrightarrow> same_deps a c" by (simp add: same_deps_def)

lemma same_deps_set:
  "um_find es k = Some e \<Longrightarrow> e_depends_on e' = e_depends_on e \<Longrightarrow> same_deps es (um_set k e' es)"
  by (simp add: same_deps_def)

lemma l2_ok_same_deps: "l2_ok c \<Longrightarrow> same_deps (l2_entries c) es \<Longrightarrow> l2_ok (c\<lparr>l2_entries := es\<rparr>)"
proof -
  assume ok: "l2_ok c" and s: "same_deps (l2_entries c) es"
  have "(\<exists>e. um_find es k = Some e \<and> P (e_depends_on e)) =
      (\<exists>e. um_find (l2_entries c) k = Some e \<and> P (e_depends_on e))" for k P
  proof -
    have "map_option e_depends_on (um_find es k) = map_option e_depends_on (um_find (l2_entries c) k)"
      using s by (simp add: same_deps_def)
    then show ?thesis by (cases "um_find es k"; cases "um_find (l2_entries c) k") auto
  qed
  from this[of _ "\<lambda>ds. _ \<in> set ds"] show ?thesis using ok s by (simp add: l2_ok_def same_deps_def)
qed

lemma soften_deps [simp]: "e_depends_on (soften r e) = e_depends_on e"
  by (simp add: soften_def)

lemma harden_deps [simp]: "e_depends_on (harden r e) = e_depends_on e"
  by (simp add: harden_def)

lemma decay_deps [simp]: "e_depends_on (decay_entry M now e) = e_depends_on e"
  by (simp add: decay_entry_def Let_def)

lemma cascade_run_deps: "same_deps es (cascade_run rv st vis es)"
proof (induction rv st vis es rule: cascade_run.induct)
  case (3 rv key reason d ds st visited es)
  show ?case
  proof (cases "um_find es d")
    case (Some e)
    have s: "same_deps es (um_set d (soften (upstream_reason key (reason_text es key reason)) e) es)"
      by (rule same_deps_set[OF Some]) simp
    show ?thesis
      using 3(2-4)[OF Some] Some s same_deps_trans by (auto simp: cascade_run.simps Let_def)
  qed (use 3(1) in \<open>simp add: cascade_run.simps\<close>)
qed (simp_all add: cascade_run.simps)

lemma l2_ok_hard: "l2_ok c \<Longrightarrow> l2_ok (l2_hard_invalidate_mem k r b c)"
proof (cases "um_find (l2_entries c) k")
  case (Some e)
  assume ok: "l2_ok c"
  have "same_deps (l2_entries c) (um_set k (harden r e) (l2_entries c))"
    by (rule same_deps_set[OF Some]) simp
  then have "same_deps (l2_entries c) (if b then cascade_invalidate k r (l2_dep_rev c) (um_set k (harden r e) (l2_entries c))
      else um_set k (harden r e) (l2_entries c))"
    using cascade_run_deps same_deps_trans by (auto simp: cascade_invalidate_def)
  then show ?thesis using l2_ok_same_deps[OF ok] Some by (simp add: l2_hard_invalidate_mem_def Let_def)
qed (simp add: l2_hard_invalidate_mem_def)

lemma um_find_map_value [simp]: "um_find (map (\<lambda>(k, e). (k, f e)) m) j = map_option f (um_find m j)"
  by (simp add: um_find_def map_of_map[unfolded comp_def])

lemma same_deps_decay: "same_deps es (map (\<lambda>(k, e). (k, decay_entry M now e)) es)"
proof -
  have "map fst (map (\<lambda>(k, e). (k, decay_entry M now e)) es) = map fst es" by (induction es) auto
  then have "um_ok es \<Longrightarrow> um_ok (map (\<lambda>(k, e). (k, decay_entry M now e)) es)" by (simp only: um_ok_def)
  then show ?thesis by (simp add: same_deps_def option.map_comp comp_def)
qed

section \<open>Any sequence of operations\<close>

datatype l2_op =
    L2Get int string
  | L2Set string cache_entry
  | L2Remove string
  | L2Soft string string
  | L2Hard string string bool
  | L2Decay int
  | L2Purge int
  | L2Shutdown

text \<open>One operation of the cache's interface, whatever exception its save ends in.\<close>

definition l2_exec :: "'j jlib \<Rightarrow> libm \<Rightarrow> l2_op \<Rightarrow> l2_cache \<times> fs \<Rightarrow> l2_cache \<times> fs" where
  "l2_exec L M op w = (case w of (c, fs) \<Rightarrow>
     (case op of
        L2Get now k \<Rightarrow> (snd (l2_get now k c), fs)
      | L2Set k e \<Rightarrow> snd (l2_set L k e c fs)
      | L2Remove k \<Rightarrow> snd (l2_remove L k c fs)
      | L2Soft k r \<Rightarrow> snd (l2_soft_invalidate L k r c fs)
      | L2Hard k r b \<Rightarrow> snd (l2_hard_invalidate L k r b c fs)
      | L2Decay now \<Rightarrow> snd (l2_apply_confidence_decay L M now c fs)
      | L2Purge now \<Rightarrow> snd (l2_purge_expired L now c fs)
      | L2Shutdown \<Rightarrow> snd (l2_shutdown L c fs)))"

lemma l2_ok_get: "l2_ok c \<Longrightarrow> l2_ok (snd (l2_get now k c))"
proof (cases "um_find (l2_entries c) k")
  case (Some e)
  assume ok: "l2_ok c"
  have "same_deps (l2_entries c) (um_set k (e\<lparr>e_access_count := e_access_count e + 1\<rparr>) (l2_entries c))"
    by (rule same_deps_set[OF Some]) simp
  then show ?thesis using Some ok l2_ok_same_deps[OF ok] by (simp add: l2_get_def Let_def)
qed (simp add: l2_get_def)

lemma l2_ok_exec: "l2_ok (fst w) \<Longrightarrow> l2_ok (fst (l2_exec L M op w))"
proof -
  assume ok: "l2_ok (fst w)"
  obtain c fs where w: "w = (c, fs)" by (cases w)
  then have c: "l2_ok c" using ok by simp
  have "l2_ok (c\<lparr>l2_entries := [], l2_dep_rev := []\<rparr>)" by (simp add: l2_ok_def rev_of_def)
  moreover have "l2_ok (c\<lparr>l2_entries := um_set k (soften r e) (l2_entries c)\<rparr>)"
    if "um_find (l2_entries c) k = Some e" for k r e
    using c l2_ok_same_deps same_deps_set[OF that, of "soften r e"] by simp
  moreover have "l2_ok (c\<lparr>l2_entries := map (\<lambda>(k, e). (k, decay_entry M now e)) (l2_entries c)\<rparr>)" for now
    using c l2_ok_same_deps same_deps_decay by blast
  ultimately show ?thesis
    using c l2_ok_get l2_ok_set l2_ok_remove l2_ok_hard l2_ok_fold_remove
    by (auto simp: l2_exec_def w l2_set_def l2_remove_def l2_soft_invalidate_def l2_hard_invalidate_def
        l2_apply_confidence_decay_def l2_purge_expired_def l2_shutdown_def Let_def
        split: l2_op.split prod.split option.split)
qed

lemma l2_ok_run: "l2_ok (fst w) \<Longrightarrow> l2_ok (fst (fold (l2_exec L M) ops w))"
  by (induction ops arbitrary: w) (auto simp: l2_ok_exec)

text \<open>C16. The reverse index is exact: after any sequence of reads, writes, removals, invalidations,
  decays, purges and shutdowns, with any clock, any file system and any exception thrown by a save,
  \<open>dependents_of\<close> a key lists, without duplicates, exactly the cached keys whose entry depends on it.\<close>

theorem l2_index_exact:
  "let c = fst (fold (l2_exec L M) ops (l2_new, fs)) in
     distinct (l2_dependents_of dep c) \<and>
     (key \<in> set (l2_dependents_of dep c) \<longleftrightarrow>
        (\<exists>e. um_find (l2_entries c) key = Some e \<and> dep \<in> set (e_depends_on e)))"
proof -
  have "l2_ok (fst (fold (l2_exec L M) ops (l2_new, fs)))" by (rule l2_ok_run) simp
  then show ?thesis by (simp add: Let_def l2_ok_def l2_dependents_of_def)
qed

section \<open>Reads and writes\<close>

definition alive :: "int \<Rightarrow> cache_entry \<Rightarrow> bool" where
  "alive now e \<longleftrightarrow> now \<le> e_deadline e \<and> e_status e \<noteq> INVALIDATED"

definition touched :: "cache_entry \<Rightarrow> cache_entry" where
  "touched e = e\<lparr>e_access_count := e_access_count e + 1\<rparr>"

lemma l2_get_find:
  "fst (l2_get now k c) = (case um_find (l2_entries c) k of
     None \<Rightarrow> None | Some e \<Rightarrow> if alive now e then Some (touched e) else None)"
  by (auto simp: l2_get_def alive_def touched_def Let_def split: option.split)

lemma l2_set_find:
  "um_find (l2_entries (fst (snd (l2_set L k e c fs)))) j = (if j = k then Some e else um_find (l2_entries c) j)"
  by (simp add: l2_set_def l2_set_mem_def Let_def split: prod.split)

lemma l2_remove_find:
  "um_find (l2_entries (fst (snd (l2_remove L k c fs)))) j = (if j = k then None else um_find (l2_entries c) j)"
  by (auto simp: l2_remove_def l2_remove_mem_def Let_def split: prod.split option.split)

text \<open>Reads see the last write: after \<open>set\<close>, whether or not its save threw, a read of the key
  returns the written entry with one more access exactly when its time to live has not passed and it is
  not invalidated; after \<open>remove\<close> it misses; the reads of other keys are unaffected by either, and a
  read changes nothing but the access count of its own key.\<close>

theorem l2_read_after_write:
  "fst (l2_get now j (fst (snd (l2_set L k e c fs)))) =
     (if j = k then (if alive now e then Some (touched e) else None) else fst (l2_get now j c)) \<and>
   fst (l2_get now j (fst (snd (l2_remove L k c fs)))) = (if j = k then None else fst (l2_get now j c)) \<and>
   um_find (l2_entries (snd (l2_get now k c))) j =
     (if j = k \<and> fst (l2_get now k c) \<noteq> None then fst (l2_get now k c) else um_find (l2_entries c) j)"
proof -
  have "um_find (l2_entries (snd (l2_get now k c))) j =
      (if j = k \<and> fst (l2_get now k c) \<noteq> None then fst (l2_get now k c) else um_find (l2_entries c) j)"
    by (auto simp: l2_get_def Let_def split: option.split)
  then show ?thesis unfolding l2_get_find l2_set_find l2_remove_find by simp
qed

section \<open>Confidence decay\<close>

text \<open>Confidence only falls, and low confidence is marked: for any power function that is between
  0 and 1 on the arguments used, the decay of an entry keeps its confidence non-negative and at most
  what it was, never makes a stale entry fresh, leaves an invalidated entry alone, and marks stale every
  other entry whose confidence drops below the threshold; nothing but confidence, status and reason
  changes.\<close>

theorem decay_monotone:
  assumes "\<forall>b d. 0 \<le> b \<and> b \<le> 1 \<and> 0 \<le> d \<longrightarrow> 0 \<le> lm_pow M b d \<and> lm_pow M b d \<le> 1"
    and "0 \<le> e_confidence_decay e" "e_confidence_decay e \<le> 1" "0 \<le> e_confidence e" "e_created_at_ms e \<le> now"
  shows "0 \<le> e_confidence (decay_entry M now e) \<and> e_confidence (decay_entry M now e) \<le> e_confidence e \<and>
    (e_status e = INVALIDATED \<longrightarrow> decay_entry M now e = e) \<and>
    (e_status (decay_entry M now e) = e_status e \<or> e_status (decay_entry M now e) = STALE) \<and>
    (e_status e \<noteq> INVALIDATED \<and> e_confidence (decay_entry M now e) < 3 / 10 \<longrightarrow>
       e_status (decay_entry M now e) = STALE) \<and>
    decay_entry M now e = e\<lparr>e_confidence := e_confidence (decay_entry M now e),
      e_status := e_status (decay_entry M now e), e_invalid_reason := e_invalid_reason (decay_entry M now e)\<rparr>"
proof -
  let ?p = "lm_pow M (1 - e_confidence_decay e) (of_int (now - e_created_at_ms e) / (1000 * 86400))"
  have p: "0 \<le> ?p" "?p \<le> 1" using assms by simp_all
  have c: "0 \<le> e_confidence e * ?p" "e_confidence e * ?p \<le> e_confidence e"
    using p assms(4) mult_left_mono[OF p(2) assms(4)] by simp_all
  have "e_confidence (decay_entry M now e) = (if e_status e = INVALIDATED then e_confidence e else e_confidence e * ?p)"
    by (simp add: decay_entry_def Let_def)
  then show ?thesis using c assms(4) by (auto simp: decay_entry_def Let_def kConfidenceStale_def)
qed

theorem decay_monotone_witness:
  "e_confidence (decay_entry \<lparr>lm_pow = (\<lambda>b d. 1 / 5), lm_to_string = (\<lambda>_. ''0.2'')\<rparr> 1000 (default_entry\<lparr>e_confidence := 1\<rparr>)) = 1 / 5 \<and>
   e_status (decay_entry \<lparr>lm_pow = (\<lambda>b d. 1 / 5), lm_to_string = (\<lambda>_. ''0.2'')\<rparr> 1000 (default_entry\<lparr>e_confidence := 1\<rparr>)) = STALE"
proof -
  let ?M = "\<lparr>lm_pow = (\<lambda>b d. 1 / 5), lm_to_string = (\<lambda>_. ''0.2'')\<rparr>"
  have c: "e_confidence (decay_entry ?M 1000 (default_entry\<lparr>e_confidence := 1\<rparr>)) = 1 / 5"
    by (simp add: decay_entry_def default_entry_def Let_def)
  have "e_status (decay_entry ?M 1000 (default_entry\<lparr>e_confidence := 1\<rparr>)) = STALE"
    using decay_monotone[of ?M "default_entry\<lparr>e_confidence := 1\<rparr>" 1000] c
    by (simp add: default_entry_def)
  with c show ?thesis by simp
qed

end
