(* ===== verification/L2_Cascade.thy ===== *)
theory L2_Cascade
  imports L2_Index
begin

text \<open>
  The cascade of the L2 cache: which entries a hard invalidation makes stale. The dependency relation
  holds between a key and the cached keys that depend on it and are not already invalidated; the
  cascade reaches its transitive closure, each entry reached is weakened, and nothing else changes. That
  the cascade ends on cyclic dependencies is the termination of \<open>cascade_run\<close>.
\<close>

definition dep_edges :: "(string, string list) umap \<Rightarrow> (string, cache_entry) umap \<Rightarrow> (string \<times> string) set" where
  "dep_edges rv es = {(k, d). d \<in> set (rev_of rv k) \<and>
     (\<exists>e. um_find es d = Some e \<and> e_status e \<noteq> INVALIDATED)}"

definition weaken :: "nat \<Rightarrow> string \<Rightarrow> cache_entry \<Rightarrow> cache_entry" where
  "weaken n r e = e\<lparr>e_status := STALE, e_confidence := e_confidence e * (3 / 10) ^ n, e_invalid_reason := r\<rparr>"

lemma soften_weaken: "soften r (weaken n r' e) = weaken (Suc n) r e"
  by (simp add: soften_def weaken_def)

lemma soften_weaken1: "soften r e = weaken 1 r e"
  by (simp add: soften_def weaken_def)

text \<open>\<open>es\<close> is \<open>es0\<close> with the keys of \<open>M\<close> weakened.\<close>

definition marks :: "(string, cache_entry) umap \<Rightarrow> (string, cache_entry) umap \<Rightarrow> string set \<Rightarrow> bool" where
  "marks es0 es M \<longleftrightarrow> (\<forall>k.
     (k \<in> M \<longrightarrow> (\<exists>e n r. um_find es0 k = Some e \<and> e_status e \<noteq> INVALIDATED \<and> 0 < n \<and>
        um_find es k = Some (weaken n r e))) \<and>
     (k \<notin> M \<longrightarrow> um_find es k = um_find es0 k))"

lemma marks_in: "marks es0 es M \<Longrightarrow> k \<in> M \<Longrightarrow> \<exists>e n r. um_find es0 k = Some e \<and>
    e_status e \<noteq> INVALIDATED \<and> 0 < n \<and> um_find es k = Some (weaken n r e)"
  by (simp add: marks_def)

lemma marks_notin: "marks es0 es M \<Longrightarrow> k \<notin> M \<Longrightarrow> um_find es k = um_find es0 k"
  by (simp add: marks_def)

lemma marks_refl: "marks es es {}"
  by (simp add: marks_def)

lemma marks_valid:
  assumes m: "marks es0 es M" and e: "um_find es d = Some e" "e_status e \<noteq> INVALIDATED"
  shows "\<exists>e0. um_find es0 d = Some e0 \<and> e_status e0 \<noteq> INVALIDATED"
    and "marks es0 (um_set d (soften r e) es) (insert d M)"
proof -
  have "\<exists>e0 n r'. um_find es0 d = Some e0 \<and> e_status e0 \<noteq> INVALIDATED \<and> 0 < n \<and> soften r e = weaken n r' e0"
  proof (cases "d \<in> M")
    case True
    then obtain e0 n r' where "um_find es0 d = Some e0" "e_status e0 \<noteq> INVALIDATED" "e = weaken n r' e0"
      using marks_in[OF m] e(1) by fastforce
    then show ?thesis using soften_weaken by blast
  next
    case False
    then have "um_find es0 d = Some e" using marks_notin[OF m] e(1) by simp
    then show ?thesis using e(2) soften_weaken1 by blast
  qed
  then show "\<exists>e0. um_find es0 d = Some e0 \<and> e_status e0 \<noteq> INVALIDATED"
    "marks es0 (um_set d (soften r e) es) (insert d M)"
    using m by (auto simp: marks_def)
qed

lemma marks_invalid:
  assumes m: "marks es0 es M" and e: "\<forall>e. um_find es d = Some e \<longrightarrow> e_status e = INVALIDATED"
  shows "(k, d) \<notin> dep_edges rv es0"
proof -
  have "d \<notin> M" using marks_in[OF m, of d] e by (fastforce simp: weaken_def)
  then show ?thesis using marks_notin[OF m] e by (simp add: dep_edges_def)
qed

text \<open>
  The invariant of the traversal: frames belong to visited keys and hold what is left of their
  dependents; every edge from a visited key has been followed or is waiting in a frame; what has been
  marked is visited and reachable.
\<close>

definition cascade_inv ::
  "(string, string list) umap \<Rightarrow> (string, cache_entry) umap \<Rightarrow> string \<Rightarrow> (string \<times> string option \<times> string list) list \<Rightarrow>
     string list \<Rightarrow> string set \<Rightarrow> bool" where
  "cascade_inv rv es0 origin st vis M \<longleftrightarrow>
     (\<forall>f \<in> set st. fst f \<in> set vis \<and> set (snd (snd f)) \<subseteq> set (rev_of rv (fst f))) \<and>
     (\<forall>v \<in> set vis. \<forall>d. (v, d) \<in> dep_edges rv es0 \<longrightarrow>
        d \<in> M \<or> (\<exists>f \<in> set st. fst f = v \<and> d \<in> set (snd (snd f)))) \<and>
     M \<subseteq> set vis \<and> origin \<in> set vis \<and>
     (\<forall>v \<in> set vis. (origin, v) \<in> (dep_edges rv es0)\<^sup>*) \<and>
     (\<forall>v \<in> M. (origin, v) \<in> (dep_edges rv es0)\<^sup>+)"

lemma cascade_inv_end:
  assumes "cascade_inv rv es0 origin [] vis M"
  shows "M = {x. (origin, x) \<in> (dep_edges rv es0)\<^sup>+}"
proof
  show "M \<subseteq> {x. (origin, x) \<in> (dep_edges rv es0)\<^sup>+}" using assms by (auto simp: cascade_inv_def)
  have step: "d \<in> M" if "v \<in> set vis" "(v, d) \<in> dep_edges rv es0" for v d
    using assms that by (auto simp: cascade_inv_def)
  have "x \<in> M" if "(origin, x) \<in> (dep_edges rv es0)\<^sup>+" for x
    using that
  proof (induction rule: trancl_induct)
    case (base y)
    then show ?case using step assms by (auto simp: cascade_inv_def)
  next
    case (step y z)
    then show ?case using \<open>\<And>v d. v \<in> set vis \<Longrightarrow> (v, d) \<in> dep_edges rv es0 \<Longrightarrow> d \<in> M\<close> assms
      unfolding cascade_inv_def by blast
  qed
  then show "{x. (origin, x) \<in> (dep_edges rv es0)\<^sup>+} \<subseteq> M" by blast
qed

lemma cascade_inv_pop:
  "cascade_inv rv es0 origin ((key, reason, []) # st) vis M \<Longrightarrow> cascade_inv rv es0 origin st vis M"
  by (auto simp: cascade_inv_def)

lemma cascade_inv_skip:
  "cascade_inv rv es0 origin ((key, reason, d # ds) # st) vis M \<Longrightarrow> (key, d) \<notin> dep_edges rv es0 \<Longrightarrow>
     cascade_inv rv es0 origin ((key, reason, ds) # st) vis M"
  by (auto simp: cascade_inv_def)

lemma cascade_inv_edge:
  assumes "cascade_inv rv es0 origin ((key, reason, d # ds) # st) vis M"
    and "um_find es0 d = Some e" "e_status e \<noteq> INVALIDATED"
  shows "(key, d) \<in> dep_edges rv es0" "(origin, d) \<in> (dep_edges rv es0)\<^sup>+"
proof -
  have "d \<in> set (rev_of rv key)" "(origin, key) \<in> (dep_edges rv es0)\<^sup>*" using assms(1) by (auto simp: cascade_inv_def)
  then show "(key, d) \<in> dep_edges rv es0" "(origin, d) \<in> (dep_edges rv es0)\<^sup>+"
    using assms(2,3) by (auto simp: dep_edges_def intro: rtrancl_into_trancl1)
qed

lemma cascade_inv_seen:
  assumes "cascade_inv rv es0 origin ((key, reason, d # ds) # st) vis M" "d \<in> set vis"
    and "um_find es0 d = Some e" "e_status e \<noteq> INVALIDATED"
  shows "cascade_inv rv es0 origin ((key, reason, ds) # st) vis (insert d M)"
  using assms(1,2) cascade_inv_edge(2)[OF assms(1,3,4)] by (auto simp: cascade_inv_def)

lemma cascade_inv_push:
  assumes "cascade_inv rv es0 origin ((key, reason, d # ds) # st) vis M"
    and "um_find es0 d = Some e" "e_status e \<noteq> INVALIDATED"
  shows "cascade_inv rv es0 origin ((d, r, rev_of rv d) # (key, reason, ds) # st) (vis @ [d]) (insert d M)"
proof -
  note d = cascade_inv_edge[OF assms]
  have "(v, x) \<in> dep_edges rv es0 \<Longrightarrow> x \<in> set (rev_of rv v)" for v x by (simp add: dep_edges_def)
  then show ?thesis using assms(1) d(2) trancl_into_rtrancl[OF d(2)] unfolding cascade_inv_def by auto
qed

lemma cascade_run_marks:
  "marks es0 es M \<Longrightarrow> cascade_inv rv es0 origin st vis M \<Longrightarrow>
     marks es0 (cascade_run rv st vis es) {x. (origin, x) \<in> (dep_edges rv es0)\<^sup>+}"
proof (induction rv st vis es arbitrary: M rule: cascade_run.induct)
  case (1 rv visited es)
  then show ?case using cascade_inv_end by (fastforce simp: cascade_run.simps)
next
  case (2 rv key reason st visited es)
  then show ?case using cascade_inv_pop by (simp add: cascade_run.simps)
next
  case (3 rv key reason d ds st visited es)
  show ?case
  proof (cases "\<exists>e. um_find es d = Some e \<and> e_status e \<noteq> INVALIDATED")
    case False
    then have "(key, d) \<notin> dep_edges rv es0" using marks_invalid[OF 3(5)] by blast
    then have inv: "cascade_inv rv es0 origin ((key, reason, ds) # st) visited M"
      using cascade_inv_skip 3(6) by blast
    show ?thesis
    proof (cases "um_find es d")
      case None
      then show ?thesis using 3(1)[OF None 3(5) inv] by (simp add: cascade_run.simps)
    next
      case (Some e)
      then have "\<not> e_status e \<noteq> INVALIDATED" using False by simp
      then show ?thesis using 3(4)[OF Some _ 3(5) inv] Some by (simp add: cascade_run.simps)
    qed
  next
    case True
    then obtain e where e: "um_find es d = Some e" "e_status e \<noteq> INVALIDATED" by blast
    let ?r = "upstream_reason key (reason_text es key reason)"
    obtain e0 where e0: "um_find es0 d = Some e0" "e_status e0 \<noteq> INVALIDATED"
      using marks_valid(1)[OF 3(5) e] by blast
    have m: "marks es0 (um_set d (soften ?r e) es) (insert d M)" by (rule marks_valid(2)[OF 3(5) e])
    show ?thesis
    proof (cases "d \<in> set visited")
      case True
      then show ?thesis
        using 3(2)[OF e refl refl True m cascade_inv_seen[OF 3(6) True e0]] e
        by (simp add: cascade_run.simps Let_def)
    next
      case False
      then show ?thesis
        using 3(3)[OF e refl refl False m cascade_inv_push[OF 3(6) e0]] e
        by (simp add: cascade_run.simps Let_def)
    qed
  qed
qed

lemma cascade_invalidate_marks:
  "marks es (cascade_invalidate key reason rv es) {x. (key, x) \<in> (dep_edges rv es)\<^sup>+}"
proof -
  have "cascade_inv rv es key [(key, Some reason, rev_of rv key)] [key] {}"
    by (auto simp: cascade_inv_def dep_edges_def)
  then show ?thesis
    unfolding cascade_invalidate_def using cascade_run_marks marks_refl by blast
qed

section \<open>Hard invalidation\<close>

text \<open>The keys that transitively depend on \<open>key\<close> through entries that are not invalidated, once \<open>key\<close>
  itself is.\<close>

definition depends_rel :: "(string, cache_entry) umap \<Rightarrow> string \<Rightarrow> (string \<times> string) set" where
  "depends_rel es key = {(k, d). d \<noteq> key \<and>
     (\<exists>e. um_find es d = Some e \<and> k \<in> set (e_depends_on e) \<and> e_status e \<noteq> INVALIDATED)}"

lemma dep_edges_depends_rel:
  assumes "l2_ok c" "um_find (l2_entries c) key = Some e"
  shows "dep_edges (l2_dep_rev c) (um_set key (harden r e) (l2_entries c)) = depends_rel (l2_entries c) key"
  using assms by (auto simp: dep_edges_def depends_rel_def l2_ok_def harden_def)

text \<open>C9. A hard invalidation with cascade marks exactly the entries it should, on any dependency
  graph, cyclic ones included: the key's entry becomes invalidated with confidence 0; every other entry
  that depends on it, directly or through entries that are not already invalidated, becomes stale with
  its confidence multiplied by a power of 0.3; every other entry is unchanged, and no key appears or
  disappears. Without cascade only the key's entry changes.\<close>

theorem hard_invalidate_exact:
  assumes "l2_ok c" "um_find (l2_entries c) key = Some e"
  shows "um_find (l2_entries (fst (snd (l2_hard_invalidate L key r casc c fs)))) key = Some (harden r e) \<and>
    (j \<noteq> key \<and> casc \<and> (key, j) \<in> (depends_rel (l2_entries c) key)\<^sup>+ \<longrightarrow>
       (\<exists>e0 n reason. um_find (l2_entries c) j = Some e0 \<and> 0 < n \<and>
          um_find (l2_entries (fst (snd (l2_hard_invalidate L key r casc c fs)))) j = Some (weaken n reason e0))) \<and>
    (j \<noteq> key \<and> \<not> (casc \<and> (key, j) \<in> (depends_rel (l2_entries c) key)\<^sup>+) \<longrightarrow>
       um_find (l2_entries (fst (snd (l2_hard_invalidate L key r casc c fs)))) j = um_find (l2_entries c) j)"
proof -
  let ?es = "um_set key (harden r e) (l2_entries c)"
  let ?R = "depends_rel (l2_entries c) key"
  have res: "l2_entries (fst (snd (l2_hard_invalidate L key r casc c fs))) =
      (if casc then cascade_invalidate key r (l2_dep_rev c) ?es else ?es)"
    using assms(2) by (simp add: l2_hard_invalidate_def l2_hard_invalidate_mem_def Let_def split: prod.split)
  have m: "marks ?es (cascade_invalidate key r (l2_dep_rev c) ?es) {x. (key, x) \<in> ?R\<^sup>+}"
    using cascade_invalidate_marks[of ?es key r "l2_dep_rev c"] dep_edges_depends_rel[OF assms] by simp
  have "(key, key) \<notin> ?R\<^sup>+"
  proof
    assume "(key, key) \<in> ?R\<^sup>+"
    then obtain x where "(x, key) \<in> ?R" by (meson tranclD2)
    then show False by (simp add: depends_rel_def)
  qed
  then have "um_find (cascade_invalidate key r (l2_dep_rev c) ?es) key = Some (harden r e)"
    using marks_notin[OF m, of key] by simp
  moreover have "\<exists>e0 n reason. um_find (l2_entries c) j = Some e0 \<and> 0 < n \<and>
      um_find (cascade_invalidate key r (l2_dep_rev c) ?es) j = Some (weaken n reason e0)"
    if "j \<noteq> key" "(key, j) \<in> ?R\<^sup>+"
  proof -
    have "j \<in> {x. (key, x) \<in> ?R\<^sup>+}" using that(2) by simp
    from marks_in[OF m this] show ?thesis using that(1) by auto
  qed
  moreover have "um_find (cascade_invalidate key r (l2_dep_rev c) ?es) j = um_find (l2_entries c) j"
    if "j \<noteq> key" "(key, j) \<notin> ?R\<^sup>+"
    using marks_notin[OF m, of j] that by simp
  ultimately show ?thesis unfolding res by simp
qed

definition dep_demo :: l2_cache where
  "dep_demo = l2_set_mem ''b'' (default_entry\<lparr>e_key := ''b'', e_confidence := 1, e_depends_on := [''a'']\<rparr>)
     (l2_set_mem ''a'' (default_entry\<lparr>e_key := ''a'', e_confidence := 1, e_depends_on := [''b'']\<rparr>) l2_new)"

lemma dep_demo_ok: "l2_ok dep_demo"
  unfolding dep_demo_def by (intro l2_ok_set l2_ok_new)

lemma dep_demo_find:
  "um_find (l2_entries dep_demo) ''a'' = Some (default_entry\<lparr>e_key := ''a'', e_confidence := 1, e_depends_on := [''b'']\<rparr>)"
  "um_find (l2_entries dep_demo) ''b'' = Some (default_entry\<lparr>e_key := ''b'', e_confidence := 1, e_depends_on := [''a'']\<rparr>)"
  by (simp_all add: dep_demo_def l2_set_mem_def Let_def l2_new_def)

theorem hard_invalidate_exact_witness:
  "\<exists>n reason. um_find (l2_entries (fst (snd (l2_hard_invalidate (sample_json (\<lambda>_. Inl ParseError) (\<lambda>_. Inr [])) ''a'' ''gone'' True
      dep_demo (\<lambda>_. None))))) ''b''
     = Some (weaken n reason (default_entry\<lparr>e_key := ''b'', e_confidence := 1, e_depends_on := [''a'']\<rparr>))"
proof -
  have "(''a'', ''b'') \<in> depends_rel (l2_entries dep_demo) ''a''"
    by (simp add: depends_rel_def dep_demo_find default_entry_def)
  then have "(''a'', ''b'') \<in> (depends_rel (l2_entries dep_demo) ''a'')\<^sup>+" by (rule r_into_trancl)
  then show ?thesis
    using hard_invalidate_exact[OF dep_demo_ok dep_demo_find(1), of
        "sample_json (\<lambda>_. Inl ParseError) (\<lambda>_. Inr [])" "''gone''" True "\<lambda>_. None" "''b''"] dep_demo_find(2)
    by auto
qed

end
