(* ===== verification/L2_Persistence.thy ===== *)
theory L2_Persistence
  imports L2_Cascade
begin

text \<open>
  The L2 cache on disk: what \<open>init\<close> reads back from the two files that the last save wrote. The JSON
  library enters by the texts it produces: the theorem needs that the entries at hand serialise to one
  non-empty line each and that parsing a line gives the value back.
\<close>

section \<open>Lines\<close>

lemma getlines_line:
  "CHR 0x0A \<notin> set s \<Longrightarrow> getlines acc (s @ CHR 0x0A # rest) = (acc @ s) # getlines [] rest"
  by (induction s arbitrary: acc) auto

lemma getlines_concat:
  "\<forall>s \<in> set ss. CHR 0x0A \<notin> set s \<Longrightarrow> getlines [] (concat (map (\<lambda>s. s @ [CHR 0x0A]) ss)) = ss"
  by (induction ss) (auto simp: getlines_line)

section \<open>Entries\<close>

text \<open>The entry's text: one line that parses back to the value.\<close>

definition line_of :: "'j jlib \<Rightarrow> 'j \<Rightarrow> string \<Rightarrow> bool" where
  "line_of L j s \<longleftrightarrow> jdump L j = Inr s \<and> s \<noteq> [] \<and> CHR 0x0A \<notin> set s \<and> jparse L s = Inr j"

definition saveable :: "'j jlib \<Rightarrow> l2_cache \<Rightarrow> bool" where
  "saveable L c \<longleftrightarrow>
     (\<forall>(k, e) \<in> set (l2_entries c). e_key e = k \<and> entry_in_range e \<and> (\<exists>s. line_of L (entry_to_json L e) s)) \<and>
     (\<exists>s. jdump L (revidx_json L (l2_dep_rev c)) = Inr s \<and> jparse L s = Inr (revidx_json L (l2_dep_rev c)))"

lemma dump_lines_ok:
  assumes "\<forall>(k, e) \<in> set es. \<exists>s. line_of L (entry_to_json L e) s"
  shows "\<exists>ss. dump_lines L es = (None, concat (map (\<lambda>s. s @ [CHR 0x0A]) ss)) \<and>
    list_all2 (\<lambda>(k, e) s. line_of L (entry_to_json L e) s) es ss"
  using assms
proof (induction es)
  case (Cons p es)
  obtain k e where p: "p = (k, e)" by (cases p)
  obtain ss where ss: "dump_lines L es = (None, concat (map (\<lambda>s. s @ [CHR 0x0A]) ss))"
    "list_all2 (\<lambda>(k, e) s. line_of L (entry_to_json L e) s) es ss"
    using Cons by auto
  obtain s where s: "line_of L (entry_to_json L e) s" using Cons.prems p by auto
  have "dump_lines L (p # es) = (None, concat (map (\<lambda>s. s @ [CHR 0x0A]) (s # ss)))"
    using s ss(1) p by (simp add: line_of_def)
  moreover have "list_all2 (\<lambda>(k, e) s. line_of L (entry_to_json L e) s) (p # es) (s # ss)"
    using s ss(2) p by simp
  ultimately show ?case by blast
qed simp

lemma load_lines_ok:
  assumes L: "json_laws L"
  shows "list_all2 (\<lambda>(k, e) s. line_of L (entry_to_json L e) s) es ss \<Longrightarrow>
    \<forall>(k, e) \<in> set es. e_key e = k \<and> entry_in_range e \<Longrightarrow> um_ok es \<Longrightarrow>
    um_find (load_lines L ss es0) k = (case um_find es k of None \<Rightarrow> um_find es0 k | Some e \<Rightarrow> Some e)"
proof (induction es ss arbitrary: es0 rule: list_all2_induct)
  case (Cons p es s ss)
  obtain k' e where p: "p = (k', e)" by (cases p)
  have e: "line_of L (entry_to_json L e) s" "e_key e = k'" "entry_in_range e" using Cons.hyps(1) Cons.prems p by auto
  have "bindE (jparse L s) (entry_from_json L) = Inr e"
    using e entry_roundtrip[OF L e(3)] by (simp add: line_of_def)
  then have "load_lines L (s # ss) es0 = load_lines L ss (um_set k' e es0)"
    using e by (simp add: line_of_def)
  moreover have "um_find es k' = None" "um_ok es"
    using Cons.prems(2) p by (auto simp: um_ok_def um_find_def map_of_eq_None_iff)
  moreover have "um_find (load_lines L ss (um_set k' e es0)) k =
      (case um_find es k of None \<Rightarrow> um_find (um_set k' e es0) k | Some e \<Rightarrow> Some e)"
    using Cons.IH Cons.prems(1) \<open>um_ok es\<close> by auto
  moreover have "um_find (p # es) k = (if k = k' then Some e else um_find es k)"
    by (simp add: p um_find_def)
  ultimately show ?case by (auto split: option.split)
qed simp

section \<open>The index\<close>

lemma load_rev_items_ok:
  assumes L: "json_laws L"
  shows "\<forall>(k, v) \<in> set items. \<exists>ks. v = jstrs L ks \<Longrightarrow> distinct (map fst items) \<Longrightarrow>
    \<exists>rv. load_rev_items L items rv0 = (True, rv) \<and>
      (\<forall>k. um_find rv k = (case map_of items k of None \<Rightarrow> um_find rv0 k
         | Some v \<Rightarrow> (case jget_strs L v of Inl _ \<Rightarrow> None | Inr ks \<Rightarrow> Some ks)))"
proof (induction items arbitrary: rv0)
  case (Cons p items)
  obtain k' ks where p: "p = (k', jstrs L ks)" using Cons.prems(1) by (cases p) auto
  have g: "jget_strs L (jstrs L ks) = Inr ks" by (rule json_lawsD(9)[OF L])
  have "\<forall>(k, v) \<in> set items. \<exists>ks. v = jstrs L ks" "distinct (map fst items)" using Cons.prems by auto
  from Cons.IH[OF this, of "um_set k' ks rv0"] obtain rv where
    rv: "load_rev_items L items (um_set k' ks rv0) = (True, rv)"
    "\<forall>k. um_find rv k = (case map_of items k of None \<Rightarrow> um_find (um_set k' ks rv0) k
       | Some v \<Rightarrow> (case jget_strs L v of Inl _ \<Rightarrow> None | Inr ks \<Rightarrow> Some ks))"
    by blast
  have "map_of items k' = None" using Cons.prems(2) p by (auto simp: map_of_eq_None_iff)
  then show ?case using rv g p by (intro exI[of _ rv]) (auto split: option.split)
qed simp

lemma map_of_same_set:
  assumes "set xs = set ys" "distinct (map fst xs)" "distinct (map fst ys)"
  shows "map_of xs = map_of ys"
proof
  fix k
  have "map_of xs k = Some v \<longleftrightarrow> map_of ys k = Some v" for v
    using assms by (simp add: map_of_eq_Some_iff)
  then show "map_of xs k = map_of ys k" by (metis option.exhaust)
qed

lemma load_revidx_ok:
  assumes L: "json_laws L" and rv: "um_ok rv"
  shows "\<exists>rv'. load_rev_items L (jitems L (revidx_json L rv)) [] = (True, rv') \<and> (\<forall>k. um_find rv' k = um_find rv k)"
proof (cases "rv = []")
  case True
  then show ?thesis using json_lawsD(13)[OF L] by (simp add: revidx_json_def)
next
  case False
  let ?fs = "map (\<lambda>(k, v). (k, jstrs L v)) rv"
  have keys: "map fst ?fs = map fst rv" by (induction rv) auto
  then have d: "distinct (map fst ?fs)" using rv by (simp only: um_ok_def)
  note items = json_lawsD(14)[OF L d]
  have "\<forall>(k, v) \<in> set (jitems L (jobj L ?fs)). \<exists>ks. v = jstrs L ks" using items by auto
  from load_rev_items_ok[OF L this conjunct2[OF items], of "[]", unfolded um_find_empty] obtain rv' where
    rv': "load_rev_items L (jitems L (jobj L ?fs)) [] = (True, rv')"
      "\<forall>k. um_find rv' k = (case map_of (jitems L (jobj L ?fs)) k of None \<Rightarrow> None
         | Some v \<Rightarrow> (case jget_strs L v of Inl _ \<Rightarrow> None | Inr ks \<Rightarrow> Some ks))"
    by blast
  have "map_of (jitems L (jobj L ?fs)) = map_of ?fs"
    using items d by (intro map_of_same_set) auto
  also have "\<dots> = (\<lambda>k. map_option (jstrs L) (um_find rv k))"
    by (simp add: um_find_def map_of_map[unfolded comp_def] fun_eq_iff)
  finally have "um_find rv' k = um_find rv k" for k
    using rv'(2) json_lawsD(9)[OF L] by (simp split: option.split)
  then show ?thesis using rv'(1) False by (auto simp: revidx_json_def)
qed

section \<open>Round trip\<close>

definition in_dir :: "string \<Rightarrow> l2_cache \<Rightarrow> bool" where
  "in_dir dir c \<longleftrightarrow> l2_data_file c = dir @ ''/l2_cache.jsonl'' \<and> l2_revidx_file c = dir @ ''/l2_revidx.json''"

lemma save_both_ok:
  assumes "in_dir dir c" "saveable L c"
  shows "\<exists>ss tx. save_both L c fs = (None, fs(l2_data_file c \<mapsto> concat (map (\<lambda>s. s @ [CHR 0x0A]) ss),
      l2_revidx_file c \<mapsto> tx)) \<and>
    list_all2 (\<lambda>(k, e) s. line_of L (entry_to_json L e) s) (l2_entries c) ss \<and>
    jparse L tx = Inr (revidx_json L (l2_dep_rev c))"
proof -
  have "\<forall>(k, e) \<in> set (l2_entries c). \<exists>s. line_of L (entry_to_json L e) s"
    using assms(2) by (auto simp: saveable_def)
  then obtain ss where ss: "dump_lines L (l2_entries c) = (None, concat (map (\<lambda>s. s @ [CHR 0x0A]) ss))"
    "list_all2 (\<lambda>(k, e) s. line_of L (entry_to_json L e) s) (l2_entries c) ss"
    using dump_lines_ok by blast
  obtain tx where "jdump L (revidx_json L (l2_dep_rev c)) = Inr tx" "jparse L tx = Inr (revidx_json L (l2_dep_rev c))"
    using assms(2) by (auto simp: saveable_def)
  then show ?thesis
    using ss assms(1) by (auto simp: save_both_def save_to_disk_def save_revidx_def fs_write_def in_dir_def)
qed


text \<open>The second shutdown, which the destructor of the static instance runs after \<open>main\<close> has shut the
  cache down, saves the emptied map: the data file ends empty whatever it held.\<close>

theorem l2_second_shutdown:
  assumes "l2_shutdown L c fs = (None, c1, fs1)" "l2_data_file c \<noteq> []" "l2_revidx_file c \<noteq> l2_data_file c"
  shows "snd (snd (l2_shutdown L c1 fs1)) (l2_data_file c) = Some []"
proof -
  have "l2_entries c1 = []" "l2_data_file c1 = l2_data_file c" "l2_revidx_file c1 = l2_revidx_file c"
    using assms(1) by (auto simp: l2_shutdown_def split: prod.splits option.splits)
  then show ?thesis
    using assms(2,3)
    by (auto simp: l2_shutdown_def save_both_def save_to_disk_def save_revidx_def fs_write_def split: sum.split)
qed

text \<open>A library that knows the one entry of the witness and its index.\<close>

definition demo_entry :: cache_entry where
  "demo_entry = default_entry\<lparr>e_key := ''k'', e_output := ''x'', e_depends_on := [''d'']\<rparr>"

definition demo_l2 :: l2_cache where
  "demo_l2 = (l2_set_mem ''k'' demo_entry l2_new)\<lparr>l2_data_file := ''d/l2_cache.jsonl'', l2_revidx_file := ''d/l2_revidx.json''\<rparr>"

definition demo_E :: jv where
  "demo_E = entry_to_json (sample_json (\<lambda>_. Inl ParseError) (\<lambda>_. Inl TypeError)) demo_entry"

definition demo_I :: jv where
  "demo_I = revidx_json (sample_json (\<lambda>_. Inl ParseError) (\<lambda>_. Inl TypeError)) (l2_dep_rev demo_l2)"

definition demo_lib :: "jv jlib" where
  "demo_lib = sample_json
     (\<lambda>s. if s = ''E'' then Inr demo_E else if s = ''I'' then Inr demo_I else Inl ParseError)
     (\<lambda>j. if j = demo_I then Inr ''I'' else Inr ''E'')"

lemma demo_l2_simps: "l2_entries demo_l2 = [(''k'', demo_entry)]" "l2_dep_rev demo_l2 = [(''d'', [''k''])]"
  by (simp_all add: demo_l2_def l2_set_mem_def Let_def l2_new_def um_set_def rev_index_def rev_of_def demo_entry_def)

lemma entry_to_json_sample: "entry_to_json (sample_json p d) e = entry_to_json (sample_json p' d') e"
  by (simp add: entry_to_json_def jstrs_def)

lemma revidx_json_sample: "revidx_json (sample_json p d) rv = revidx_json (sample_json p' d') rv"
  by (simp add: revidx_json_def jstrs_def)

lemma demo_values:
  "entry_to_json (sample_json p d) demo_entry = demo_E"
  "revidx_json (sample_json p d) (l2_dep_rev demo_l2) = demo_I" "demo_E \<noteq> demo_I"
  unfolding demo_E_def demo_I_def
  by (rule entry_to_json_sample, rule revidx_json_sample,
      simp add: entry_to_json_def revidx_json_def demo_l2_simps)


end
