(* ===== verification/L3_Archive.thy ===== *)
theory L3_Archive
  imports L2_Cache
begin

text \<open>
  \<open>gw::L3ArchiveStore\<close> (\<open>src/agent_cache.cpp\<close>): full outputs and archived sessions as files, one per
  key and day. \<open>std::hash\<close> and the local calendar are fields of \<open>env\<close>, because the standard leaves the
  first to the implementation and the second depends on the time zone. A reference is \<open>l3://\<close> and the
  path.
\<close>

section \<open>Model\<close>

record env =
  env_hash :: "string \<Rightarrow> nat"                  \<comment> \<open>\<open>std::hash<std::string>\<close>\<close>
  env_date :: "int \<Rightarrow> nat \<times> nat \<times> nat"         \<comment> \<open>\<open>localtime\<close> of seconds: year, month, day\<close>

fun nat_to_hex :: "nat \<Rightarrow> string" where
  "nat_to_hex n =
     (let d = \<lambda>k. if k < 10 then char_of (48 + k) else char_of (87 + k) in
      if n < 16 then [d n] else nat_to_hex (n div 16) @ [d (n mod 16)])"

declare nat_to_hex.simps [simp del]

text \<open>\<open>setfill('0') << setw(w) << n\<close>\<close>

definition pad0 :: "nat \<Rightarrow> nat \<Rightarrow> string" where
  "pad0 w n = replicate (w - length (nat_to_string n)) (CHR ''0'') @ nat_to_string n"

definition make_key_path :: "env \<Rightarrow> string \<Rightarrow> string \<Rightarrow> int \<Rightarrow> string" where
  "make_key_path E base_dir key ts_ms =
     (case env_date E (ts_ms div 1000) of (y, m, d) \<Rightarrow>
        base_dir @ ''/'' @ pad0 4 y @ pad0 2 m @ pad0 2 d @ ''/'' @ nat_to_hex (env_hash E key) @ ''.json'')"

definition l3_put :: "env \<Rightarrow> string \<Rightarrow> int \<Rightarrow> string \<Rightarrow> string \<Rightarrow> fs \<Rightarrow> string \<times> fs" where
  "l3_put E base_dir ts key traces_json fs =
     (let path = make_key_path E base_dir key ts in (''l3://'' @ path, fs_write path traces_json fs))"

definition ref_to_path :: "string \<Rightarrow> string" where
  "ref_to_path ref = (if starts_with ''l3://'' ref then drop 5 ref else ref)"

definition l3_get :: "string \<Rightarrow> fs \<Rightarrow> string option" where
  "l3_get ref fs = fs (ref_to_path ref)"

definition int_to_string :: "int \<Rightarrow> string" where
  "int_to_string i = (if i < 0 then ''-'' @ nat_to_string (nat (- i)) else nat_to_string (nat i))"

definition append_audit_log :: "env \<Rightarrow> string \<Rightarrow> int \<Rightarrow> string \<Rightarrow> string \<Rightarrow> fs \<Rightarrow> fs" where
  "append_audit_log E base_dir ts key event fs =
     (let path = make_key_path E base_dir key ts @ ''.audit'';
          old = (case fs path of None \<Rightarrow> [] | Some s \<Rightarrow> s) in
      fs_write path (old @ int_to_string ts @ '' '' @ event @ [CHR 0x0A]) fs)"

section \<open>Round trip\<close>

lemma make_key_path_ne [simp]: "make_key_path E b k t \<noteq> []"
  by (simp add: make_key_path_def split: prod.split)

lemma ref_to_path_l3 [simp]: "ref_to_path (''l3://'' @ p) = p"
  by (simp add: ref_to_path_def starts_with_def)

lemmas ref_to_path_chars [simp] = ref_to_path_l3 [simplified append.simps]

lemma make_key_path_json: "\<exists>p. make_key_path E b k t = p @ ''.json''"
  by (auto simp: make_key_path_def split: prod.split)

lemma audit_path_differs: "make_key_path E b k t @ ''.audit'' \<noteq> make_key_path E' b' k' t'"
proof
  assume "make_key_path E b k t @ ''.audit'' = make_key_path E' b' k' t'"
  then obtain p where "make_key_path E b k t @ ''.audit'' = p @ ''.json''" using make_key_path_json by metis
  then have "last (make_key_path E b k t @ ''.audit'') = last (p @ ''.json'')" by simp
  then show False by simp
qed

lemma l3_get_put: "l3_get (fst (l3_put E b ts k s fs)) (snd (l3_put E b ts k s fs)) = Some s"
  by (simp add: l3_put_def l3_get_def Let_def fs_write_def)

lemma l3_put_other: "p \<noteq> make_key_path E b k ts \<Longrightarrow> snd (l3_put E b ts k s fs) p = fs p"
  by (simp add: l3_put_def Let_def fs_write_def)

text \<open>An archived text is what its reference returns: reading the reference of a \<open>put\<close> gives the
  text back, after any later writes of other keys or days (other paths) and after any audit records,
  which never touch an archive file; and a \<open>put\<close> changes no other file.\<close>

theorem l3_roundtrip:
  assumes "\<forall>(k', ts', s') \<in> set puts. make_key_path E b k' ts' \<noteq> make_key_path E b k ts"
  shows "l3_get (fst (l3_put E b ts k s fs))
      (fold (\<lambda>(k', ts', ev) fs. append_audit_log E b ts' k' ev fs) audits
        (fold (\<lambda>(k', ts', s') fs. snd (l3_put E b ts' k' s' fs)) puts (snd (l3_put E b ts k s fs)))) = Some s \<and>
    (p \<noteq> make_key_path E b k ts \<longrightarrow> snd (l3_put E b ts k s fs) p = fs p)"
proof -
  let ?path = "make_key_path E b k ts"
  have "fold (\<lambda>(k', ts', s') fs. snd (l3_put E b ts' k' s' fs)) puts fs ?path = fs ?path" for fs
    using assms by (induction puts arbitrary: fs) (auto simp: l3_put_def Let_def fs_write_def)
  moreover have "fold (\<lambda>(k', ts', ev) fs. append_audit_log E b ts' k' ev fs) audits fs ?path = fs ?path" for fs
    by (induction audits arbitrary: fs)
       (auto simp: append_audit_log_def Let_def fs_write_def audit_path_differs[symmetric])
  ultimately show ?thesis using l3_put_other by (simp add: l3_get_def l3_put_def Let_def fs_write_def)
qed

definition demo_env :: env where
  "demo_env = \<lparr>env_hash = length, env_date = (\<lambda>_. (2025, 1, 2))\<rparr>"

theorem l3_roundtrip_witness:
  "l3_get (fst (l3_put demo_env ''d'' 0 ''k'' ''x'' (\<lambda>_. None)))
     (snd (l3_put demo_env ''d'' 0 ''kk'' ''y'' (snd (l3_put demo_env ''d'' 0 ''k'' ''x'' (\<lambda>_. None))))) = Some ''x''"
  using l3_roundtrip[of "[(''kk'', 0, ''y'')]" demo_env "''d''" "''k''" 0 "''x''" "\<lambda>_. None" "[]"]
  by (simp add: make_key_path_def demo_env_def nat_to_hex.simps)

end
