(* ===== verification/L3_Listing.thy ===== *)
theory L3_Listing
  imports L3_Archive
begin

text \<open>
  \<open>L3ArchiveStore::list_by_date\<close> (\<open>src/agent_cache.cpp\<close>), and what it lists of an archive. A directory
  iterator is its entries, in the order the file system gives them, with a flag that says whether an
  exception ends it; the exceptions of the walk are swallowed and what was found so far is returned.
\<close>

section \<open>Model\<close>

type_synonym 'a listing = "'a list \<times> bool"

fun walk_dates :: "(string \<Rightarrow> string listing) \<Rightarrow> (string \<times> bool) list \<Rightarrow> string list \<Rightarrow> string list" where
  "walk_dates files [] result = result"
| "walk_dates files ((date, is_directory) # dates) result =
     (if \<not> is_directory then walk_dates files dates result
      else case files date of (entries, throws) \<Rightarrow>
        let result = result @ filter (\<lambda>p. path_extension p \<noteq> ''.audit'') entries in
        if throws then result else walk_dates files dates result)"

definition list_by_date ::
  "(string \<times> bool) listing \<Rightarrow> (string \<Rightarrow> string listing) \<Rightarrow> int \<Rightarrow> int \<Rightarrow> string list" where
  "list_by_date base files start_ms end_ms = walk_dates files (fst base) []"

text \<open>The archive after a sequence of operations.\<close>

datatype l3_op = Put string int string | Audit string int string

fun l3_exec :: "env \<Rightarrow> string \<Rightarrow> l3_op \<Rightarrow> fs \<Rightarrow> fs" where
  "l3_exec E base_dir (Put key ts traces) fs = snd (l3_put E base_dir ts key traces fs)"
| "l3_exec E base_dir (Audit key ts event) fs = append_audit_log E base_dir ts key event fs"

section \<open>Directories\<close>

definition dir_of :: "string \<Rightarrow> string" where
  "dir_of p = rev (tl (dropWhile (\<lambda>c. c \<noteq> CHR ''/'') (rev p)))"

text \<open>What a directory iterator promises: below \<open>base_dir\<close> it gives each directory once, among them every
  one that holds a file, and below such a directory each of its files once. (Were the base to end in a slash,
  the iterator's paths would not be spelt as the archive spells them.)\<close>

definition lists_archive :: "fs \<Rightarrow> string \<Rightarrow> (string \<times> bool) listing \<Rightarrow> (string \<Rightarrow> string listing) \<Rightarrow> bool" where
  "lists_archive fs base_dir base files \<longleftrightarrow> base_dir \<noteq> [] \<and> last base_dir \<noteq> CHR ''/'' \<and> distinct (map fst (fst base)) \<and>
     (\<forall>p. fs p \<noteq> None \<and> dir_of (dir_of p) = base_dir \<longrightarrow> (dir_of p, True) \<in> set (fst base)) \<and>
     (\<forall>date. (date, True) \<in> set (fst base) \<longrightarrow> dir_of date = base_dir \<and> \<not> snd (files date) \<and>
        distinct (fst (files date)) \<and> set (fst (files date)) = {p. fs p \<noteq> None \<and> dir_of p = date})"

section \<open>Paths of the archive\<close>

lemma dir_of_child: "CHR ''/'' \<notin> set name \<Longrightarrow> dir_of (d @ CHR ''/'' # name) = d"
  by (simp add: dir_of_def dropWhile_append)

lemma digits_no_slash: "CHR ''/'' \<notin> set (nat_to_string n)"
  using nat_to_string_digits[of "CHR ''/''" n] by auto

definition hex_char :: "nat \<Rightarrow> char" where
  "hex_char d = (if d < 10 then char_of (48 + d) else char_of (87 + d))"

lemma of_hex_char: "d < 16 \<Longrightarrow> of_char (hex_char d) = (if d < 10 then 48 + d else 87 + d)"
  by (simp add: hex_char_def)

lemma hex_char_neq: "d < 16 \<Longrightarrow> hex_char d \<noteq> CHR ''/'' \<and> hex_char d \<noteq> CHR ''.''"
  using of_hex_char[of d] by (auto split: if_splits)

lemma nat_to_hex_simps: "nat_to_hex n = (if n < 16 then [hex_char n] else nat_to_hex (n div 16) @ [hex_char (n mod 16)])"
  by (subst nat_to_hex.simps) (simp add: Let_def hex_char_def)

lemma hex_chars: "CHR ''/'' \<notin> set (nat_to_hex n)" "CHR ''.'' \<notin> set (nat_to_hex n)" "nat_to_hex n \<noteq> []"
proof -
  have "set (nat_to_hex n) \<inter> {CHR ''/'', CHR ''.''} = {}"
  proof (induction n rule: nat_to_hex.induct)
    case (1 n)
    then show ?case using hex_char_neq[of n] hex_char_neq[of "n mod 16"] by (subst nat_to_hex_simps) auto
  qed
  then show "CHR ''/'' \<notin> set (nat_to_hex n)" "CHR ''.'' \<notin> set (nat_to_hex n)" by auto
  show "nat_to_hex n \<noteq> []" by (subst nat_to_hex_simps) simp
qed

lemma extension_of:
  assumes "CHR ''/'' \<notin> set stem" "CHR ''/'' \<notin> set ext" "CHR ''.'' \<notin> set ext" "stem \<noteq> []" "ext \<noteq> []"
  shows "path_extension (d @ CHR ''/'' # stem @ CHR ''.'' # ext) = CHR ''.'' # ext"
proof -
  have name: "file_name (d @ CHR ''/'' # stem @ CHR ''.'' # ext) = stem @ CHR ''.'' # ext"
    using assms(1,2) by (simp add: file_name_def takeWhile_append)
  have rest: "dropWhile (\<lambda>c. c \<noteq> CHR ''.'') (rev (stem @ CHR ''.'' # ext)) = CHR ''.'' # rev stem"
      "takeWhile (\<lambda>c. c \<noteq> CHR ''.'') (rev (stem @ CHR ''.'' # ext)) = rev ext"
    using assms(3) by (simp_all add: dropWhile_append takeWhile_append)
  have "stem @ CHR ''.'' # ext \<noteq> ''..''" using assms(4,5) by (cases stem; cases ext) auto
  then show ?thesis using assms(4) by (simp only: path_extension_def Let_def name rest) simp
qed

lemma key_path:
  obtains date hex where "make_key_path E b k ts = b @ CHR ''/'' # date @ CHR ''/'' # hex @ ''.json''" "CHR ''/'' \<notin> set date"
    "CHR ''/'' \<notin> set hex" "hex \<noteq> []"
proof -
  obtain y m d where e: "env_date E (ts div 1000) = (y, m, d)" by (cases "env_date E (ts div 1000)")
  have "CHR ''/'' \<notin> set (pad0 w n)" for w n using digits_no_slash[of n] by (simp add: pad0_def)
  then have "CHR ''/'' \<notin> set (pad0 4 y @ pad0 2 m @ pad0 2 d)" by simp
  moreover have "make_key_path E b k ts =
      b @ CHR ''/'' # (pad0 4 y @ pad0 2 m @ pad0 2 d) @ CHR ''/'' # nat_to_hex (env_hash E k) @ ''.json''"
    by (simp add: make_key_path_def e)
  ultimately show ?thesis using that hex_chars(1,3) by blast
qed

lemma key_dir: "dir_of (dir_of (make_key_path E b k ts)) = b" "dir_of (dir_of (make_key_path E b k ts @ ''.audit'')) = b"
proof -
  obtain date hex where k: "make_key_path E b k ts = b @ CHR ''/'' # date @ CHR ''/'' # hex @ ''.json''" "CHR ''/'' \<notin> set date"
    "CHR ''/'' \<notin> set hex" by (rule key_path)
  have "dir_of ((b @ CHR ''/'' # date) @ CHR ''/'' # hex @ x) = b @ CHR ''/'' # date" if "CHR ''/'' \<notin> set x" for x
    using k(3) that by (intro dir_of_child) simp
  from this[of "''.json''"] this[of "''.json.audit''"]
  show "dir_of (dir_of (make_key_path E b k ts)) = b" "dir_of (dir_of (make_key_path E b k ts @ ''.audit'')) = b"
    using dir_of_child[OF k(2), of b] by (simp_all add: k(1))
qed

lemma key_extension:
  "path_extension (make_key_path E b k ts) = ''.json''" "path_extension (make_key_path E b k ts @ ''.audit'') = ''.audit''"
proof -
  obtain date hex where k: "make_key_path E b k ts = b @ CHR ''/'' # date @ CHR ''/'' # hex @ ''.json''"
    "CHR ''/'' \<notin> set hex" "hex \<noteq> []" by (rule key_path)
  show "path_extension (make_key_path E b k ts) = ''.json''"
    using extension_of[of hex "''json''" "b @ CHR ''/'' # date"] k by simp
  show "path_extension (make_key_path E b k ts @ ''.audit'') = ''.audit''"
    using extension_of[of "hex @ ''.json''" "''audit''" "b @ CHR ''/'' # date"] k by simp
qed

section \<open>What the operations leave\<close>

fun op_path :: "env \<Rightarrow> string \<Rightarrow> l3_op \<Rightarrow> string" where
  "op_path E b (Put key ts traces) = make_key_path E b key ts"
| "op_path E b (Audit key ts event) = make_key_path E b key ts @ ''.audit''"

lemma exec_files: "l3_exec E b op fs p \<noteq> None \<longleftrightarrow> fs p \<noteq> None \<or> p = op_path E b op"
  by (cases op) (auto simp: l3_put_def append_audit_log_def Let_def fs_write_def)

lemma run_files: "fold (l3_exec E b) ops fs p \<noteq> None \<longleftrightarrow> fs p \<noteq> None \<or> p \<in> op_path E b ` set ops"
proof (induction ops arbitrary: fs)
  case (Cons op ops)
  have "fold (l3_exec E b) (op # ops) fs p \<noteq> None \<longleftrightarrow> (fs p \<noteq> None \<or> p = op_path E b op) \<or> p \<in> op_path E b ` set ops"
    unfolding exec_files[symmetric] using Cons.IH[of "l3_exec E b op fs"] by (simp only: fold.simps comp_apply)
  then show ?case by (simp only: list.set image_insert insert_iff) blast
qed simp

lemma op_path_dir: "dir_of (dir_of (op_path E b op)) = b"
  by (cases op) (simp_all add: key_dir)

lemma op_path_extension: "path_extension (op_path E b op) = ''.audit'' \<longleftrightarrow> (\<exists>key ts event. op = Audit key ts event)"
  by (cases op) (simp_all add: key_extension)

lemma put_paths:
  "p \<in> op_path E b ` set ops \<and> path_extension p \<noteq> ''.audit'' \<longleftrightarrow>
     (\<exists>key ts traces. p = make_key_path E b key ts \<and> Put key ts traces \<in> set ops)"
proof
  assume "p \<in> op_path E b ` set ops \<and> path_extension p \<noteq> ''.audit''"
  then obtain op where "op \<in> set ops" "p = op_path E b op" "path_extension p \<noteq> ''.audit''" by blast
  then show "\<exists>key ts traces. p = make_key_path E b key ts \<and> Put key ts traces \<in> set ops"
    by (cases op rule: l3_op.exhaust) (auto simp: key_extension)
next
  assume "\<exists>key ts traces. p = make_key_path E b key ts \<and> Put key ts traces \<in> set ops"
  then show "p \<in> op_path E b ` set ops \<and> path_extension p \<noteq> ''.audit''" by (force simp: key_extension)
qed

text \<open>An archive file holds what some \<open>put\<close> wrote to its path.\<close>

lemma run_contents:
  assumes "Put key ts traces \<in> set ops"
  shows "\<exists>key' ts' traces'. Put key' ts' traces' \<in> set ops \<and> make_key_path E b key' ts' = make_key_path E b key ts \<and>
    fold (l3_exec E b) ops fs (make_key_path E b key ts) = Some traces'"
  using assms
proof (induction ops rule: rev_induct)
  case (snoc op ops)
  let ?p = "make_key_path E b key ts"
  show ?case
  proof (cases "\<exists>key' ts' traces'. op = Put key' ts' traces' \<and> make_key_path E b key' ts' = ?p")
    case True
    then obtain key' ts' traces' where op: "op = Put key' ts' traces'" "make_key_path E b key' ts' = ?p" by blast
    then have "fold (l3_exec E b) (ops @ [op]) fs ?p = Some traces'"
      by (simp add: l3_put_def Let_def fs_write_def)
    then show ?thesis using op by (metis in_set_conv_decomp)
  next
    case False
    then have "l3_exec E b op fs' ?p = fs' ?p" for fs'
      by (cases op) (auto simp: l3_put_def append_audit_log_def Let_def fs_write_def audit_path_differs[symmetric])
    moreover have "Put key ts traces \<in> set ops" using snoc.prems False by auto
    ultimately show ?thesis using snoc.IH by auto
  qed
qed simp

section \<open>The listing\<close>

definition kept :: "(string \<Rightarrow> string listing) \<Rightarrow> string \<times> bool \<Rightarrow> string list" where
  "kept files = (\<lambda>(date, is_directory).
     if is_directory then filter (\<lambda>p. path_extension p \<noteq> ''.audit'') (fst (files date)) else [])"

lemma in_kept: "p \<in> set (kept files d) \<longleftrightarrow> snd d \<and> p \<in> set (fst (files (fst d))) \<and> path_extension p \<noteq> ''.audit''"
  by (cases d) (simp add: kept_def)

lemma walk_dates_all:
  assumes "\<forall>date. (date, True) \<in> set dates \<longrightarrow> \<not> snd (files date)"
  shows "walk_dates files dates result = result @ concat (map (kept files) dates)"
  using assms
proof (induction dates arbitrary: result)
  case (Cons d dates)
  obtain date is_dir where d: "d = (date, is_dir)" by (cases d)
  obtain entries throws where e: "files date = (entries, throws)" by (cases "files date")
  have t: "is_dir \<longrightarrow> \<not> throws" "\<forall>date. (date, True) \<in> set dates \<longrightarrow> \<not> snd (files date)" using Cons.prems d e by auto
  show ?case using Cons.IH[OF t(2)] t(1) by (cases is_dir) (simp_all add: d e kept_def Let_def)
qed simp

lemma distinct_listing:
  assumes "distinct (map fst dates)"
    "\<forall>date. (date, True) \<in> set dates \<longrightarrow> distinct (fst (files date)) \<and> (\<forall>p \<in> set (fst (files date)). dir_of p = date)"
  shows "distinct (concat (map (kept files) dates))"
  using assms
proof (induction dates)
  case (Cons d dates)
  obtain date is_dir where d: "d = (date, is_dir)" by (cases d)
  have here: "distinct (kept files d)" "\<forall>p \<in> set (kept files d). dir_of p = date" using Cons.prems(2) d by (auto simp: kept_def)
  have "dir_of p \<in> fst ` set dates" if p: "p \<in> set (concat (map (kept files) dates))" for p
  proof -
    obtain d' where d': "d' \<in> set dates" "p \<in> set (kept files d')" using p by auto
    then obtain date' where "d' = (date', True)" "p \<in> set (fst (files date'))" by (auto simp: kept_def split: if_splits prod.splits)
    then have "dir_of p = fst d'" using Cons.prems(2) d'(1) by simp
    then show ?thesis using d'(1) by simp
  qed
  then have "set (kept files d) \<inter> set (concat (map (kept files) dates)) = {}" using here(2) Cons.prems(1) d by fastforce
  moreover have "distinct (concat (map (kept files) dates))" using Cons by simp
  ultimately show ?case using here(1) by simp
qed simp

text \<open>C35. The listing of an archive is exact: after any sequence of archived texts and audit records, it
  names every file that a \<open>put\<close> wrote, once, and nothing else, in particular no audit log; and each name it
  gives can be read back, to a text that a \<open>put\<close> stored under that path. It does so for every range of
  dates asked for: the range is not looked at.\<close>

theorem l3_listing_exact:
  assumes "lists_archive (fold (l3_exec E b) ops fs) b base files" "\<forall>p. fs p \<noteq> None \<longrightarrow> dir_of (dir_of p) \<noteq> b"
  shows "set (list_by_date base files start_ms end_ms) = {make_key_path E b key ts | key ts traces. Put key ts traces \<in> set ops} \<and>
    distinct (list_by_date base files start_ms end_ms) \<and>
    (\<forall>p \<in> set (list_by_date base files start_ms end_ms). \<exists>key ts traces. Put key ts traces \<in> set ops \<and>
       p = make_key_path E b key ts \<and> l3_get (''l3://'' @ p) (fold (l3_exec E b) ops fs) = Some traces)"
proof -
  let ?fs = "fold (l3_exec E b) ops fs" and ?out = "list_by_date base files start_ms end_ms"
  note ok = assms(1)[unfolded lists_archive_def]
  have ok1: "distinct (map fst (fst base))" using ok by simp
  have ok2: "(dir_of p, True) \<in> set (fst base)" if "?fs p \<noteq> None" "dir_of (dir_of p) = b" for p using ok that by blast
  have ok3: "dir_of date = b" "\<not> snd (files date)" "distinct (fst (files date))"
      "set (fst (files date)) = {p. ?fs p \<noteq> None \<and> dir_of p = date}" if "(date, True) \<in> set (fst base)" for date
    using ok that by auto
  have out: "?out = concat (map (kept files) (fst base))"
    unfolding list_by_date_def using walk_dates_all[of "fst base" files "[]"] ok3(2) by simp
  have here: "p \<in> set ?out \<longleftrightarrow> (dir_of p, True) \<in> set (fst base) \<and> ?fs p \<noteq> None \<and> path_extension p \<noteq> ''.audit''" for p
  proof
    assume "p \<in> set ?out"
    then obtain date where "(date, True) \<in> set (fst base)" "p \<in> set (fst (files date))" "path_extension p \<noteq> ''.audit''"
      unfolding out by (auto simp: in_kept)
    then show "(dir_of p, True) \<in> set (fst base) \<and> ?fs p \<noteq> None \<and> path_extension p \<noteq> ''.audit''" using ok3(4)[of date] by simp
  next
    assume p: "(dir_of p, True) \<in> set (fst base) \<and> ?fs p \<noteq> None \<and> path_extension p \<noteq> ''.audit''"
    then have "p \<in> set (kept files (dir_of p, True))" using ok3(4)[of "dir_of p"] by (simp add: in_kept)
    with p show "p \<in> set ?out" unfolding out by auto
  qed
  have mem: "p \<in> set ?out \<longleftrightarrow> p \<in> op_path E b ` set ops \<and> path_extension p \<noteq> ''.audit''" for p
    unfolding here using ok2[of p] ok3(1)[of "dir_of p"] assms(2) op_path_dir[of E b] unfolding run_files by blast
  have put: "p \<in> set ?out \<longleftrightarrow> (\<exists>key ts traces. p = make_key_path E b key ts \<and> Put key ts traces \<in> set ops)" for p
    unfolding mem by (rule put_paths)
  moreover have "distinct ?out" unfolding out using ok1 ok3(3,4) by (intro distinct_listing) auto
  moreover have "\<exists>key ts traces. Put key ts traces \<in> set ops \<and> p = make_key_path E b key ts \<and> l3_get (''l3://'' @ p) ?fs = Some traces"
    if p: "p \<in> set ?out" for p
  proof -
    obtain key ts traces where k: "p = make_key_path E b key ts" "Put key ts traces \<in> set ops" using p unfolding put by blast
    show ?thesis using run_contents[OF k(2), of E b fs] unfolding k(1) l3_get_def ref_to_path_l3 by metis
  qed
  ultimately show ?thesis by auto
qed

definition demo_listing_ops :: "l3_op list" where
  "demo_listing_ops = [Put ''k'' 0 ''x'', Audit ''k'' 0 ''seen'']"

theorem l3_listing_exact_witness:
  "set (list_by_date ([(''d/20250102'', True)], False)
      (\<lambda>_. ([''d/20250102/1.json.audit'', ''d/20250102/1.json''], False)) 5 6) =
     {make_key_path demo_env ''d'' key ts | key ts traces. Put key ts traces \<in> set demo_listing_ops}"
proof -
  let ?fs = "fold (l3_exec demo_env ''d'') demo_listing_ops (\<lambda>_. None)"
  have path: "make_key_path demo_env ''d'' ''k'' 0 = ''d/20250102/1.json''" by code_simp
  have zero: "int_to_string 0 = ''0''" by code_simp
  have fs: "?fs = [''d/20250102/1.json'' \<mapsto> ''x'', ''d/20250102/1.json.audit'' \<mapsto> ''0 seen'' @ [CHR 0x0A]]"
    by (simp add: demo_listing_ops_def l3_put_def append_audit_log_def path zero Let_def fs_write_def)
  have "lists_archive ?fs ''d'' ([(''d/20250102'', True)], False)
      (\<lambda>_. ([''d/20250102/1.json.audit'', ''d/20250102/1.json''], False))"
    unfolding fs by (auto simp: lists_archive_def dir_of_def)
  from l3_listing_exact[OF this, of 5 6] show ?thesis by simp
qed

end
