(* ===== verification/Agent_Registry.thy ===== *)
theory Agent_Registry
  imports Agent_Types
begin

text \<open>
  \<open>gw::AgentRegistry\<close> (\<open>src/agent_cache.cpp\<close>): the registered agents by session, the index from a
  capability's name to the sessions that offer it, and the choice of the agent for a call.
\<close>

section \<open>Model\<close>

record agent_registry =
  reg_agents :: "(string, agent_record) umap"
  reg_cap_index :: "(string, string list) umap"

definition reg_empty :: agent_registry where
  "reg_empty = \<lparr>reg_agents = [], reg_cap_index = []\<rparr>"

definition idx_of :: "(string, string list) umap \<Rightarrow> string \<Rightarrow> string list" where
  "idx_of idx cap = (case um_find idx cap of None \<Rightarrow> [] | Some v \<Rightarrow> v)"

definition cap_names :: "agent_record \<Rightarrow> string list" where
  "cap_names r = map ac_name (ar_capabilities r)"

definition cap_unindex :: "string \<Rightarrow> string \<Rightarrow> (string, string list) umap \<Rightarrow> (string, string list) umap" where
  "cap_unindex sid cap idx = um_set cap (removeAll sid (idx_of idx cap)) idx"

definition cap_index :: "string \<Rightarrow> string \<Rightarrow> (string, string list) umap \<Rightarrow> (string, string list) umap" where
  "cap_index sid cap idx =
     (let v = idx_of idx cap in um_set cap (if sid \<in> set v then v else v @ [sid]) idx)"

text \<open>The same through \<open>find\<close>; an emptied list is erased.\<close>

definition cap_unindex_found :: "string \<Rightarrow> string \<Rightarrow> (string, string list) umap \<Rightarrow> (string, string list) umap" where
  "cap_unindex_found sid cap idx =
     (case um_find idx cap of
        None \<Rightarrow> idx
      | Some v \<Rightarrow> let v' = removeAll sid v in if v' = [] then um_erase cap idx else um_set cap v' idx)"

definition register_agent :: "string \<Rightarrow> agent_record \<Rightarrow> agent_registry \<Rightarrow> agent_registry" where
  "register_agent sid r reg =
     (let idx = (case um_find (reg_agents reg) sid of
                   None \<Rightarrow> reg_cap_index reg
                 | Some old \<Rightarrow> fold (cap_unindex sid) (cap_names old) (reg_cap_index reg)) in
      reg\<lparr>reg_agents := um_set sid r (reg_agents reg), reg_cap_index := fold (cap_index sid) (cap_names r) idx\<rparr>)"

definition unregister_agent :: "string \<Rightarrow> agent_registry \<Rightarrow> agent_registry" where
  "unregister_agent sid reg =
     (case um_find (reg_agents reg) sid of
        None \<Rightarrow> reg
      | Some r \<Rightarrow> reg\<lparr>reg_cap_index := fold (cap_unindex_found sid) (cap_names r) (reg_cap_index reg),
                     reg_agents := um_erase sid (reg_agents reg)\<rparr>)"

text \<open>The loop of \<open>route\<close>: the first healthy agent with the least load.\<close>

fun route_loop :: "(string, agent_record) umap \<Rightarrow> string list \<Rightarrow> agent_record option \<Rightarrow> agent_record option" where
  "route_loop agents [] best = best"
| "route_loop agents (sid # sids) best =
     (case um_find agents sid of
        None \<Rightarrow> route_loop agents sids best
      | Some r \<Rightarrow>
          if \<not> ar_healthy r then route_loop agents sids best
          else if (case best of None \<Rightarrow> True | Some b \<Rightarrow> ar_active_calls r < ar_active_calls b)
               then route_loop agents sids (Some r)
               else route_loop agents sids best)"

definition agent_route :: "string \<Rightarrow> agent_registry \<Rightarrow> agent_record option" where
  "agent_route capability reg =
     (case um_find (reg_cap_index reg) capability of
        None \<Rightarrow> None
      | Some sids \<Rightarrow> if sids = [] then None else route_loop (reg_agents reg) sids None)"

definition agent_find :: "string \<Rightarrow> agent_registry \<Rightarrow> agent_record option" where
  "agent_find sid reg = um_find (reg_agents reg) sid"

definition agent_heartbeat :: "int \<Rightarrow> string \<Rightarrow> agent_registry \<Rightarrow> agent_registry" where
  "agent_heartbeat now sid reg =
     (case um_find (reg_agents reg) sid of
        None \<Rightarrow> reg
      | Some r \<Rightarrow> reg\<lparr>reg_agents := um_set sid (r\<lparr>ar_last_heartbeat_ms := now\<rparr>) (reg_agents reg)\<rparr>)"

definition all_capabilities :: "agent_registry \<Rightarrow> agent_capability list" where
  "all_capabilities reg = map (\<lambda>(cap, sids). default_capability\<lparr>ac_name := cap\<rparr>) (reg_cap_index reg)"

section \<open>The capability index\<close>

definition reg_ok :: "agent_registry \<Rightarrow> bool" where
  "reg_ok reg \<longleftrightarrow> um_ok (reg_agents reg) \<and> um_ok (reg_cap_index reg) \<and>
     (\<forall>cap. distinct (idx_of (reg_cap_index reg) cap)) \<and>
     (\<forall>cap sid. sid \<in> set (idx_of (reg_cap_index reg) cap) \<longleftrightarrow>
        (\<exists>r. um_find (reg_agents reg) sid = Some r \<and> cap \<in> set (cap_names r)))"

lemma idx_of_unindex [simp]:
  "idx_of (cap_unindex sid cap idx) x = (if x = cap then removeAll sid (idx_of idx x) else idx_of idx x)"
  by (simp add: cap_unindex_def idx_of_def)

lemma idx_of_unindex_found [simp]:
  "idx_of (cap_unindex_found sid cap idx) x = (if x = cap then removeAll sid (idx_of idx x) else idx_of idx x)"
  by (auto simp: cap_unindex_found_def idx_of_def Let_def split: option.split)

lemma idx_of_index:
  "idx_of (cap_index sid cap idx) x =
     (if x = cap then (if sid \<in> set (idx_of idx x) then idx_of idx x else idx_of idx x @ [sid]) else idx_of idx x)"
  by (auto simp: cap_index_def idx_of_def Let_def)

lemma idx_fold_unindex:
  "idx_of (fold (cap_unindex sid) caps idx) x =
     (if x \<in> set caps then removeAll sid (idx_of idx x) else idx_of idx x)"
  "idx_of (fold (cap_unindex_found sid) caps idx) x =
     (if x \<in> set caps then removeAll sid (idx_of idx x) else idx_of idx x)"
  by (induction caps arbitrary: idx) (auto simp: removeAll_id)

lemma idx_fold_index:
  "set (idx_of (fold (cap_index sid) caps idx) x) =
     (if x \<in> set caps then insert sid (set (idx_of idx x)) else set (idx_of idx x))"
  by (induction caps arbitrary: idx) (auto simp: idx_of_index)

lemma idx_fold_index_distinct:
  "\<forall>x. distinct (idx_of idx x) \<Longrightarrow> distinct (idx_of (fold (cap_index sid) caps idx) x)"
  by (induction caps arbitrary: idx) (auto simp: idx_of_index)

lemma um_ok_fold_idx [simp]:
  "um_ok idx \<Longrightarrow> um_ok (fold (cap_unindex sid) caps idx)"
  "um_ok idx \<Longrightarrow> um_ok (fold (cap_unindex_found sid) caps idx)"
  "um_ok idx \<Longrightarrow> um_ok (fold (cap_index sid) caps idx)"
  by (induction caps arbitrary: idx)
     (auto simp: cap_unindex_def cap_unindex_found_def cap_index_def Let_def split: option.split)

lemma reg_ok_register: "reg_ok reg \<Longrightarrow> reg_ok (register_agent sid r reg)"
proof -
  assume ok: "reg_ok reg"
  define idx where "idx = (case um_find (reg_agents reg) sid of None \<Rightarrow> reg_cap_index reg
    | Some old \<Rightarrow> fold (cap_unindex sid) (cap_names old) (reg_cap_index reg))"
  have idx: "set (idx_of idx x) = set (idx_of (reg_cap_index reg) x) - {sid}" "distinct (idx_of idx x)" "um_ok idx" for x
    using ok by (auto simp: idx_def reg_ok_def idx_fold_unindex distinct_removeAll split: option.split)
  then show ?thesis
    using ok idx_fold_index[of sid "cap_names r" idx] idx_fold_index_distinct[of idx sid "cap_names r"]
    by (auto simp: register_agent_def reg_ok_def idx_def[symmetric] Let_def)
qed

lemma reg_ok_unregister: "reg_ok reg \<Longrightarrow> reg_ok (unregister_agent sid reg)"
  by (auto simp: unregister_agent_def reg_ok_def idx_fold_unindex distinct_removeAll split: option.split)

lemma reg_ok_heartbeat: "reg_ok reg \<Longrightarrow> reg_ok (agent_heartbeat now sid reg)"
  by (auto simp: agent_heartbeat_def reg_ok_def cap_names_def split: option.split)

datatype reg_op = Register string agent_record | Unregister string | Heartbeat int string

fun reg_exec :: "reg_op \<Rightarrow> agent_registry \<Rightarrow> agent_registry" where
  "reg_exec (Register sid r) reg = register_agent sid r reg"
| "reg_exec (Unregister sid) reg = unregister_agent sid reg"
| "reg_exec (Heartbeat now sid) reg = agent_heartbeat now sid reg"

lemma reg_ok_exec: "reg_ok reg \<Longrightarrow> reg_ok (reg_exec op reg)"
  by (cases op) (simp_all add: reg_ok_register reg_ok_unregister reg_ok_heartbeat)

lemma reg_ok_run: "reg_ok reg \<Longrightarrow> reg_ok (fold reg_exec ops reg)"
  by (induction ops arbitrary: reg) (simp_all add: reg_ok_exec)

lemma reg_ok_empty [simp]: "reg_ok reg_empty"
  by (simp add: reg_ok_def reg_empty_def idx_of_def)

text \<open>C30. The capability index is exact after any sequence of registrations, also repeated ones with
  other capabilities, unregistrations and heartbeats: a session is listed under a capability, once,
  exactly when the agent it is registered as offers it.\<close>

theorem capability_index_exact:
  "let reg = fold reg_exec ops reg_empty in
     distinct (idx_of (reg_cap_index reg) cap) \<and>
     (sid \<in> set (idx_of (reg_cap_index reg) cap) \<longleftrightarrow>
        (\<exists>r. agent_find sid reg = Some r \<and> cap \<in> set (cap_names r)))"
proof -
  have "reg_ok (fold reg_exec ops reg_empty)" by (rule reg_ok_run) simp
  then show ?thesis by (simp add: Let_def reg_ok_def agent_find_def)
qed

section \<open>Routing\<close>

definition better :: "agent_record option \<Rightarrow> agent_record option \<Rightarrow> bool" where
  "better a b \<longleftrightarrow> (case b of None \<Rightarrow> True | Some y \<Rightarrow> (case a of None \<Rightarrow> False | Some x \<Rightarrow> ar_active_calls x \<le> ar_active_calls y))"

definition routable :: "(string, agent_record) umap \<Rightarrow> string list \<Rightarrow> agent_record \<Rightarrow> bool" where
  "routable agents sids r \<longleftrightarrow> ar_healthy r \<and> (\<exists>sid \<in> set sids. um_find agents sid = Some r)"

lemma route_loop_spec:
  "(route_loop agents sids best = best \<or> (\<exists>r. route_loop agents sids best = Some r \<and> routable agents sids r)) \<and>
   better (route_loop agents sids best) best \<and>
   (\<forall>r. routable agents sids r \<longrightarrow> better (route_loop agents sids best) (Some r))"
proof (induction sids arbitrary: best)
  case (Cons sid sids)
  have sub: "routable agents sids r \<Longrightarrow> routable agents (sid # sids) r" for r by (auto simp: routable_def)
  have split: "routable agents (sid # sids) r \<longleftrightarrow>
      routable agents sids r \<or> (um_find agents sid = Some r \<and> ar_healthy r)" for r
    by (auto simp: routable_def)
  show ?case
  proof (cases "\<exists>r. um_find agents sid = Some r \<and> ar_healthy r")
    case False
    then have "route_loop agents (sid # sids) best = route_loop agents sids best" by (auto split: option.split)
    then show ?thesis using Cons[of best] sub split False by auto
  next
    case True
    then obtain r where r: "um_find agents sid = Some r" "ar_healthy r" by blast
    define b where "b = (if (case best of None \<Rightarrow> True | Some b \<Rightarrow> ar_active_calls r < ar_active_calls b) then Some r else best)"
    have eq: "route_loop agents (sid # sids) best = route_loop agents sids b"
      using r by (auto simp: b_def split: option.split)
    have b: "better b best" "better b (Some r)" "b = best \<or> b = Some r"
      by (auto simp: b_def better_def split: option.splits)
    have trans: "better x y \<Longrightarrow> better y z \<Longrightarrow> better x z" for x y z
      by (auto simp: better_def split: option.splits)
    have c: "route_loop agents sids b = b \<or> (\<exists>r. route_loop agents sids b = Some r \<and> routable agents sids r)"
      "better (route_loop agents sids b) b"
      "\<And>r. routable agents sids r \<Longrightarrow> better (route_loop agents sids b) (Some r)"
      using Cons[of b] by auto
    have "routable agents (sid # sids) r" using r by (simp add: split)
    then have "route_loop agents sids b = best \<or>
        (\<exists>r. route_loop agents sids b = Some r \<and> routable agents (sid # sids) r)"
      using c(1) b(3) sub by auto
    moreover have "better (route_loop agents sids b) best" using trans[OF c(2) b(1)] .
    moreover have "better (route_loop agents sids b) (Some x)" if "routable agents (sid # sids) x" for x
      using that c(3) trans[OF c(2) b(2)] r(1) by (auto simp: split)
    ultimately show ?thesis unfolding eq by blast
  qed
qed (auto simp: better_def routable_def split: option.split)

text \<open>Routing picks a right agent: the agent returned for a capability is registered, healthy and
  offers it, and no healthy agent that offers it has fewer active calls; \<open>nullopt\<close> is returned exactly
  when no healthy agent offers it.\<close>

theorem agent_route_min_load:
  assumes "reg_ok reg"
  shows "(agent_route cap reg = None \<longleftrightarrow>
       \<not> (\<exists>sid r. agent_find sid reg = Some r \<and> ar_healthy r \<and> cap \<in> set (cap_names r))) \<and>
    (agent_route cap reg = Some r \<longrightarrow>
       ar_healthy r \<and> cap \<in> set (cap_names r) \<and> (\<exists>sid. agent_find sid reg = Some r) \<and>
       (\<forall>sid r'. agent_find sid reg = Some r' \<and> ar_healthy r' \<and> cap \<in> set (cap_names r') \<longrightarrow>
          ar_active_calls r \<le> ar_active_calls r'))"
proof -
  let ?sids = "idx_of (reg_cap_index reg) cap"
  have eq: "agent_route cap reg = route_loop (reg_agents reg) ?sids None"
    by (auto simp: agent_route_def idx_of_def split: option.split)
  have rt: "routable (reg_agents reg) ?sids r \<longleftrightarrow>
      ar_healthy r \<and> cap \<in> set (cap_names r) \<and> (\<exists>sid. agent_find sid reg = Some r)" for r
    using assms by (auto simp: routable_def reg_ok_def agent_find_def)
  note spec = route_loop_spec[of "reg_agents reg" ?sids None, folded eq]
  have none: "agent_route cap reg = None \<longleftrightarrow> \<not> (\<exists>r. routable (reg_agents reg) ?sids r)"
    using spec by (auto simp: better_def split: option.splits)
  have "agent_route cap reg = Some r \<Longrightarrow> routable (reg_agents reg) ?sids r \<and>
      (\<forall>r'. routable (reg_agents reg) ?sids r' \<longrightarrow> ar_active_calls r \<le> ar_active_calls r')" for r
    using spec by (auto simp: better_def)
  then show ?thesis using none unfolding rt by blast
qed

definition demo_agent :: "int \<Rightarrow> string \<Rightarrow> agent_record" where
  "demo_agent load cap = \<lparr>ar_session_id = ''s'', ar_agent_name = ''a'',
     ar_capabilities = [default_capability\<lparr>ac_name := cap\<rparr>], ar_peer_addr = [], ar_registered_at_ms = 0,
     ar_last_heartbeat_ms = 0, ar_active_calls = load, ar_healthy = True\<rparr>"

theorem agent_route_min_load_witness:
  "agent_route ''c'' (register_agent ''s'' (demo_agent 0 ''c'') reg_empty) = Some (demo_agent 0 ''c'') \<and>
   agent_route ''d'' (register_agent ''s'' (demo_agent 0 ''c'') reg_empty) = None"
proof -
  let ?reg = "register_agent ''s'' (demo_agent 0 ''c'') reg_empty"
  have ok: "reg_ok ?reg" by (rule reg_ok_register) simp
  have find: "agent_find sid ?reg = (if sid = ''s'' then Some (demo_agent 0 ''c'') else None)" for sid
    by (simp add: agent_find_def register_agent_def Let_def reg_empty_def)
  have caps: "cap_names (demo_agent 0 ''c'') = [''c'']" "ar_healthy (demo_agent 0 ''c'')"
    by (simp_all add: cap_names_def demo_agent_def)
  have "agent_route ''c'' ?reg \<noteq> None" "agent_route ''d'' ?reg = None"
    using agent_route_min_load[OF ok, of "''c''"] agent_route_min_load[OF ok, of "''d''"]
    by (auto simp: find caps split: if_splits)
  moreover have "agent_route ''c'' ?reg = Some r \<Longrightarrow> r = demo_agent 0 ''c''" for r
    using agent_route_min_load[OF ok, of "''c''" r] by (auto simp: find split: if_splits)
  ultimately show ?thesis by auto
qed

end
