(* ===== verification/Coordinator.thy ===== *)
theory Coordinator
  imports L1_Cache L2_Cascade L3_Archive Session_Buffer
begin

text \<open>
  \<open>gw::CacheCoordinator\<close> (\<open>src/agent_cache.cpp\<close>): the query through L1, the session buffer and L2, the
  write to the layers, the sessions and their archive, invalidation and context expansion. The state
  holds the three stores and the file system they share. Where an operation can throw, it returns the
  exception with the state it leaves.
\<close>

section \<open>Model\<close>

record coord =
  co_l1 :: l1_cache
  co_l2 :: l2_cache
  co_l3_dir :: string
  co_fs :: fs
  co_sessions :: "(string, session_buffer) umap"

text \<open>\<open>layer\<close> has no initialiser in the source: \<open>None\<close> is the indeterminate value.\<close>

record query_result =
  qr_entry :: cache_entry
  qr_hit :: bool
  qr_layer :: "cache_layer option"
  qr_stale :: bool

definition qr_default :: query_result where
  "qr_default = \<lparr>qr_entry = default_entry, qr_hit = False, qr_layer = None, qr_stale = False\<rparr>"

definition co_init :: "'j jlib \<Rightarrow> string \<Rightarrow> string \<Rightarrow> coord \<Rightarrow> coord" where
  "co_init L l2_dir l3_dir co =
     co\<lparr>co_l2 := l2_init L l2_dir (co_fs co) (co_l2 co), co_l3_dir := l3_dir\<rparr>"

definition cache_key :: "string \<Rightarrow> string \<Rightarrow> string \<Rightarrow> string" where
  "cache_key agent_id capability input_hash = ''agent:'' @ agent_id @ '':'' @ capability @ '':'' @ input_hash"

text \<open>The session-buffer stage: the cached result of the latest turn of the same capability.\<close>

definition query_session ::
  "int \<Rightarrow> string \<Rightarrow> string \<Rightarrow> coord \<Rightarrow> query_result option \<times> coord" where
  "query_session sys_now capability session_id co =
     (case um_find (co_sessions co) session_id of
        None \<Rightarrow> (None, co)
      | Some sb \<Rightarrow>
          (case sb_recent capability 3 sb of
             [] \<Rightarrow> (None, co)
           | t # _ \<Rightarrow>
               (case l2_get sys_now (t_cache_key t) (co_l2 co) of
                  (None, l2) \<Rightarrow> (None, co\<lparr>co_l2 := l2\<rparr>)
                | (Some e, l2) \<Rightarrow>
                    if e_status e \<noteq> INVALIDATED
                    then (Some (qr_default\<lparr>qr_entry := e, qr_hit := True, qr_layer := Some L2,
                                           qr_stale := (e_status e = STALE)\<rparr>), co\<lparr>co_l2 := l2\<rparr>)
                    else (None, co\<lparr>co_l2 := l2\<rparr>))))"

text \<open>The exact L2 stage, with the promotion to L1.\<close>

definition query_l2 :: "int \<Rightarrow> string \<Rightarrow> coord \<Rightarrow> (query_result \<times> coord) result" where
  "query_l2 sys_now key co =
     (case l2_get sys_now key (co_l2 co) of
        (None, l2) \<Rightarrow> Inr (qr_default, co\<lparr>co_l2 := l2\<rparr>)
      | (Some e, l2) \<Rightarrow>
          if e_status e = INVALIDATED then Inr (qr_default, co\<lparr>co_l2 := l2\<rparr>)
          else bindE (l1_set key e (co_l1 co)) (\<lambda>l1.
            Inr (qr_default\<lparr>qr_entry := e, qr_hit := True, qr_layer := Some L2,
                            qr_stale := (e_status e = STALE \<or> e_confidence e < kConfidenceFresh)\<rparr>,
                 co\<lparr>co_l2 := l2, co_l1 := l1\<rparr>)))"

text \<open>\<open>steady_now\<close> and \<open>sys_now\<close> are the readings, in milliseconds, of the clock that L1 uses and of the
  system clock.\<close>

definition co_query ::
  "int \<Rightarrow> int \<Rightarrow> string \<Rightarrow> string \<Rightarrow> string \<Rightarrow> string \<Rightarrow> coord \<Rightarrow> (query_result \<times> coord) result" where
  "co_query steady_now sys_now agent_id capability input_hash session_id co =
     (let key = cache_key agent_id capability input_hash in
      bindE (l1_get steady_now key (co_l1 co)) (\<lambda>(r, l1).
        let co = co\<lparr>co_l1 := l1\<rparr> in
        case r of
          Some e \<Rightarrow> Inr (qr_default\<lparr>qr_entry := e, qr_hit := True, qr_layer := Some L1\<rparr>, co)
        | None \<Rightarrow>
            (case query_session sys_now capability session_id co of
               (Some q, co) \<Rightarrow> Inr (q, co)
             | (None, co) \<Rightarrow> query_l2 sys_now key co)))"

text \<open>The entry that \<open>write\<close> stores: stamped when it has no creation time; L2 gets the output only up to
  2048 bytes, and a reference to the archived output otherwise.\<close>

definition stamped :: "int \<Rightarrow> cache_entry \<Rightarrow> cache_entry" where
  "stamped sys_now e = (if e_created_at_ms e = 0 then e\<lparr>e_created_at_ms := sys_now\<rparr> else e)"

definition co_write ::
  "'j jlib \<Rightarrow> env \<Rightarrow> int \<Rightarrow> int \<Rightarrow> cache_entry \<Rightarrow> coord \<Rightarrow> exn option \<times> coord" where
  "co_write L E sys_now put_now entry co =
     (let e = stamped sys_now entry in
      case (if length (e_output e) < 4096 then l1_set (e_key e) e (co_l1 co) else Inr (co_l1 co)) of
        Inl ex \<Rightarrow> (Some ex, co)
      | Inr l1 \<Rightarrow>
          (case (if length (e_output e) > 2048
                 then (case l3_put E (co_l3_dir co) put_now (e_key e) (e_output e) (co_fs co) of
                         (ref, fs) \<Rightarrow> (e\<lparr>e_output := [], e_full_ref := ref\<rparr>, fs))
                 else (e, co_fs co)) of
             (l2_entry, fs) \<Rightarrow>
               (case l2_set L (e_key e) l2_entry (co_l2 co) fs of
                  (ex, l2, fs) \<Rightarrow> (ex, co\<lparr>co_l1 := l1, co_l2 := l2, co_fs := fs\<rparr>))))"

text \<open>\<open>session_buffer(id)\<close> creates the buffer when there is none; \<open>sb.append(turn)\<close> follows in every caller.\<close>

definition co_session_buffer :: "string \<Rightarrow> coord \<Rightarrow> session_buffer \<times> coord" where
  "co_session_buffer sid co =
     (case um_find (co_sessions co) sid of
        Some sb \<Rightarrow> (sb, co)
      | None \<Rightarrow> (sb_new sid, co\<lparr>co_sessions := um_set sid (sb_new sid) (co_sessions co)\<rparr>))"

definition co_append_turn :: "string \<Rightarrow> session_turn \<Rightarrow> coord \<Rightarrow> coord" where
  "co_append_turn sid turn co =
     (case co_session_buffer sid co of
        (sb, co) \<Rightarrow> co\<lparr>co_sessions := um_set sid (sb_append turn sb) (co_sessions co)\<rparr>)"

definition co_close_session :: "string \<Rightarrow> coord \<Rightarrow> coord" where
  "co_close_session sid co = co\<lparr>co_sessions := um_erase sid (co_sessions co)\<rparr>"

definition co_archive_session :: "'j jlib \<Rightarrow> env \<Rightarrow> int \<Rightarrow> string \<Rightarrow> coord \<Rightarrow> string result \<times> coord" where
  "co_archive_session L E put_now sid co =
     (case um_find (co_sessions co) sid of
        None \<Rightarrow> (Inr [], co)
      | Some sb \<Rightarrow>
          if sb_turns sb = [] then (Inr [], co_close_session sid co)
          else (case jdump L (sb_to_json L sb) of
                  Inl ex \<Rightarrow> (Inl ex, co)
                | Inr s \<Rightarrow>
                    (case l3_put E (co_l3_dir co) put_now (''session:'' @ sid) s (co_fs co) of
                       (ref, fs) \<Rightarrow> (Inr ref, (co_close_session sid co)\<lparr>co_fs := fs\<rparr>))))"

text \<open>\<open>shutdown\<close>: the sessions are archived one after the other; an exception leaves the function.\<close>

fun archive_all :: "'j jlib \<Rightarrow> env \<Rightarrow> int \<Rightarrow> string list \<Rightarrow> coord \<Rightarrow> exn option \<times> coord" where
  "archive_all L E now [] co = (None, co)"
| "archive_all L E now (sid # sids) co =
     (case co_archive_session L E now sid co of
        (Inl ex, co) \<Rightarrow> (Some ex, co)
      | (Inr _, co) \<Rightarrow> archive_all L E now sids co)"

definition co_shutdown :: "'j jlib \<Rightarrow> env \<Rightarrow> int \<Rightarrow> coord \<Rightarrow> exn option \<times> coord" where
  "co_shutdown L E now co =
     (case archive_all L E now (map fst (co_sessions co)) co of
        (Some ex, co) \<Rightarrow> (Some ex, co)
      | (None, co) \<Rightarrow>
          (case l2_shutdown L (co_l2 co) (co_fs co) of
             (ex, l2, fs) \<Rightarrow> (ex, co\<lparr>co_l2 := l2, co_fs := fs\<rparr>)))"

definition co_invalidate :: "'j jlib \<Rightarrow> string \<Rightarrow> string \<Rightarrow> bool \<Rightarrow> coord \<Rightarrow> exn option \<times> coord" where
  "co_invalidate L key reason cascade co =
     (case l2_hard_invalidate L key reason cascade (co_l2 co) (co_fs co) of
        (ex, l2, fs) \<Rightarrow> (ex, co\<lparr>co_l1 := l1_invalidate key (co_l1 co), co_l2 := l2, co_fs := fs\<rparr>))"

text \<open>\<open>max_tokens * 4\<close> is a \<open>size_t\<close>.\<close>

definition co_expand_context :: "string \<Rightarrow> u64 \<Rightarrow> coord \<Rightarrow> context_expand_result option" where
  "co_expand_context ref max_tokens co =
     (case l3_get ref (co_fs co) of
        None \<Rightarrow> None
      | Some content \<Rightarrow>
          let max_chars = unat (max_tokens * 4) in
          Some (if length content > max_chars
                then \<lparr>x_call_id = [], x_ref = ref, x_full_text = take max_chars content @ ''...'',
                      x_total_tokens = length content div 4, x_truncated = True\<rparr>
                else \<lparr>x_call_id = [], x_ref = ref, x_full_text = content,
                      x_total_tokens = length content div 4, x_truncated = False\<rparr>))"

text \<open>One round of \<open>background_maintenance\<close>.\<close>

definition co_maintenance :: "'j jlib \<Rightarrow> libm \<Rightarrow> int \<Rightarrow> int \<Rightarrow> coord \<Rightarrow> exn option \<times> coord" where
  "co_maintenance L M decay_now purge_now co =
     (case l2_apply_confidence_decay L M decay_now (co_l2 co) (co_fs co) of
        (Some ex, l2, fs) \<Rightarrow> (Some ex, co\<lparr>co_l2 := l2, co_fs := fs\<rparr>)
      | (None, l2, fs) \<Rightarrow>
          (case l2_purge_expired L purge_now l2 fs of
             (ex, l2, fs) \<Rightarrow> (ex, co\<lparr>co_l2 := l2, co_fs := fs\<rparr>)))"

section \<open>Invariant\<close>

definition co_ok :: "coord \<Rightarrow> bool" where
  "co_ok co \<longleftrightarrow> l1_ok (co_l1 co) \<and> l2_ok (co_l2 co) \<and> um_ok (co_sessions co)"

lemma co_ok_write: "co_ok co \<Longrightarrow> co_ok (snd (co_write L E now put e co))"
proof -
  assume ok: "co_ok co"
  obtain l1 where l1: "l1_set (e_key (stamped now e)) (stamped now e) (co_l1 co) = Inr l1" "l1_ok l1"
    using l1_set_correct ok unfolding co_ok_def by meson
  then show ?thesis
    using ok l2_ok_set
    by (auto simp: co_write_def Let_def co_ok_def l2_set_def split: prod.split sum.split)
qed

lemma co_ok_query:
  assumes "co_ok co"
  shows "\<exists>q co'. co_query st sy a c h s co = Inr (q, co') \<and> co_ok co'"
proof -
  let ?key = "cache_key a c h"
  obtain l1 where l1: "l1_get st ?key (co_l1 co) = Inr (fst (spec_l1_get st ?key (l1_view (co_l1 co))), l1)" "l1_ok l1"
    using l1_get_correct[of "co_l1 co" st ?key] assms unfolding co_ok_def by blast
  let ?co = "co\<lparr>co_l1 := l1\<rparr>"
  have ok: "co_ok ?co" using assms l1(2) by (simp add: co_ok_def)
  have sess: "co_ok (snd (query_session sy c s ?co))"
    using ok l2_ok_get[of "co_l2 ?co" sy] unfolding query_session_def co_ok_def
    by (auto split: option.split list.split prod.split) (metis snd_conv)+
  have l2: "\<exists>q co'. query_l2 sy ?key x = Inr (q, co') \<and> co_ok co'" if x: "co_ok x" for x
  proof -
    obtain r l2 where g: "l2_get sy ?key (co_l2 x) = (r, l2)" by (cases "l2_get sy ?key (co_l2 x)")
    then have "l2_ok l2" using l2_ok_get[of "co_l2 x" sy ?key] x by (simp add: co_ok_def)
    moreover obtain l1 where "r = Some e \<Longrightarrow> l1_set ?key e (co_l1 x) = Inr l1 \<and> l1_ok l1" for e
      using l1_set_correct[of "co_l1 x" ?key] x unfolding co_ok_def by (metis option.inject)
    ultimately show ?thesis using g x by (auto simp: query_l2_def co_ok_def split: option.split)
  qed
  obtain q co1 where qs: "query_session sy c s ?co = (q, co1)" by (cases "query_session sy c s ?co")
  then have "co_ok co1" using sess by simp
  then show ?thesis
    using l1(1) ok qs l2[of co1] by (auto simp: co_query_def Let_def split: option.split)
qed

section \<open>Properties\<close>

text \<open>What L1 answers for a key at a time.\<close>

definition l1_alive :: "int \<Rightarrow> string \<Rightarrow> coord \<Rightarrow> bool" where
  "l1_alive now key co \<longleftrightarrow> (\<exists>e. map_of (l1_view (co_l1 co)) key = Some e \<and> now \<le> e_deadline e)"

text \<open>The session stage does not answer.\<close>

definition no_recent :: "string \<Rightarrow> string \<Rightarrow> coord \<Rightarrow> bool" where
  "no_recent session capability co \<longleftrightarrow>
     (\<forall>sb. um_find (co_sessions co) session = Some sb \<longrightarrow> (\<forall>t \<in> set (sb_turns sb). t_capability t \<noteq> capability))"

lemma no_recent_session: "no_recent s c co \<Longrightarrow> query_session now c s co = (None, co)"
proof (cases "um_find (co_sessions co) s")
  case (Some sb)
  assume "no_recent s c co"
  then have "filter (\<lambda>t. t_capability t = c) (rev (sb_turns sb)) = []"
    using Some by (simp add: no_recent_def filter_empty_conv)
  then show ?thesis using Some by (simp add: query_session_def sb_recent_eq)
qed (simp add: query_session_def)

lemma query_miss_l1:
  assumes "l1_ok (co_l1 co)" "\<not> l1_alive st (cache_key a c h) co" "no_recent s c co"
  shows "\<exists>l1. l1_ok l1 \<and> co_query st sy a c h s co = query_l2 sy (cache_key a c h) (co\<lparr>co_l1 := l1\<rparr>)"
proof -
  let ?key = "cache_key a c h"
  obtain l1 where l1: "l1_get st ?key (co_l1 co) = Inr (fst (spec_l1_get st ?key (l1_view (co_l1 co))), l1)" "l1_ok l1"
    using l1_get_correct[OF assms(1), of st ?key] by blast
  have "fst (spec_l1_get st ?key (l1_view (co_l1 co))) = None"
    using assms(2) by (auto simp: spec_l1_get_def l1_alive_def Let_def split: option.split)
  moreover have "no_recent s c (co\<lparr>co_l1 := l1\<rparr>)" using assms(3) by (simp add: no_recent_def)
  ultimately show ?thesis
    using l1 no_recent_session by (intro exI[of _ l1]) (simp add: co_query_def Let_def)
qed

text \<open>What \<open>write\<close> leaves: L1 and L2 under the entry's key, and the archived output.\<close>

definition l2_part :: "env \<Rightarrow> int \<Rightarrow> coord \<Rightarrow> cache_entry \<Rightarrow> cache_entry" where
  "l2_part E put_now co e =
     (if length (e_output e) > 2048
      then e\<lparr>e_output := [], e_full_ref := ''l3://'' @ make_key_path E (co_l3_dir co) (e_key e) put_now\<rparr> else e)"

lemma co_write_state:
  fixes L :: "'j jlib"
  assumes ok: "co_ok co" and co1: "co1 = snd (co_write L E now put entry co)" and e: "e = stamped now entry"
    and paths: "l2_data_file (co_l2 co) \<noteq> make_key_path E (co_l3_dir co) (e_key entry) put"
      "l2_revidx_file (co_l2 co) \<noteq> make_key_path E (co_l3_dir co) (e_key entry) put"
  shows "co_ok co1 \<and> co_sessions co1 = co_sessions co \<and>
    um_find (l2_entries (co_l2 co1)) (e_key entry) = Some (l2_part E put co e) \<and>
    (length (e_output e) < 4096 \<longrightarrow> map_of (l1_view (co_l1 co1)) (e_key entry) = Some e) \<and>
    (\<not> length (e_output e) < 4096 \<longrightarrow> co_l1 co1 = co_l1 co) \<and>
    (length (e_output e) > 2048 \<longrightarrow>
       l3_get (''l3://'' @ make_key_path E (co_l3_dir co) (e_key entry) put) (co_fs co1) = Some (e_output e))"
proof -
  have key: "e_key e = e_key entry" using e by (simp add: stamped_def)
  let ?path = "make_key_path E (co_l3_dir co) (e_key entry) put"
  obtain l1 where l1: "l1_set (e_key e) e (co_l1 co) = Inr l1"
      "l1_view l1 = spec_put (l1_max_size (co_l1 co)) (e_key e) e (l1_view (co_l1 co))"
    using l1_set_correct ok unfolding co_ok_def by meson
  have "0 < l1_max_size (co_l1 co)" using ok by (simp add: co_ok_def l1_ok_def)
  then have v: "map_of (l1_view l1) (e_key entry) = Some e"
    using l1(2) key by (cases "l1_max_size (co_l1 co)") (auto simp: spec_put_def)
  let ?fs = "if length (e_output e) > 2048 then fs_write ?path (e_output e) (co_fs co) else co_fs co"
  obtain ex fs where sv: "save_both L (l2_set_mem (e_key e) (l2_part E put co e) (co_l2 co)) ?fs = (ex, fs)"
    by (cases "save_both L (l2_set_mem (e_key e) (l2_part E put co e) (co_l2 co)) ?fs")
  have files: "l2_data_file (l2_set_mem k x c) = l2_data_file c" "l2_revidx_file (l2_set_mem k x c) = l2_revidx_file c" for k x c
    by (simp_all add: l2_set_mem_def Let_def)
  have "fs ?path = ?fs ?path"
    using sv paths key
    by (auto simp: save_both_def save_to_disk_def save_revidx_def fs_write_def files
        split: prod.splits option.splits sum.splits if_splits)
  moreover have co1': "co1 = co\<lparr>co_l1 := (if length (e_output e) < 4096 then l1 else co_l1 co),
      co_l2 := l2_set_mem (e_key e) (l2_part E put co e) (co_l2 co), co_fs := fs\<rparr>"
    using l1(1) sv key
    by (auto simp: co1 e co_write_def Let_def l3_put_def l2_part_def l2_set_def stamped_def)
  moreover have "co_ok co1" unfolding co1 by (rule co_ok_write[OF ok])
  moreover have "um_find (l2_entries (l2_set_mem (e_key e) (l2_part E put co e) (co_l2 co))) (e_key entry) =
      Some (l2_part E put co e)"
    by (simp add: l2_set_mem_def Let_def key)
  ultimately show ?thesis using v by (simp add: l3_get_def fs_write_def)
qed


definition demo_coord :: coord where
  "demo_coord = \<lparr>co_l1 = l1_init, co_l2 = l2_new, co_l3_dir = ''l3'', co_fs = (\<lambda>_. None), co_sessions = []\<rparr>"

lemma demo_coord_ok [simp]: "co_ok demo_coord"
  by (simp add: co_ok_def demo_coord_def)

abbreviation demo_json :: "jv jlib" where
  "demo_json \<equiv> sample_json (\<lambda>_. Inl ParseError) (\<lambda>_. Inr ''x'')"




text \<open>The other entries of L1 stay: a dependent that the cascade made stale in L2 is still served fresh
  from L1.\<close>

theorem invalidate_keeps_l1_dependents:
  "co_ok co \<Longrightarrow> j \<noteq> key \<Longrightarrow>
     map_of (l1_view (co_l1 (snd (co_invalidate L key r casc co)))) j = map_of (l1_view (co_l1 co)) j"
  using l1_find_view[of "co_l1 co" key j] by (simp add: co_invalidate_def co_ok_def split: prod.split)

text \<open>A write of 4096 bytes or more leaves L1 as it is, an older entry of the same key included.\<close>

theorem large_write_keeps_l1:
  "4096 \<le> length (e_output e) \<Longrightarrow> co_l1 (snd (co_write L E now put e co)) = co_l1 co"
  by (simp add: co_write_def stamped_def Let_def split: prod.split)

text \<open>C34. Archiving a session keeps its turns and lets them be read back: when the serialisation does not
  throw, the session is dropped, the other sessions and both caches are unchanged, and expanding the
  returned reference gives the serialised session, cut at four bytes a token with an ellipsis and flagged
  exactly when it is longer than the budget.\<close>

theorem archive_then_expand:
  assumes "um_find (co_sessions co) sid = Some sb" "sb_turns sb \<noteq> []" "jdump L (sb_to_json L sb) = Inr tx"
  shows "\<exists>ref co'. co_archive_session L E now sid co = (Inr ref, co') \<and>
    um_find (co_sessions co') j = (if j = sid then None else um_find (co_sessions co) j) \<and>
    co_l1 co' = co_l1 co \<and> co_l2 co' = co_l2 co \<and>
    (\<exists>x. co_expand_context ref max_tokens co' = Some x \<and>
       x_truncated x = (unat (max_tokens * 4) < length tx) \<and> x_total_tokens x = length tx div 4 \<and>
       x_full_text x = (if x_truncated x then take (unat (max_tokens * 4)) tx @ ''...'' else tx))"
proof -
  obtain ref fs where put: "l3_put E (co_l3_dir co) now (''session:'' @ sid) tx (co_fs co) = (ref, fs)"
    by (cases "l3_put E (co_l3_dir co) now (''session:'' @ sid) tx (co_fs co)")
  then have g: "l3_get ref fs = Some tx"
    using l3_get_put[of E "co_l3_dir co" now "''session:'' @ sid" tx "co_fs co"] by simp
  have "co_archive_session L E now sid co = (Inr ref, (co_close_session sid co)\<lparr>co_fs := fs\<rparr>)"
    using assms put by (simp add: co_archive_session_def)
  moreover have "\<exists>x. co_expand_context ref max_tokens ((co_close_session sid co)\<lparr>co_fs := fs\<rparr>) = Some x \<and>
       x_truncated x = (unat (max_tokens * 4) < length tx) \<and> x_total_tokens x = length tx div 4 \<and>
       x_full_text x = (if x_truncated x then take (unat (max_tokens * 4)) tx @ ''...'' else tx)"
    using g by (cases "unat (max_tokens * 4) < length tx") (simp_all add: co_expand_context_def Let_def)
  ultimately show ?thesis by (auto simp: co_close_session_def)
qed

theorem archive_then_expand_witness:
  "\<exists>ref co'. co_archive_session demo_json demo_env 0 ''s'' (co_append_turn ''s'' (demo_turn ''c'' ''a'' ''o'') demo_coord)
      = (Inr ref, co') \<and> um_find (co_sessions co') ''s'' = None"
proof -
  let ?sb = "sb_append (demo_turn ''c'' ''a'' ''o'') (sb_new ''s'')"
  have "um_find (co_sessions (co_append_turn ''s'' (demo_turn ''c'' ''a'' ''o'') demo_coord)) ''s'' = Some ?sb"
    by (simp add: co_append_turn_def co_session_buffer_def demo_coord_def)
  moreover have "sb_turns ?sb \<noteq> []"
    by (simp add: sb_append_turns sb_new_def kMaxTurns_def kMaxTotalTokens_def estimated_tokens_def demo_turn_def)
  ultimately show ?thesis
    using archive_then_expand[of "co_append_turn ''s'' (demo_turn ''c'' ''a'' ''o'') demo_coord" "''s''" ?sb
        demo_json "''x''" demo_env 0 "''s''" 0] by auto
qed

end
