(* ===== verification/Line_Stream.thy ===== *)
theory Line_Stream
  imports Gateway_Prelude
begin

text \<open>
  The line splitting that both parsers of server-sent events share: bytes are appended to a buffer, complete
  lines are taken from it one by one and handed on, and what follows the last newline stays. The locale
  states what a parser of this kind provides; that its result does not depend on how the bytes arrive in
  chunks is proved once, inside it.
\<close>

section \<open>Lines\<close>

definition strip_cr :: "string \<Rightarrow> string" where
  "strip_cr line = (if line \<noteq> [] \<and> last line = CHR 0x0D then butlast line else line)"

lemma tl_dropWhile_shorter: "c \<in> set xs \<Longrightarrow> length (tl (dropWhile (\<lambda>d. d \<noteq> c) xs)) < length xs"
  by (induction xs) auto

lemma split_line:
  assumes "CHR 0x0A \<in> set r"
  shows "r = takeWhile (\<lambda>c. c \<noteq> CHR 0x0A) r @ CHR 0x0A # tl (dropWhile (\<lambda>c. c \<noteq> CHR 0x0A) r)"
proof -
  have "dropWhile (\<lambda>c. c \<noteq> CHR 0x0A) r \<noteq> []" using assms by simp
  moreover from this have "hd (dropWhile (\<lambda>c. c \<noteq> CHR 0x0A) r) = CHR 0x0A" using hd_dropWhile by blast
  ultimately show ?thesis by (metis list.collapse takeWhile_dropWhile_id)
qed

lemma takeWhile_line: "CHR 0x0A \<notin> set (takeWhile (\<lambda>c. c \<noteq> CHR 0x0A) r)"
  using set_takeWhileD by fastforce

lemma take_line:
  "CHR 0x0A \<notin> set line \<Longrightarrow> takeWhile (\<lambda>c. c \<noteq> CHR 0x0A) (line @ CHR 0x0A # rest) = line"
  "CHR 0x0A \<notin> set line \<Longrightarrow> tl (dropWhile (\<lambda>c. c \<noteq> CHR 0x0A) (line @ CHR 0x0A # rest)) = rest"
  by (induction line) auto

lemma line_induct [case_names none line]:
  assumes "\<And>r. CHR 0x0A \<notin> set r \<Longrightarrow> P r"
    and "\<And>line rest. CHR 0x0A \<notin> set line \<Longrightarrow> P rest \<Longrightarrow> P (line @ CHR 0x0A # rest)"
  shows "P r"
proof (induction r rule: length_induct)
  case (1 r)
  show ?case
  proof (cases "CHR 0x0A \<in> set r")
    case True
    then show ?thesis using 1 split_line[OF True] assms(2)[OF takeWhile_line] tl_dropWhile_shorter[OF True] by metis
  qed (rule assms(1))
qed

section \<open>Parsers\<close>

text \<open>Equal up to what an exception leaves.\<close>

definition agree :: "exn option \<times> 'p \<Rightarrow> exn option \<times> 'p \<Rightarrow> bool" where
  "agree x y \<longleftrightarrow> fst x = fst y \<and> (fst x = None \<longrightarrow> x = y)"

lemma agree_refl [simp]: "agree x x" by (simp add: agree_def)
lemma agree_sym: "agree x y \<Longrightarrow> agree y x" unfolding agree_def by metis
lemma agree_trans: "agree x y \<Longrightarrow> agree y z \<Longrightarrow> agree x z" unfolding agree_def by metis

definition st_seq :: "('p \<Rightarrow> exn option \<times> 'p) \<Rightarrow> ('p \<Rightarrow> exn option \<times> 'p) \<Rightarrow> 'p \<Rightarrow> exn option \<times> 'p" where
  "st_seq f g p = (case f p of (Some ex, p) \<Rightarrow> (Some ex, p) | (None, p) \<Rightarrow> g p)"

lemma st_seq_run: "f p = (None, p') \<Longrightarrow> st_seq f g p = g p'" "f p = (Some ex, p') \<Longrightarrow> st_seq f g p = (Some ex, p')"
  by (simp_all add: st_seq_def)

fun feed_all :: "(string \<Rightarrow> 'p \<Rightarrow> exn option \<times> 'p) \<Rightarrow> string list \<Rightarrow> 'p \<Rightarrow> exn option \<times> 'p" where
  "feed_all feed [] p = (None, p)"
| "feed_all feed (c # cs) p = st_seq (feed c) (feed_all feed cs) p"

locale line_stream =
  fixes process :: "string \<Rightarrow> 'p \<Rightarrow> exn option \<times> 'p"
    and flush :: "string \<Rightarrow> 'p \<Rightarrow> exn option \<times> 'p"
    and feed :: "string \<Rightarrow> 'p \<Rightarrow> exn option \<times> 'p"
    and buf :: "'p \<Rightarrow> string"
    and set_buf :: "string \<Rightarrow> 'p \<Rightarrow> 'p"
  assumes flush_rest: "CHR 0x0A \<notin> set rest \<Longrightarrow> flush rest p = (None, set_buf rest p)"
    and flush_line: "CHR 0x0A \<notin> set line \<Longrightarrow> flush (line @ CHR 0x0A # rest) p = st_seq (process (strip_cr line)) (flush rest) p"
    and feed: "feed data p = flush (buf p @ data) (set_buf (buf p @ data) p)"
    and blind: "process line (set_buf b p) = (fst (process line p), set_buf b (snd (process line p)))"
    and buf_laws: "buf (set_buf b p) = b" "set_buf b (set_buf b' p) = set_buf b p" "set_buf (buf p) p = p"
begin

lemma flush_buf: "agree (flush rest (set_buf b p)) (flush rest p)"
proof (induction rest arbitrary: b p rule: line_induct)
  case (none r)
  then show ?case by (simp only: flush_rest[OF none] buf_laws(2) agree_refl)
next
  case (line l rest)
  have e: "flush (l @ CHR 0x0A # rest) q = st_seq (process (strip_cr l)) (flush rest) q" for q by (rule flush_line[OF line(1)])
  obtain ex p' where p': "process (strip_cr l) p = (ex, p')" by force
  then have b: "process (strip_cr l) (set_buf b p) = (ex, set_buf b p')" by (simp only: blind fst_conv snd_conv)
  show ?case
  proof (cases ex)
    case None
    then show ?thesis unfolding e using p' b line(2)[of b p'] by (simp only: st_seq_run)
  next
    case (Some x)
    then show ?thesis unfolding e using p' b by (simp only: st_seq_run agree_def fst_conv) simp
  qed
qed

lemma flush_append:
  "(case flush r p of
      (Some ex, _) \<Rightarrow> fst (flush (r @ d) p) = Some ex
    | (None, p') \<Rightarrow> agree (flush (r @ d) p) (flush (buf p' @ d) p') \<and> CHR 0x0A \<notin> set (buf p'))"
proof (induction r arbitrary: p rule: line_induct)
  case (none r)
  then show ?case using agree_sym[OF flush_buf] by (simp only: flush_rest[OF none] buf_laws prod.case option.case) simp
next
  case (line l r)
  have e: "flush (l @ CHR 0x0A # r) q = st_seq (process (strip_cr l)) (flush r) q"
    "flush ((l @ CHR 0x0A # r) @ d) q = st_seq (process (strip_cr l)) (flush (r @ d)) q" for q
    using flush_line[OF line(1), of r] flush_line[OF line(1), of "r @ d"] by (simp_all only: append_assoc append_Cons)
  obtain ex p' where p': "process (strip_cr l) p = (ex, p')" by force
  show ?case
  proof (cases ex)
    case None
    then have q: "process (strip_cr l) p = (None, p')" using p' by simp
    show ?thesis unfolding e st_seq_run(1)[where f = "process (strip_cr l)", OF q] by (rule line(2))
  next
    case (Some x)
    then show ?thesis unfolding e using p' by (simp add: st_seq_run)
  qed
qed

lemma feed_append:
  "(case feed c p of
      (Some ex, _) \<Rightarrow> fst (feed (c @ d) p) = Some ex
    | (None, p') \<Rightarrow> agree (feed (c @ d) p) (feed d p') \<and> CHR 0x0A \<notin> set (buf p'))"
proof -
  let ?r = "buf p @ c"
  have any: "agree (flush r (set_buf b p)) (flush r (set_buf b' p))" for r b b' p
    using agree_trans[OF flush_buf agree_sym[OF flush_buf]] .
  have g: "agree (feed (c @ d) p) (flush (?r @ d) (set_buf ?r p))" by (simp add: feed any)
  have h: "agree (flush (buf p' @ d) p') (feed d p')" for p' using agree_sym[OF flush_buf] by (simp add: feed)
  obtain ex p' where r: "flush ?r (set_buf ?r p) = (ex, p')" by force
  note app = flush_append[where r = ?r and p = "set_buf ?r p" and d = d, unfolded r]
  show ?thesis
  proof (cases ex)
    case None
    then show ?thesis using app agree_trans[OF agree_trans[OF g] h] by (simp add: feed[of c] r)
  next
    case (Some e)
    then have "fst (flush (?r @ d) (set_buf ?r p)) = Some e" using app by simp
    then have "fst (feed (c @ d) p) = Some e" using g unfolding agree_def by metis
    then show ?thesis using Some by (simp add: feed[of c] r)
  qed
qed

lemma feed_chunks: "CHR 0x0A \<notin> set (buf p) \<Longrightarrow> agree (feed_all feed cs p) (feed (concat cs) p)"
proof (induction cs arbitrary: p)
  case Nil
  then show ?case by (simp add: feed flush_rest buf_laws)
next
  case (Cons c cs)
  obtain ex p' where f: "feed c p = (ex, p')" by force
  note app = feed_append[where c = c and p = p and d = "concat cs", unfolded f]
  show ?case
  proof (cases ex)
    case (Some e)
    then show ?thesis using f app by (simp add: st_seq_run agree_def)
  next
    case None
    then have a: "agree (feed (c @ concat cs) p) (feed (concat cs) p')" "CHR 0x0A \<notin> set (buf p')" using app by simp_all
    then show ?thesis using agree_trans[OF Cons.IH[OF a(2)] agree_sym[OF a(1)]] f None by (simp add: st_seq_run)
  qed
qed

end

end
