(* ===== verification/SSE_Parser.thy ===== *)
theory SSE_Parser
  imports Json Line_Stream
begin

text \<open>
  \<open>gw::SSEParser\<close> (\<open>src/remote_upstream.cpp\<close>): the parser of the server-sent events of a streamed
  completion. The callbacks are recorded as events in the order they are called; a callback that is
  missing is a flag of the state. An exception leaves \<open>feed\<close> with the state at that point, and the
  \<open>catch\<close> of \<open>process_line\<close> handles everything but undefined behaviour and what is thrown outside it.
\<close>

section \<open>Model\<close>

datatype sse_event =
    Token string
  | ToolCall string string string
  | Done

record sse =
  s_buf :: string
  s_tc_id :: string
  s_tc_name :: string
  s_tc_args :: string
  s_has_tok :: bool
  s_has_tool :: bool
  s_has_done :: bool
  s_log :: "sse_event list"
  s_total_tokens :: u64     \<comment> \<open>\<open>METRIC_INC(total_tokens)\<close>\<close>

definition sse_new :: "bool \<Rightarrow> bool \<Rightarrow> bool \<Rightarrow> sse" where
  "sse_new tok tool don = \<lparr>s_buf = [], s_tc_id = [], s_tc_name = [], s_tc_args = [],
     s_has_tok = tok, s_has_tool = tool, s_has_done = don, s_log = [], s_total_tokens = 0\<rparr>"

type_synonym sse_step = "sse \<Rightarrow> exn option \<times> sse"

definition sse_emit :: "sse_event \<Rightarrow> sse \<Rightarrow> sse" where
  "sse_emit ev p = p\<lparr>s_log := s_log p @ [ev]\<rparr>"

definition st_ok :: sse_step where "st_ok p = (None, p)"

definition st_use :: "'a result \<Rightarrow> ('a \<Rightarrow> sse_step) \<Rightarrow> sse_step" where
  "st_use r f p = (case r of Inl ex \<Rightarrow> (Some ex, p) | Inr a \<Rightarrow> f a p)"

text \<open>\<open>if (j.contains(k) && j[k].is_string()) f(j[k].get<std::string>())\<close>\<close>

definition on_string :: "'j jlib \<Rightarrow> 'j \<Rightarrow> string \<Rightarrow> (string \<Rightarrow> sse \<Rightarrow> sse) \<Rightarrow> sse_step" where
  "on_string L j k f =
     (if jcontains L j k
      then st_use (jat L j k) (\<lambda>v. if jis_str L v then st_use (jget_str L v) (\<lambda>s p. (None, f s p)) else st_ok)
      else st_ok)"

text \<open>The fragments of the first tool call of a delta.\<close>

definition tool_fragment :: "'j jlib \<Rightarrow> 'j \<Rightarrow> sse_step" where
  "tool_fragment L delta =
     (if jcontains L delta ''tool_calls''
      then st_use (jat L delta ''tool_calls'') (\<lambda>tcs.
        if jis_arr L tcs \<and> \<not> jempty L tcs
        then st_use (jfirst L tcs) (\<lambda>tc.
          st_seq (on_string L tc ''id'' (\<lambda>s p. p\<lparr>s_tc_id := s\<rparr>))
            (if jcontains L tc ''function''
             then st_use (jat L tc ''function'') (\<lambda>fn.
               st_seq (on_string L fn ''name'' (\<lambda>s p. p\<lparr>s_tc_name := s\<rparr>))
                   (on_string L fn ''arguments'' (\<lambda>s p. p\<lparr>s_tc_args := s_tc_args p @ s\<rparr>)))
             else st_ok))
        else st_ok)
      else st_ok)"

text \<open>\<open>finish_reason\<close> is \<open>tool_calls\<close>\<close>

definition finished_tools :: "'j jlib \<Rightarrow> 'j \<Rightarrow> bool result" where
  "finished_tools L c0 =
     (if jcontains L c0 ''finish_reason''
      then bindE (jat L c0 ''finish_reason'') (\<lambda>v.
        if jis_str L v then bindE (jget_str L v) (\<lambda>s. Inr (s = ''tool_calls'')) else Inr False)
      else Inr False)"

definition flush_tool_call :: sse_step where
  "flush_tool_call p =
     (let p = (if s_has_tool p \<and> s_tc_id p \<noteq> []
               then sse_emit (ToolCall (s_tc_id p) (s_tc_name p) (s_tc_args p)) p else p);
          p = p\<lparr>s_tc_id := [], s_tc_name := [], s_tc_args := []\<rparr> in
      (None, if s_has_done p then sse_emit Done p else p))"

definition content_token :: "'j jlib \<Rightarrow> 'j \<Rightarrow> sse_step" where
  "content_token L delta =
     on_string L delta ''content'' (\<lambda>tok p.
       if tok \<noteq> []
       then let p = p\<lparr>s_total_tokens := s_total_tokens p + 1\<rparr> in
            if s_has_tok p then sse_emit (Token tok) p else p
       else p)"

text \<open>The body of the \<open>try\<close>.\<close>

definition handle_payload :: "'j jlib \<Rightarrow> string \<Rightarrow> sse_step" where
  "handle_payload L payload =
     st_use (jparse L payload) (\<lambda>obj.
       if jcontains L obj ''choices''
       then st_use (jat L obj ''choices'') (\<lambda>choices.
         if jempty L choices then st_ok
         else st_use (jfirst L choices) (\<lambda>c0. st_use (jat L c0 ''delta'') (\<lambda>delta.
           st_seq (tool_fragment L delta)
             (st_use (finished_tools L c0) (\<lambda>fin.
               if fin then flush_tool_call else content_token L delta)))))
       else st_ok)"

definition kPrefix :: string where "kPrefix = ''data: ''"

text \<open>The \<open>catch (const std::exception&)\<close>: the payload is passed on as it is.\<close>

fun sse_catch :: "string \<Rightarrow> exn option \<times> sse \<Rightarrow> exn option \<times> sse" where
  "sse_catch payload (None, p) = (None, p)"
| "sse_catch payload (Some ex, p) =
     (if ex = UB then (Some UB, p)
      else (None, if payload \<noteq> [] \<and> s_has_tok p then sse_emit (Token payload) p else p))"

definition process_line :: "'j jlib \<Rightarrow> string \<Rightarrow> sse_step" where
  "process_line L line p =
     (if line = [] \<or> hd line = CHR '':'' then (None, p)
      else if \<not> starts_with kPrefix line then (None, p)
      else let payload = drop (length kPrefix) line in
           if payload = ''[DONE]''
           then (if s_has_done p then (None, sse_emit Done p) else (Some BadFunctionCall, p))
           else sse_catch payload (handle_payload L payload p))"

text \<open>The loop of \<open>flush_lines\<close>: \<open>rest\<close> is the buffer from \<open>start\<close> on; \<open>buf_.erase(0, start)\<close> runs when
  no newline is left.\<close>

function flush_from :: "'j jlib \<Rightarrow> string \<Rightarrow> sse_step" where
  "flush_from L rest p =
     (if CHR 0x0A \<notin> set rest then (None, p\<lparr>s_buf := rest\<rparr>)
      else (case process_line L (strip_cr (takeWhile (\<lambda>c. c \<noteq> CHR 0x0A) rest)) p of
              (Some ex, p) \<Rightarrow> (Some ex, p)
            | (None, p) \<Rightarrow> flush_from L (tl (dropWhile (\<lambda>c. c \<noteq> CHR 0x0A) rest)) p))"
  by pat_completeness auto
termination
  by (relation "measure (\<lambda>(L, rest, p). length rest)") (auto simp del: length_tl intro: tl_dropWhile_shorter)

declare flush_from.simps [simp del]

definition sse_feed :: "'j jlib \<Rightarrow> string \<Rightarrow> sse_step" where
  "sse_feed L data p = (let p = p\<lparr>s_buf := s_buf p @ data\<rparr> in flush_from L (s_buf p) p)"

section \<open>Chunks\<close>

lemma flush_from_line:
  "CHR 0x0A \<notin> set line \<Longrightarrow> flush_from L (line @ CHR 0x0A # rest) p =
     st_seq (process_line L (strip_cr line)) (flush_from L rest) p"
  unfolding flush_from.simps[of L "line @ CHR 0x0A # rest"] take_line st_seq_def by simp

text \<open>A step that neither reads nor writes the buffer.\<close>

definition buf_blind :: "sse_step \<Rightarrow> bool" where
  "buf_blind f \<longleftrightarrow> (\<forall>p b. f (p\<lparr>s_buf := b\<rparr>) = (fst (f p), (snd (f p))\<lparr>s_buf := b\<rparr>))"

lemma blind_intros:
  "buf_blind st_ok"
  "buf_blind f \<Longrightarrow> buf_blind g \<Longrightarrow> buf_blind (st_seq f g)"
  "(\<And>a. buf_blind (h a)) \<Longrightarrow> buf_blind (st_use r h)"
  "(\<And>p b s. f' s (p\<lparr>s_buf := b\<rparr>) = (f' s p)\<lparr>s_buf := b\<rparr>) \<Longrightarrow> buf_blind (\<lambda>p. (None, f' s p))"
  "buf_blind f \<Longrightarrow> buf_blind g \<Longrightarrow> buf_blind (if c then f else g)"
  by (auto simp: buf_blind_def st_ok_def st_seq_def st_use_def split: sum.split prod.split option.split)

lemma blind_on_string:
  "(\<And>p b s. f s (p\<lparr>s_buf := b\<rparr>) = (f s p)\<lparr>s_buf := b\<rparr>) \<Longrightarrow> buf_blind (on_string L j k f)"
  unfolding on_string_def by (intro blind_intros) auto

lemma blind_tool_fragment: "buf_blind (tool_fragment L delta)"
  unfolding tool_fragment_def by (intro blind_intros blind_on_string) simp_all

lemma blind_content: "buf_blind (content_token L delta)"
  unfolding content_token_def by (intro blind_on_string) (simp add: sse_emit_def Let_def)

lemma blind_flush_tool: "buf_blind flush_tool_call"
  by (simp add: buf_blind_def flush_tool_call_def sse_emit_def Let_def)

lemma blind_payload: "buf_blind (handle_payload L payload)"
  unfolding handle_payload_def
  by (intro blind_intros blind_tool_fragment blind_content blind_flush_tool)

lemma blind_process_line: "buf_blind (process_line L line)"
  unfolding buf_blind_def
proof (intro allI)
  fix p b
  have h: "handle_payload L x (p\<lparr>s_buf := b\<rparr>) =
      (fst (handle_payload L x p), (snd (handle_payload L x p))\<lparr>s_buf := b\<rparr>)" for x
    using blind_payload[of L x] by (simp add: buf_blind_def)
  let ?x = "drop (length kPrefix) line"
  obtain ex q where hp: "handle_payload L ?x p = (ex, q)" by (cases "handle_payload L ?x p")
  have hb: "handle_payload L ?x (p\<lparr>s_buf := b\<rparr>) = (ex, q\<lparr>s_buf := b\<rparr>)" using h[of ?x] hp by simp
  have c: "sse_catch ?x (ex, q\<lparr>s_buf := b\<rparr>) =
      (fst (sse_catch ?x (ex, q)), (snd (sse_catch ?x (ex, q)))\<lparr>s_buf := b\<rparr>)"
    by (cases ex) (simp_all add: sse_emit_def)
  show "process_line L line (p\<lparr>s_buf := b\<rparr>) = (fst (process_line L line p), (snd (process_line L line p))\<lparr>s_buf := b\<rparr>)"
    unfolding process_line_def Let_def hp hb c by (simp add: sse_emit_def)
qed

fun sse_feeds :: "'j jlib \<Rightarrow> string list \<Rightarrow> sse_step" where
  "sse_feeds L [] p = (None, p)"
| "sse_feeds L (c # cs) p = st_seq (sse_feed L c) (sse_feeds L cs) p"

lemma sse_feeds_all: "sse_feeds L cs p = feed_all (sse_feed L) cs p"
  by (induction cs arbitrary: p) (auto simp: st_seq_def split: prod.split option.split)

interpretation sse: line_stream "process_line L" "flush_from L" "sse_feed L" s_buf "\<lambda>b p. p\<lparr>s_buf := b\<rparr>" for L
proof
  show "process_line L line (p\<lparr>s_buf := b\<rparr>) = (fst (process_line L line p), (snd (process_line L line p))\<lparr>s_buf := b\<rparr>)" for line p b
    using blind_process_line[of L line] by (simp add: buf_blind_def)
  show "flush_from L rest p = (None, p\<lparr>s_buf := rest\<rparr>)" if "CHR 0x0A \<notin> set rest" for rest p
    using that by (simp add: flush_from.simps)
  show "sse_feed L data p = flush_from L (s_buf p @ data) (p\<lparr>s_buf := s_buf p @ data\<rparr>)" for data p
    by (simp add: sse_feed_def Let_def)
qed (rule flush_from_line, assumption, simp_all)

lemmas flush_from_buf = sse.flush_buf
lemmas sse_feeds_agree = sse.feed_chunks[folded sse_feeds_all]

text \<open>C10. The parse does not depend on how the network cuts the stream: feeding the chunks one after the
  other gives the events, the counters, the tool-call state and the remaining buffer of feeding their
  concatenation at once, and throws exactly when that does and the same exception. The buffer holds an
  unfinished line at the start.\<close>

theorem sse_chunking:
  assumes "CHR 0x0A \<notin> set (s_buf p)"
  shows "fst (sse_feeds L cs p) = fst (sse_feed L (concat cs) p) \<and>
    (fst (sse_feed L (concat cs) p) = None \<longrightarrow> snd (sse_feeds L cs p) = snd (sse_feed L (concat cs) p))"
  using sse_feeds_agree[OF assms, of L cs] unfolding agree_def by metis

theorem sse_chunking_witness:
  "fst (sse_feeds (sample_json (\<lambda>_. Inl ParseError) (\<lambda>_. Inr [])) [''da'', ''ta: x'', [CHR 0x0A]] (sse_new True True True)) =
   fst (sse_feed (sample_json (\<lambda>_. Inl ParseError) (\<lambda>_. Inr [])) (''data: x'' @ [CHR 0x0A]) (sse_new True True True))"
  using sse_chunking[of "sse_new True True True" "sample_json (\<lambda>_. Inl ParseError) (\<lambda>_. Inr [])" "[''da'', ''ta: x'', [CHR 0x0A]]"]
  by (simp add: sse_new_def)

end
