(* ===== verification/SSE_Stream.thy ===== *)
theory SSE_Stream
  imports SSE_Parser
begin

text \<open>
  Whole streams through the parser: a completion streamed as content deltas, and a tool call streamed as
  fragments. A chunk is described by what the JSON library reads from its payload, so the theorems hold
  for every library; the witnesses use the concrete one.
\<close>

definition nl :: string where "nl = [CHR 0x0A]"

text \<open>One event: the data line and the empty line that ends it.\<close>

definition event_text :: "string \<Rightarrow> string" where
  "event_text payload = kPrefix @ payload @ nl @ nl"

definition one_line :: "string \<Rightarrow> bool" where
  "one_line s \<longleftrightarrow> CHR 0x0A \<notin> set s \<and> (s = [] \<or> last s \<noteq> CHR 0x0D)"

lemma feed_event:
  assumes "s_buf p = []" "one_line payload"
  shows "sse_feed L (event_text payload @ rest) p =
    st_seq (process_line L (kPrefix @ payload)) (flush_from L rest) (p\<lparr>s_buf := event_text payload @ rest\<rparr>)"
proof -
  have n: "CHR 0x0A \<notin> set (kPrefix @ payload)" "CHR 0x0A \<notin> set []"
    using assms(2) by (auto simp: one_line_def kPrefix_def)
  have s: "strip_cr (kPrefix @ payload) = kPrefix @ payload" "strip_cr [] = []"
    using assms(2) by (auto simp: strip_cr_def one_line_def kPrefix_def)
  have t: "event_text payload @ rest = (kPrefix @ payload) @ CHR 0x0A # ([] @ CHR 0x0A # rest)"
    by (simp add: event_text_def nl_def)
  have e: "flush_from L ([] @ CHR 0x0A # rest) q = flush_from L rest q" for q
    unfolding flush_from_line[OF n(2)] s by (simp add: st_seq_def process_line_def)
  have "sse_feed L (event_text payload @ rest) p = flush_from L (event_text payload @ rest) (p\<lparr>s_buf := event_text payload @ rest\<rparr>)"
    using assms(1) by (simp add: sse_feed_def)
  also have "\<dots> = st_seq (process_line L (kPrefix @ payload)) (flush_from L ([] @ CHR 0x0A # rest))
      (p\<lparr>s_buf := event_text payload @ rest\<rparr>)"
    unfolding t flush_from_line[OF n(1)] s by simp
  finally show ?thesis using e by (simp add: st_seq_def split: prod.split option.split)
qed

text \<open>Feeding events one by one, each of which the parser handles without an exception.\<close>

lemma feed_events_step:
  assumes "s_buf p = []" "one_line payload" "process_line L (kPrefix @ payload) p = (None, p')" "s_buf p' = []"
  shows "fst (sse_feed L (event_text payload @ rest) p) = fst (sse_feed L rest p')"
    and "fst (sse_feed L rest p') = None \<Longrightarrow> sse_feed L (event_text payload @ rest) p = sse_feed L rest p'"
proof -
  let ?b = "event_text payload @ rest"
  have pl: "process_line L (kPrefix @ payload) (p\<lparr>s_buf := ?b\<rparr>) = (None, p'\<lparr>s_buf := ?b\<rparr>)"
    using blind_process_line[of L "kPrefix @ payload"] assms(3) unfolding buf_blind_def by simp
  have f: "sse_feed L ?b p = flush_from L rest (p'\<lparr>s_buf := ?b\<rparr>)"
    unfolding feed_event[OF assms(1,2)] by (simp add: st_seq_def pl)
  have g: "sse_feed L rest p' = flush_from L rest (p'\<lparr>s_buf := rest\<rparr>)"
    using assms(4) by (simp add: sse_feed_def)
  have "agree (flush_from L rest (p'\<lparr>s_buf := ?b\<rparr>)) (flush_from L rest (p'\<lparr>s_buf := rest\<rparr>))"
    using agree_trans[OF flush_from_buf agree_sym[OF flush_from_buf]] .
  then show "fst (sse_feed L ?b p) = fst (sse_feed L rest p')"
    and "fst (sse_feed L rest p') = None \<Longrightarrow> sse_feed L ?b p = sse_feed L rest p'"
    unfolding f g agree_def by metis+
qed

lemma feed_empty: "s_buf p = [] \<Longrightarrow> sse_feed L [] p = (None, p)"
  by (simp add: sse_feed_def flush_from.simps)

text \<open>What the parser reads from a chunk: its first choice and the delta in it.\<close>

definition chunk :: "'j jlib \<Rightarrow> string \<Rightarrow> 'j \<Rightarrow> 'j \<Rightarrow> bool" where
  "chunk L payload c0 delta \<longleftrightarrow> one_line payload \<and> payload \<noteq> ''[DONE]'' \<and>
     (\<exists>obj choices. jparse L payload = Inr obj \<and> jcontains L obj ''choices'' \<and>
        jat L obj ''choices'' = Inr choices \<and> \<not> jempty L choices \<and> jfirst L choices = Inr c0 \<and>
        jat L c0 ''delta'' = Inr delta)"

text \<open>A string field, \<open>None\<close> when it is missing or no string.\<close>

definition str_field :: "'j jlib \<Rightarrow> 'j \<Rightarrow> string \<Rightarrow> string option \<Rightarrow> bool" where
  "str_field L j k r \<longleftrightarrow>
     (case r of
        None \<Rightarrow> \<not> jcontains L j k \<or> (\<exists>v. jat L j k = Inr v \<and> \<not> jis_str L v)
      | Some s \<Rightarrow> jcontains L j k \<and> (\<exists>v. jat L j k = Inr v \<and> jis_str L v \<and> jget_str L v = Inr s))"

lemma on_string_field:
  "str_field L j k r \<Longrightarrow> on_string L j k f p = (None, case r of None \<Rightarrow> p | Some s \<Rightarrow> f s p)"
  by (auto simp: str_field_def on_string_def st_use_def st_ok_def split: option.splits)

lemma process_chunk:
  assumes "chunk L payload c0 delta"
  shows "process_line L (kPrefix @ payload) p =
    sse_catch payload (st_seq (tool_fragment L delta)
      (st_use (finished_tools L c0) (\<lambda>fin. if fin then flush_tool_call else content_token L delta)) p)"
proof -
  have "starts_with kPrefix (kPrefix @ payload)" "kPrefix @ payload \<noteq> []" "hd (kPrefix @ payload) \<noteq> CHR '':''"
    by simp_all (simp_all add: kPrefix_def)
  then have ne: "\<not> (kPrefix @ payload = [] \<or> hd (kPrefix @ payload) = CHR '':'')" "starts_with kPrefix (kPrefix @ payload)"
    by blast+
  obtain obj choices where "jparse L payload = Inr obj" "jcontains L obj ''choices''"
      "jat L obj ''choices'' = Inr choices" "\<not> jempty L choices" "jfirst L choices = Inr c0" "jat L c0 ''delta'' = Inr delta"
    using assms by (auto simp: chunk_def)
  then have "handle_payload L payload p = st_seq (tool_fragment L delta)
      (st_use (finished_tools L c0) (\<lambda>fin. if fin then flush_tool_call else content_token L delta)) p"
    by (simp add: handle_payload_def st_use_def)
  moreover have "payload \<noteq> ''[DONE]''" using assms by (simp add: chunk_def)
  ultimately show ?thesis unfolding process_line_def Let_def if_not_P[OF ne(1)] using ne(2) by simp
qed

lemma process_done: "s_has_done p \<Longrightarrow> process_line L (kPrefix @ ''[DONE]'') p = (None, sse_emit Done p)"
proof -
  have "starts_with kPrefix (kPrefix @ ''[DONE]'')" by simp
  then show "s_has_done p \<Longrightarrow> process_line L (kPrefix @ ''[DONE]'') p = (None, sse_emit Done p)"
    unfolding process_line_def by (simp add: kPrefix_def)
qed

lemma one_line_done: "one_line ''[DONE]''"
  by (simp add: one_line_def)

section \<open>Content\<close>

definition content_chunk :: "'j jlib \<Rightarrow> string \<Rightarrow> string \<Rightarrow> bool" where
  "content_chunk L payload tok \<longleftrightarrow> tok \<noteq> [] \<and> (\<exists>c0 delta. chunk L payload c0 delta \<and>
     \<not> jcontains L delta ''tool_calls'' \<and> finished_tools L c0 = Inr False \<and>
     str_field L delta ''content'' (Some tok))"

lemma process_content:
  assumes "content_chunk L payload tok" "s_has_tok p"
  shows "process_line L (kPrefix @ payload) p =
    (None, p\<lparr>s_total_tokens := s_total_tokens p + 1, s_log := s_log p @ [Token tok]\<rparr>)"
proof -
  obtain c0 delta where c: "chunk L payload c0 delta" "\<not> jcontains L delta ''tool_calls''"
      "finished_tools L c0 = Inr False" "str_field L delta ''content'' (Some tok)" "tok \<noteq> []"
    using assms(1) by (auto simp: content_chunk_def)
  have "content_token L delta p = (None, p\<lparr>s_total_tokens := s_total_tokens p + 1, s_log := s_log p @ [Token tok]\<rparr>)"
    using on_string_field[OF c(4)] c(5) assms(2) by (simp add: content_token_def sse_emit_def Let_def)
  then show ?thesis
    using process_chunk[OF c(1)] c(2,3) by (simp add: tool_fragment_def st_seq_def st_ok_def st_use_def)
qed

lemma feeds_content_stream:
  assumes "\<forall>(payload, tok) \<in> set xs. content_chunk L payload tok"
    and "s_buf p = []" "s_has_tok p" "s_has_done p"
    and "concat chunks = concat (map (\<lambda>(payload, tok). event_text payload) xs) @ event_text ''[DONE]''"
  shows "sse_feeds L chunks p = (None, p\<lparr>s_log := s_log p @ map (\<lambda>(payload, tok). Token tok) xs @ [Done],
    s_total_tokens := s_total_tokens p + of_nat (length xs)\<rparr>)"
proof -
  let ?text = "\<lambda>xs. concat (map (\<lambda>(payload, tok). event_text payload) xs) @ event_text ''[DONE]''"
  have main: "sse_feed L (?text xs) p = (None, p\<lparr>s_log := s_log p @ map (\<lambda>(payload, tok). Token tok) xs @ [Done],
    s_total_tokens := s_total_tokens p + of_nat (length xs)\<rparr>)"
    using assms(1-4)
  proof (induction xs arbitrary: p)
    case Nil
    have d: "process_line L (kPrefix @ ''[DONE]'') p = (None, sse_emit Done p)" by (rule process_done[OF Nil.prems(4)])
    have b: "s_buf (sse_emit Done p) = []" using Nil.prems(2) by (simp add: sse_emit_def)
    note s = feed_events_step(2)[OF Nil.prems(2) one_line_done d b, of "[]", unfolded feed_empty[OF b]]
    show ?case using s by (simp add: sse_emit_def)
  next
    case (Cons x xs)
    obtain payload tok where x: "x = (payload, tok)" by (cases x)
    have c: "content_chunk L payload tok" using Cons.prems(1) x by simp
    let ?p = "p\<lparr>s_total_tokens := s_total_tokens p + 1, s_log := s_log p @ [Token tok]\<rparr>"
    have pl: "process_line L (kPrefix @ payload) p = (None, ?p)" by (rule process_content[OF c Cons.prems(3)])
    have b: "s_buf ?p = []" "s_has_tok ?p" "s_has_done ?p" using Cons.prems by simp_all
    have o: "one_line payload" using c by (auto simp: content_chunk_def chunk_def)
    have "\<forall>(payload, tok) \<in> set xs. content_chunk L payload tok" using Cons.prems(1) by simp
    note ih = Cons.IH[OF this b]
    have "sse_feed L (event_text payload @ ?text xs) p = sse_feed L (?text xs) ?p"
      using feed_events_step(2)[OF Cons.prems(2) o pl b(1), of "?text xs"] ih by simp
    then show ?case using ih x by (simp add: add.assoc)
  qed
  have "agree (sse_feeds L chunks p) (sse_feed L (concat chunks) p)"
    using sse_feeds_agree[of p L chunks] assms(2) by simp
  then show ?thesis unfolding assms(5) main agree_def by (metis fst_conv)
qed

text \<open>A streamed completion reaches the client exactly: feeding, in any chunks, the events of a
  stream whose payloads carry the content tokens, followed by the end marker, calls the token callback
  with these tokens in order and the completion callback once at the end, counts every token, throws
  nothing and leaves an empty buffer.\<close>

theorem sse_content_stream:
  assumes "\<forall>(payload, tok) \<in> set xs. content_chunk L payload tok"
    and "s_buf p = []" "s_has_tok p" "s_has_done p"
    and "concat chunks = concat (map (\<lambda>(payload, tok). event_text payload) xs) @ event_text ''[DONE]''"
  shows "sse_feeds L chunks p = (None, p\<lparr>s_log := s_log p @ map (\<lambda>(payload, tok). Token tok) xs @ [Done],
    s_total_tokens := s_total_tokens p + of_nat (length xs)\<rparr>)"
  by (rule feeds_content_stream[OF assms])

text \<open>A library that knows two payloads.\<close>

definition demo_choice :: "jv \<Rightarrow> (string \<times> jv) list \<Rightarrow> jv" where
  "demo_choice delta rest = JObj [(''choices'', JArr [JObj ((''delta'', delta) # rest)])]"

abbreviation demo_fn_B :: jv where
  "demo_fn_B \<equiv> JObj [(''name'', JStr ''ls''), (''arguments'', JStr ''{'')]"
abbreviation demo_tc_B :: jv where
  "demo_tc_B \<equiv> JObj [(''id'', JStr ''t1''), (''function'', demo_fn_B)]"
abbreviation demo_fn_C :: jv where
  "demo_fn_C \<equiv> JObj [(''arguments'', JStr ''}'')]"
abbreviation demo_tc_C :: jv where
  "demo_tc_C \<equiv> JObj [(''function'', demo_fn_C)]"
abbreviation demo_delta :: "jv \<Rightarrow> jv" where
  "demo_delta tc \<equiv> JObj [(''tool_calls'', JArr [tc])]"

definition sse_lib :: "jv jlib" where
  "sse_lib = sample_json (\<lambda>s.
     if s = ''A'' then Inr (demo_choice (JObj [(''content'', JStr ''Hi'')]) [])
     else if s = ''B'' then Inr (demo_choice (demo_delta demo_tc_B) [])
     else if s = ''C'' then Inr (demo_choice (demo_delta demo_tc_C) [])
     else if s = ''D'' then Inr (demo_choice (JObj []) [(''finish_reason'', JStr ''tool_calls'')])
     else Inl ParseError) (\<lambda>_. Inr [])"

lemma sse_lib_is [simp]:
  "jis_str sse_lib j = (case j of JStr _ \<Rightarrow> True | _ \<Rightarrow> False)"
  "jis_arr sse_lib j = (case j of JArr _ \<Rightarrow> True | _ \<Rightarrow> False)"
  by (simp_all add: sse_lib_def sample_json_def)

lemma sse_lib_sel [simp]:
  "jcontains sse_lib = jv_contains" "jat sse_lib = jv_at" "jfirst sse_lib = jv_first" "jempty sse_lib = jv_empty"
  "jget_str sse_lib = jv_str"
  by (simp_all add: sse_lib_def)

lemma sse_lib_chunks:
  "chunk sse_lib ''A'' (JObj [(''delta'', JObj [(''content'', JStr ''Hi'')])]) (JObj [(''content'', JStr ''Hi'')])"
  "chunk sse_lib ''D'' (JObj [(''delta'', JObj []), (''finish_reason'', JStr ''tool_calls'')]) (JObj [])"
  "chunk sse_lib ''B'' (JObj [(''delta'', demo_delta demo_tc_B)]) (demo_delta demo_tc_B)"
  "chunk sse_lib ''C'' (JObj [(''delta'', demo_delta demo_tc_C)]) (demo_delta demo_tc_C)"
  by (simp_all add: chunk_def one_line_def) (simp_all add: sse_lib_def demo_choice_def)

theorem sse_content_stream_witness:
  "s_log (snd (sse_feeds sse_lib [event_text ''A'' @ take 3 (event_text ''A''), drop 3 (event_text ''A'') @ event_text ''[DONE]'']
     (sse_new True True True))) = [Token ''Hi'', Token ''Hi'', Done]"
proof -
  have "content_chunk sse_lib ''A'' ''Hi''"
    unfolding content_chunk_def using sse_lib_chunks(1)
    by (fastforce simp: finished_tools_def str_field_def)
  then have "sse_feeds sse_lib [event_text ''A'' @ take 3 (event_text ''A''), drop 3 (event_text ''A'') @ event_text ''[DONE]'']
      (sse_new True True True) = (None, (sse_new True True True)\<lparr>s_log := [Token ''Hi'', Token ''Hi'', Done], s_total_tokens := 2\<rparr>)"
    using sse_content_stream[of "[(''A'', ''Hi''), (''A'', ''Hi'')]" sse_lib "sse_new True True True"
        "[event_text ''A'' @ take 3 (event_text ''A''), drop 3 (event_text ''A'') @ event_text ''[DONE]'']"]
    by (simp add: sse_new_def)
  then show ?thesis by simp
qed

section \<open>Tool calls\<close>

text \<open>A chunk with a fragment of the first tool call, and neither content nor a finish reason.\<close>

definition tool_chunk :: "'j jlib \<Rightarrow> string \<Rightarrow> string option \<Rightarrow> string option \<Rightarrow> string option \<Rightarrow> bool" where
  "tool_chunk L payload i n a \<longleftrightarrow> (\<exists>c0 delta tcs tc fn. chunk L payload c0 delta \<and>
     jcontains L delta ''tool_calls'' \<and> jat L delta ''tool_calls'' = Inr tcs \<and> jis_arr L tcs \<and> \<not> jempty L tcs \<and>
     jfirst L tcs = Inr tc \<and> jcontains L tc ''function'' \<and> jat L tc ''function'' = Inr fn \<and>
     str_field L tc ''id'' i \<and> str_field L fn ''name'' n \<and> str_field L fn ''arguments'' a \<and>
     finished_tools L c0 = Inr False \<and> str_field L delta ''content'' None)"

definition finish_chunk :: "'j jlib \<Rightarrow> string \<Rightarrow> bool" where
  "finish_chunk L payload \<longleftrightarrow> (\<exists>c0 delta. chunk L payload c0 delta \<and> \<not> jcontains L delta ''tool_calls'' \<and>
     finished_tools L c0 = Inr True)"

definition or_else :: "'a option \<Rightarrow> 'a \<Rightarrow> 'a" where
  "or_else x d = (case x of None \<Rightarrow> d | Some y \<Rightarrow> y)"

definition apply_fragment :: "string option \<times> string option \<times> string option \<Rightarrow> sse \<Rightarrow> sse" where
  "apply_fragment f p = (case f of (i, n, a) \<Rightarrow>
     p\<lparr>s_tc_id := or_else i (s_tc_id p), s_tc_name := or_else n (s_tc_name p), s_tc_args := s_tc_args p @ or_else a []\<rparr>)"

lemma process_tool:
  assumes "tool_chunk L payload i n a"
  shows "process_line L (kPrefix @ payload) p = (None, apply_fragment (i, n, a) p)"
proof -
  obtain c0 delta tcs tc fn where c: "chunk L payload c0 delta"
     "jcontains L delta ''tool_calls''" "jat L delta ''tool_calls'' = Inr tcs" "jis_arr L tcs" "\<not> jempty L tcs"
     "jfirst L tcs = Inr tc" "jcontains L tc ''function''" "jat L tc ''function'' = Inr fn"
     "str_field L tc ''id'' i" "str_field L fn ''name'' n" "str_field L fn ''arguments'' a"
     "finished_tools L c0 = Inr False" "str_field L delta ''content'' None"
    using assms by (auto simp: tool_chunk_def)
  have "tool_fragment L delta p = (None, apply_fragment (i, n, a) p)"
    using c(2-8) on_string_field[OF c(9)] on_string_field[OF c(10)] on_string_field[OF c(11)]
    by (auto simp: tool_fragment_def st_use_def st_seq_def apply_fragment_def or_else_def split: option.split)
  moreover have "content_token L delta q = (None, q)" for q
    using on_string_field[OF c(13)] by (simp add: content_token_def)
  ultimately show ?thesis using process_chunk[OF c(1)] c(12) by (simp add: st_seq_def st_use_def)
qed

lemma process_finish:
  assumes "finish_chunk L payload"
  shows "process_line L (kPrefix @ payload) p = flush_tool_call p"
proof -
  obtain c0 delta where c: "chunk L payload c0 delta" "\<not> jcontains L delta ''tool_calls''" "finished_tools L c0 = Inr True"
    using assms by (auto simp: finish_chunk_def)
  then show ?thesis
    using process_chunk[OF c(1)] by (simp add: tool_fragment_def st_seq_def st_ok_def st_use_def flush_tool_call_def Let_def)
qed

lemma fold_fragments:
  "s_tc_args (fold apply_fragment fs p) = s_tc_args p @ concat (map (\<lambda>(i, n, a). or_else a []) fs)"
  "s_buf (fold apply_fragment fs p) = s_buf p" "s_log (fold apply_fragment fs p) = s_log p"
  "s_has_tool (fold apply_fragment fs p) = s_has_tool p" "s_has_done (fold apply_fragment fs p) = s_has_done p"
  by (induction fs arbitrary: p) (auto simp: apply_fragment_def)

lemma feed_finish:
  assumes fc: "finish_chunk L fin" and q: "s_buf q = []" "s_has_tool q" "s_has_done q" "s_tc_id q \<noteq> []"
  shows "sse_feed L (event_text fin @ event_text ''[DONE]'') q = (None, q\<lparr>s_tc_id := [], s_tc_name := [],
      s_tc_args := [], s_log := s_log q @ [ToolCall (s_tc_id q) (s_tc_name q) (s_tc_args q), Done, Done]\<rparr>)"
proof -
  let ?q = "q\<lparr>s_tc_id := [], s_tc_name := [], s_tc_args := [],
    s_log := s_log q @ [ToolCall (s_tc_id q) (s_tc_name q) (s_tc_args q), Done]\<rparr>"
  have f: "process_line L (kPrefix @ fin) q = (None, ?q)"
    using process_finish[OF fc] q by (simp add: flush_tool_call_def sse_emit_def Let_def)
  have b: "s_buf ?q = []" "s_has_done ?q" using q by simp_all
  have d: "process_line L (kPrefix @ ''[DONE]'') ?q = (None, sse_emit Done ?q)" by (rule process_done[OF b(2)])
  have bd: "s_buf (sse_emit Done ?q) = []" using b by (simp add: sse_emit_def)
  have s2: "sse_feed L (event_text ''[DONE]'') ?q = (None, sse_emit Done ?q)"
    using feed_events_step(2)[OF b(1) one_line_done d bd, of "[]", unfolded feed_empty[OF bd]] by simp
  have "one_line fin" using fc by (auto simp: finish_chunk_def chunk_def)
  from feed_events_step(2)[OF q(1) this f b(1), of "event_text ''[DONE]''", unfolded s2]
  show ?thesis by (simp add: sse_emit_def)
qed

text \<open>C15. A streamed tool call is assembled and delivered: feeding the events of fragments followed by the
  finish event and the end marker calls the tool callback once, with the last identifier and name sent and
  the concatenation of the argument fragments in order, and then clears the accumulated state. The
  completion callback is called by the finish event and once more by the end marker.\<close>

theorem sse_tool_stream:
  assumes "\<forall>(payload, i, n, a) \<in> set xs. tool_chunk L payload i n a" "finish_chunk L fin"
    and "s_buf p = []" "s_has_tool p" "s_has_done p" "p' = fold apply_fragment (map snd xs) p" "s_tc_id p' \<noteq> []"
    and "concat chunks = concat (map (\<lambda>(payload, f). event_text payload) xs) @ event_text fin @ event_text ''[DONE]''"
  shows "sse_feeds L chunks p = (None, p'\<lparr>s_tc_id := [], s_tc_name := [], s_tc_args := [],
      s_log := s_log p @ [ToolCall (s_tc_id p') (s_tc_name p')
        (s_tc_args p @ concat (map (\<lambda>(payload, i, n, a). or_else a []) xs)), Done, Done]\<rparr>)"
proof -
  let ?text = "\<lambda>xs. concat (map (\<lambda>(payload, f). event_text payload) xs) @ event_text fin @ event_text ''[DONE]''"
  note fin = feed_finish[OF assms(2)]
  have main: "sse_feed L (?text xs) p = sse_feed L (event_text fin @ event_text ''[DONE]'') (fold apply_fragment (map snd xs) p)"
    using assms(1,3-5) assms(7)[unfolded assms(6)]
  proof (induction xs arbitrary: p)
    case (Cons x xs)
    obtain payload i n a where x: "x = (payload, i, n, a)" by (cases x)
    have t: "tool_chunk L payload i n a" using Cons.prems(1) x by simp
    let ?p = "apply_fragment (i, n, a) p"
    have b: "s_buf ?p = []" "s_has_tool ?p" "s_has_done ?p" using Cons.prems by (simp_all add: apply_fragment_def)
    have xs: "\<forall>(payload, i, n, a) \<in> set xs. tool_chunk L payload i n a" using Cons.prems(1) by simp
    have ne: "s_tc_id (fold apply_fragment (map snd xs) ?p) \<noteq> []" using Cons.prems(5) x by simp
    note ih = Cons.IH[OF xs b ne]
    have "fst (sse_feed L (?text xs) ?p) = None"
      unfolding ih using fin[of "fold apply_fragment (map snd xs) ?p"] b ne by (simp add: fold_fragments)
    moreover have "one_line payload" using t by (auto simp: tool_chunk_def chunk_def)
    ultimately have "sse_feed L (event_text payload @ ?text xs) p = sse_feed L (?text xs) ?p"
      using feed_events_step(2)[OF Cons.prems(2) _ process_tool[OF t] b(1)] by blast
    then show ?case using ih x by simp
  qed simp
  have p': "s_buf p' = []" "s_has_tool p'" "s_has_done p'" "s_tc_id p' \<noteq> []" "s_log p' = s_log p"
      "s_tc_args p' = s_tc_args p @ concat (map (\<lambda>(payload, i, n, a). or_else a []) xs)"
    using assms(3-7) by (simp_all add: fold_fragments comp_def case_prod_beta cong: map_cong)
  have res: "sse_feed L (?text xs) p = (None, p'\<lparr>s_tc_id := [], s_tc_name := [], s_tc_args := [],
      s_log := s_log p @ [ToolCall (s_tc_id p') (s_tc_name p')
        (s_tc_args p @ concat (map (\<lambda>(payload, i, n, a). or_else a []) xs)), Done, Done]\<rparr>)"
    using main fin[OF p'(1-4)] p'(5,6) assms(6) by simp
  have "agree (sse_feeds L chunks p) (sse_feed L (concat chunks) p)"
    using sse_feeds_agree[of p L chunks] assms(3) by simp
  then show ?thesis unfolding assms(8) res agree_def by (metis fst_conv)
qed

theorem sse_tool_stream_witness:
  "s_log (snd (sse_feeds sse_lib [event_text ''B'' @ event_text ''C'', event_text ''D'' @ event_text ''[DONE]'']
     (sse_new True True True))) = [ToolCall ''t1'' ''ls'' ''{}'', Done, Done]"
proof -
  have B: "tool_chunk sse_lib ''B'' (Some ''t1'') (Some ''ls'') (Some ''{'')"
    unfolding tool_chunk_def
    by (rule exI, rule exI, rule exI[of _ "JArr [demo_tc_B]"], rule exI[of _ demo_tc_B], rule exI[of _ demo_fn_B],
        rule conjI, rule sse_lib_chunks(3)) (simp add: finished_tools_def str_field_def)
  have C: "tool_chunk sse_lib ''C'' None None (Some ''}'')"
    unfolding tool_chunk_def
    by (rule exI, rule exI, rule exI[of _ "JArr [demo_tc_C]"], rule exI[of _ demo_tc_C], rule exI[of _ demo_fn_C],
        rule conjI, rule sse_lib_chunks(4)) (simp add: finished_tools_def str_field_def)
  have D: "finish_chunk sse_lib ''D''"
    unfolding finish_chunk_def using sse_lib_chunks(2) by (fastforce simp: finished_tools_def)
  show ?thesis
    using sse_tool_stream[of "[(''B'', Some ''t1'', Some ''ls'', Some ''{''), (''C'', None, None, Some ''}'')]" sse_lib "''D''"
        "sse_new True True True" _ "[event_text ''B'' @ event_text ''C'', event_text ''D'' @ event_text ''[DONE]'']"] B C D
    by (simp add: sse_new_def apply_fragment_def or_else_def)
qed

end
