(* ===== verification/Metrics.thy ===== *)
theory Metrics
  imports Gateway_Prelude
begin

text \<open>
  \<open>gw::Metrics\<close> (\<open>include/metrics.h\<close>), the process-wide counters, and \<open>Logger\<close> (\<open>include/logger.h\<close>), the
  ring buffer between the threads that log and the one that writes the file. Counters are 64-bit and
  wrap. Each atomic operation is one step; the text of a double is a parameter, because the stream's
  formatting is not a function of the rationals alone.
\<close>

section \<open>Counters\<close>

record metrics =
  m_total_requests :: u64
  m_active_requests :: u64
  m_total_tokens :: u64
  m_success_count :: u64
  m_errors :: u64
  m_rate_limited :: u64
  m_auth_failed :: u64
  m_total_latency_us :: u64
  m_total_first_token_us :: u64
  m_first_token_count :: u64
  m_max_latency_us :: u64

definition metrics_zero :: metrics where
  "metrics_zero = \<lparr>m_total_requests = 0, m_active_requests = 0, m_total_tokens = 0, m_success_count = 0,
     m_errors = 0, m_rate_limited = 0, m_auth_failed = 0, m_total_latency_us = 0,
     m_total_first_token_us = 0, m_first_token_count = 0, m_max_latency_us = 0\<rparr>"

text \<open>\<open>METRIC_MAX\<close>: the compare-and-exchange loop, run without interference, stores the larger value.\<close>

definition metric_max :: "u64 \<Rightarrow> u64 \<Rightarrow> u64" where
  "metric_max cur val = (if val > cur then val else cur)"

definition round2 :: "double \<Rightarrow> double" where
  "round2 x = of_int (if 0 \<le> x then \<lfloor>x * 100 + 1 / 2\<rfloor> else - \<lfloor>- x * 100 + 1 / 2\<rfloor>) / 100"

definition avg_ms :: "u64 \<Rightarrow> u64 \<Rightarrow> double" where
  "avg_ms us cnt = (if cnt > 0 then of_nat (unat us) / 1000 / of_nat (unat cnt) else 0)"

definition u64_text :: "u64 \<Rightarrow> string" where
  "u64_text w = nat_to_string (unat w)"

definition metrics_snapshot :: "(double \<Rightarrow> string) \<Rightarrow> metrics \<Rightarrow> string" where
  "metrics_snapshot fmt m =
     ''total_requests='' @ u64_text (m_total_requests m) @ '' active='' @ u64_text (m_active_requests m) @
     '' success='' @ u64_text (m_success_count m) @ '' errors='' @ u64_text (m_errors m) @
     '' total_tokens='' @ u64_text (m_total_tokens m) @ '' rate_limited='' @ u64_text (m_rate_limited m) @
     '' auth_failed='' @ u64_text (m_auth_failed m) @
     [CHR 0x0A] @ ''avg_latency_ms='' @ fmt (round2 (avg_ms (m_total_latency_us m) (m_success_count m))) @
     '' avg_first_token_ms='' @ fmt (round2 (avg_ms (m_total_first_token_us m) (m_first_token_count m))) @
     '' max_latency_ms='' @ fmt (round2 (of_nat (unat (m_max_latency_us m)) / 1000))"

lemma metric_max_max: "metric_max a b = max a b"
  by (auto simp: metric_max_def max_def dest: less_imp_le)

section \<open>The log buffer\<close>

datatype log_level = DEBUG | INFO | WARN | ERROR

definition level_code :: "log_level \<Rightarrow> nat" where
  "level_code l = (case l of DEBUG \<Rightarrow> 0 | INFO \<Rightarrow> 1 | WARN \<Rightarrow> 2 | ERROR \<Rightarrow> 3)"

lemma level_code_inj: "level_code a = level_code b \<longleftrightarrow> a = b"
  by (cases a; cases b) (simp_all add: level_code_def)

text \<open>The levels are compared by their codes, as the enumeration of the source is.\<close>

instantiation log_level :: linorder
begin

definition less_eq_log_level :: "log_level \<Rightarrow> log_level \<Rightarrow> bool" where
  "less_eq_log_level a b \<longleftrightarrow> level_code a \<le> level_code b"

definition less_log_level :: "log_level \<Rightarrow> log_level \<Rightarrow> bool" where
  "less_log_level a b \<longleftrightarrow> level_code a < level_code b"

instance
  by standard (auto simp: less_eq_log_level_def less_log_level_def level_code_inj dest: antisym)

end

lemmas level_order = less_eq_log_level_def less_log_level_def level_code_def

definition kBufSize :: nat where "kBufSize = 4096"

record logger =
  lg_min_level :: log_level
  lg_file :: string
  lg_buf :: "string list"     \<comment> \<open>\<open>std::array\<close> of 4096 strings\<close>
  lg_write_pos :: nat
  lg_read_pos :: nat
  lg_count :: nat

definition logger_init :: "log_level \<Rightarrow> string \<Rightarrow> logger" where
  "logger_init min_level old = \<lparr>lg_min_level = min_level, lg_file = old, lg_buf = replicate kBufSize [],
     lg_write_pos = 0, lg_read_pos = 0, lg_count = 0\<rparr>"

text \<open>\<open>snprintf\<close> into 2048 bytes keeps 2047; \<open>msg.c_str()\<close> ends at a zero byte. \<open>ts\<close> is the time stamp.\<close>

definition level_text :: "log_level \<Rightarrow> string" where
  "level_text l = (case l of DEBUG \<Rightarrow> ''DEBUG'' | INFO \<Rightarrow> ''INFO '' | WARN \<Rightarrow> ''WARN '' | ERROR \<Rightarrow> ''ERROR'')"

definition log_format :: "string \<Rightarrow> log_level \<Rightarrow> string \<Rightarrow> string" where
  "log_format ts lv msg =
     take 2047 (''['' @ ts @ ''][''  @ level_text lv @ ''] '' @ takeWhile (\<lambda>c. c \<noteq> CHR 0x00) msg @ [CHR 0x0A])"

definition logger_log :: "string \<Rightarrow> log_level \<Rightarrow> string \<Rightarrow> logger \<Rightarrow> logger" where
  "logger_log ts lv msg g =
     (if lv < lg_min_level g then g
      else g\<lparr>lg_write_pos := Suc (lg_write_pos g),
             lg_buf := (lg_buf g)[lg_write_pos g mod kBufSize := log_format ts lv msg],
             lg_count := Suc (lg_count g)\<rparr>)"

text \<open>The loop of \<open>flush_all\<close>, once per counted line.\<close>

definition flush_one :: "logger \<Rightarrow> logger" where
  "flush_one g =
     (let pos = lg_read_pos g mod kBufSize in
      g\<lparr>lg_read_pos := Suc (lg_read_pos g), lg_file := lg_file g @ (lg_buf g ! pos),
        lg_buf := (lg_buf g)[pos := []], lg_count := lg_count g - 1\<rparr>)"

function flush_all :: "logger \<Rightarrow> logger" where
  "flush_all g = (if lg_count g > 0 then flush_all (flush_one g) else g)"
  by auto
termination
  by (relation "measure lg_count") (auto simp: flush_one_def Let_def)

declare flush_all.simps [simp del]

text \<open>The pending lines, oldest first, and the states in which none has been overwritten.\<close>

definition lg_pending :: "logger \<Rightarrow> string list" where
  "lg_pending g = map (\<lambda>i. lg_buf g ! ((lg_read_pos g + i) mod kBufSize)) [0..<lg_count g]"

definition logger_ok :: "logger \<Rightarrow> bool" where
  "logger_ok g \<longleftrightarrow> length (lg_buf g) = kBufSize \<and> lg_write_pos g = lg_read_pos g + lg_count g \<and> lg_count g \<le> kBufSize"

lemma kBufSize_pos [simp]: "0 < kBufSize" by (simp add: kBufSize_def)

lemma mod_add_neq: "i < j \<Longrightarrow> j < i + n \<Longrightarrow> (i :: nat) mod n \<noteq> j mod n"
proof
  assume a: "i < j" "j < i + n" "i mod n = j mod n"
  then have "n dvd j - i" by (metis less_imp_le mod_eq_dvd_iff_nat)
  then show False using a by (auto dest: dvd_imp_le)
qed

lemma logger_log_pending:
  assumes "logger_ok g" "lg_count g < kBufSize" "lg_min_level g \<le> lv"
  shows "logger_ok (logger_log ts lv msg g) \<and> lg_pending (logger_log ts lv msg g) = lg_pending g @ [log_format ts lv msg] \<and>
    lg_file (logger_log ts lv msg g) = lg_file g"
proof -
  let ?w = "lg_write_pos g" and ?r = "lg_read_pos g" and ?n = "lg_count g"
  have w: "?w = ?r + ?n" "length (lg_buf g) = kBufSize" using assms(1) by (auto simp: logger_ok_def)
  have "(lg_buf g)[?w mod kBufSize := x] ! ((?r + i) mod kBufSize) = lg_buf g ! ((?r + i) mod kBufSize)"
    if "i < ?n" for i x
    using mod_add_neq[of "?r + i" ?w kBufSize] that w assms(2) by simp
  then show ?thesis
    using assms w by (auto simp: logger_log_def logger_ok_def lg_pending_def)
qed

lemma flush_one_pending:
  assumes "logger_ok g" "0 < lg_count g"
  shows "logger_ok (flush_one g) \<and> lg_pending (flush_one g) = tl (lg_pending g) \<and>
    lg_file (flush_one g) = lg_file g @ hd (lg_pending g) \<and> lg_count (flush_one g) = lg_count g - 1"
proof -
  let ?r = "lg_read_pos g" and ?n = "lg_count g"
  have len: "length (lg_buf g) = kBufSize" "?n \<le> kBufSize" using assms(1) by (auto simp: logger_ok_def)
  have "(lg_buf g)[?r mod kBufSize := x] ! ((?r + i) mod kBufSize) = lg_buf g ! ((?r + i) mod kBufSize)"
    if "0 < i" "i < ?n" for i x
    using mod_add_neq[of ?r "?r + i" kBufSize] that len by simp
  then have "lg_pending (flush_one g) = map (\<lambda>i. lg_buf g ! ((?r + Suc i) mod kBufSize)) [0..<?n - 1]"
    by (auto simp: lg_pending_def flush_one_def Let_def simp flip: add_Suc_right)
  also have "\<dots> = map (\<lambda>i. lg_buf g ! ((?r + i) mod kBufSize)) (map Suc [0..<?n - 1])" by simp
  also have "map Suc [0..<?n - 1] = [1..<?n]" using assms(2) map_Suc_upt[of 0 "?n - 1"] by simp
  finally have "lg_pending (flush_one g) = tl (lg_pending g)"
    using assms(2) by (simp add: lg_pending_def upt_conv_Cons)
  moreover have "hd (lg_pending g) = lg_buf g ! (?r mod kBufSize)" using assms(2) by (simp add: lg_pending_def upt_conv_Cons)
  moreover have "logger_ok (flush_one g)"
    using assms len by (auto simp: logger_ok_def flush_one_def Let_def)
  ultimately show ?thesis by (simp add: flush_one_def Let_def)
qed

lemma flush_all_pending:
  "logger_ok g \<Longrightarrow> logger_ok (flush_all g) \<and> lg_pending (flush_all g) = [] \<and>
     lg_file (flush_all g) = lg_file g @ concat (lg_pending g)"
proof (induction g rule: flush_all.induct)
  case (1 g)
  show ?case
  proof (cases "lg_count g > 0")
    case True
    have "lg_pending g \<noteq> []" using True by (simp add: lg_pending_def)
    then have "hd (lg_pending g) @ concat (tl (lg_pending g)) = concat (lg_pending g)" by (cases "lg_pending g") auto
    then show ?thesis
      using 1(1)[OF True] flush_one_pending[OF 1(2) True] True by (simp add: flush_all.simps[of g])
  next
    case False
    then show ?thesis using 1(2) by (simp add: flush_all.simps[of g] lg_pending_def)
  qed
qed

text \<open>The log buffer is a queue of 4096 lines: while fewer are pending, a line at or above the minimum
  level is appended to the pending lines and no other is disturbed, a line below it changes nothing, and a
  flush writes the pending lines to the file in the order they were logged and leaves none pending.\<close>

theorem logger_fifo:
  assumes "logger_ok g" "lg_count g < kBufSize"
  shows "lg_pending (logger_log ts lv msg g) =
      (if lg_min_level g \<le> lv then lg_pending g @ [log_format ts lv msg] else lg_pending g) \<and>
    lg_file (logger_log ts lv msg g) = lg_file g \<and> logger_ok (logger_log ts lv msg g) \<and>
    lg_file (flush_all g) = lg_file g @ concat (lg_pending g) \<and> lg_pending (flush_all g) = [] \<and> logger_ok (flush_all g)"
  using logger_log_pending[OF assms, of lv ts msg] flush_all_pending[OF assms(1)] assms(1)
  by (cases "lg_min_level g \<le> lv") (simp_all add: logger_log_def not_le)

theorem logger_fifo_witness:
  "lg_file (flush_all (logger_log ''t'' WARN ''disk'' (logger_init INFO ''old''))) = ''old[t][WARN ] disk'' @ [CHR 0x0A]"
proof -
  let ?g = "logger_init INFO ''old''" and ?g1 = "logger_log ''t'' WARN ''disk'' (logger_init INFO ''old'')"
  have g: "logger_ok ?g" "lg_count ?g < kBufSize" "lg_pending ?g = []" "lg_min_level ?g = INFO" "lg_file ?g = ''old''"
    by (simp_all add: logger_init_def logger_ok_def lg_pending_def)
  have "logger_ok ?g1" "lg_pending ?g1 = [log_format ''t'' WARN ''disk'']" "lg_file ?g1 = ''old''"
    using logger_fifo[OF g(1,2), of "''t''" WARN "''disk''"] g by (simp_all add: level_order)
  moreover have "lg_count ?g1 < kBufSize" by (simp add: logger_log_def logger_init_def level_order kBufSize_def)
  ultimately show ?thesis using logger_fifo[of ?g1] by (simp add: log_format_def level_text_def)
qed

end
