(* ===== verification/Remote_Upstream.thy ===== *)
theory Remote_Upstream
  imports SSE_Stream Metrics Router
begin

text \<open>
  \<open>gw::RemoteUpstream\<close> (\<open>src/remote_upstream.cpp\<close>): the queue of submitted requests, the transfers the I/O
  thread has started, and what it does when one ends. libcurl is outside the repository: the handles it
  creates, the bytes it delivers and the results it reports are inputs of the steps. The callbacks that a
  step calls are recorded in a log, with the request they belong to.
\<close>

section \<open>Model\<close>

text \<open>\<open>LLMRequest\<close>; of the callbacks only whether they are set matters here.\<close>

record llm_request =
  lr_id :: u64
  lr_provider :: provider
  lr_model :: string
  lr_messages_json :: string
  lr_tools_json :: string
  lr_temperature :: double
  lr_max_tokens :: int
  lr_has_token :: bool
  lr_has_tool_call :: bool
  lr_has_done :: bool
  lr_has_error :: bool

record pending_task =
  pt_req :: llm_request
  pt_url :: string
  pt_api_key :: string

record transfer_ctx =
  tc_req :: llm_request
  tc_url :: string
  tc_body :: string
  tc_hdrs :: "string list"
  tc_parser :: sse
  tc_has_err :: bool

type_synonym handle = nat

record remote_upstream =
  ru_running :: bool
  ru_pending :: "pending_task list"
  ru_active :: "(handle, transfer_ctx) umap"
  ru_metrics :: metrics
  ru_errors :: "(llm_request \<times> string) list"     \<comment> \<open>calls of \<open>on_error\<close>, oldest first\<close>

definition ru_start :: "remote_upstream \<Rightarrow> remote_upstream" where
  "ru_start u = u\<lparr>ru_running := True\<rparr>"

definition ru_stop :: "remote_upstream \<Rightarrow> remote_upstream" where
  "ru_stop u = u\<lparr>ru_running := False, ru_active := []\<rparr>"

definition ru_submit :: "llm_request \<Rightarrow> string \<Rightarrow> string \<Rightarrow> remote_upstream \<Rightarrow> remote_upstream" where
  "ru_submit req url api_key u =
     u\<lparr>ru_pending := ru_pending u @ [\<lparr>pt_req = req, pt_url = url, pt_api_key = api_key\<rparr>]\<rparr>"

definition call_error :: "bool \<Rightarrow> llm_request \<Rightarrow> string \<Rightarrow> remote_upstream \<Rightarrow> remote_upstream" where
  "call_error present req msg u = (if present then u\<lparr>ru_errors := ru_errors u @ [(req, msg)]\<rparr> else u)"

text \<open>The JSON body of the request.\<close>

definition request_body :: "'j jlib \<Rightarrow> llm_request \<Rightarrow> 'j result" where
  "request_body L req =
     bindE (jparse L (lr_messages_json req)) (\<lambda>messages.
       let body = jobj L [(''model'', jstr L (lr_model req)), (''messages'', messages),
                          (''temperature'', jnum L (lr_temperature req)),
                          (''max_tokens'', jint L (lr_max_tokens req)), (''stream'', jbool L True)] in
       if lr_tools_json req = [] then Inr body
       else bindE (jparse L (lr_tools_json req)) (\<lambda>tools.
              bindE (jput L ''tools'' tools body) (jput L ''tool_choice'' (jstr L ''auto''))))"

definition request_headers :: "string \<Rightarrow> string list" where
  "request_headers api_key =
     [''Content-Type: application/json''] @
     (if api_key = [] then [] else [''Authorization: Bearer '' @ api_key]) @
     [''Accept: text/event-stream'', ''Cache-Control: no-cache'', ''Expect:'']"

text \<open>\<open>easy\<close> is what \<open>curl_easy_init\<close> returns. An exception leaves the I/O thread.\<close>

definition add_transfer ::
  "'j jlib \<Rightarrow> handle option \<Rightarrow> pending_task \<Rightarrow> remote_upstream \<Rightarrow> exn option \<times> remote_upstream" where
  "add_transfer L easy task u =
     (let req = pt_req task in
      case request_body L req of
        Inl ex \<Rightarrow> (Some ex, u)
      | Inr body \<Rightarrow>
          (case easy of
             None \<Rightarrow> (None, call_error (lr_has_error req) req ''curl_easy_init failed'' u)
           | Some h \<Rightarrow>
               (case jdump L body of
                  Inl ex \<Rightarrow> (Some ex, u)
                | Inr text \<Rightarrow>
                    let ctx = \<lparr>tc_req = req, tc_url = pt_url task, tc_body = text,
                               tc_hdrs = request_headers (pt_api_key task),
                               tc_parser = sse_new (lr_has_token req) (lr_has_tool_call req) (lr_has_done req),
                               tc_has_err = lr_has_error req\<rparr> in
                    (None, u\<lparr>ru_metrics := (ru_metrics u)\<lparr>m_active_requests := m_active_requests (ru_metrics u) + 1\<rparr>,
                             ru_active := um_set h ctx (ru_active u)\<rparr>))))"

text \<open>\<open>drain_queue\<close>: the queue is swapped out first; the tasks behind one that throws are lost.\<close>

fun add_transfers ::
  "'j jlib \<Rightarrow> (handle option \<times> pending_task) list \<Rightarrow> remote_upstream \<Rightarrow> exn option \<times> remote_upstream" where
  "add_transfers L [] u = (None, u)"
| "add_transfers L ((easy, task) # ts) u =
     (case add_transfer L easy task u of
        (Some ex, u) \<Rightarrow> (Some ex, u)
      | (None, u) \<Rightarrow> add_transfers L ts u)"

definition drain_queue :: "'j jlib \<Rightarrow> handle option list \<Rightarrow> remote_upstream \<Rightarrow> exn option \<times> remote_upstream" where
  "drain_queue L easies u = add_transfers L (zip easies (ru_pending u)) (u\<lparr>ru_pending := []\<rparr>)"

text \<open>\<open>write_cb\<close>: bytes for a running transfer go to its parser.\<close>

definition ru_write :: "'j jlib \<Rightarrow> handle \<Rightarrow> string \<Rightarrow> remote_upstream \<Rightarrow> exn option \<times> remote_upstream" where
  "ru_write L h bytes u =
     (case um_find (ru_active u) h of
        None \<Rightarrow> (None, u)
      | Some ctx \<Rightarrow>
          (case sse_feed L bytes (tc_parser ctx) of
             (ex, p) \<Rightarrow>
               (ex, u\<lparr>ru_active := um_set h (ctx\<lparr>tc_parser := p\<rparr>) (ru_active u),
                      ru_metrics := (ru_metrics u)\<lparr>m_total_tokens :=
                        m_total_tokens (ru_metrics u) + (s_total_tokens p - s_total_tokens (tc_parser ctx))\<rparr>\<rparr>)))"

text \<open>A message of \<open>curl_multi_info_read\<close>: the handle, the text of the transfer's error if it failed, and
  the response code.\<close>

record curl_msg =
  cm_handle :: handle
  cm_error :: "string option"
  cm_http_code :: nat

definition reap_one :: "curl_msg \<Rightarrow> remote_upstream \<Rightarrow> remote_upstream" where
  "reap_one msg u =
     (case um_find (ru_active u) (cm_handle msg) of
        None \<Rightarrow> u
      | Some ctx \<Rightarrow>
          let m = ru_metrics u;
              u = (case cm_error msg of
                     Some text \<Rightarrow> (call_error (tc_has_err ctx) (tc_req ctx) text u)\<lparr>ru_metrics := m\<lparr>m_errors := m_errors m + 1\<rparr>\<rparr>
                   | None \<Rightarrow>
                       if cm_http_code msg \<noteq> 200
                       then (call_error (tc_has_err ctx) (tc_req ctx) (''HTTP '' @ nat_to_string (cm_http_code msg)) u)
                              \<lparr>ru_metrics := m\<lparr>m_errors := m_errors m + 1\<rparr>\<rparr>
                       else u\<lparr>ru_metrics := m\<lparr>m_success_count := m_success_count m + 1\<rparr>\<rparr>) in
          u\<lparr>ru_metrics := (ru_metrics u)\<lparr>m_active_requests := m_active_requests (ru_metrics u) - 1\<rparr>,
            ru_active := um_erase (cm_handle msg) (ru_active u)\<rparr>)"

definition reap_finished :: "curl_msg list \<Rightarrow> remote_upstream \<Rightarrow> remote_upstream" where
  "reap_finished msgs u = fold reap_one msgs u"

section \<open>Accounting\<close>

text \<open>The steps of the engine. A new handle is one that is not in use.\<close>

inductive ru_step :: "'j jlib \<Rightarrow> remote_upstream \<Rightarrow> remote_upstream \<Rightarrow> bool" for L where
  submit: "ru_step L u (ru_submit req url key u)"
| transfer: "add_transfer L easy task u = (ex, u') \<Longrightarrow> (\<And>h. easy = Some h \<Longrightarrow> um_find (ru_active u) h = None) \<Longrightarrow>
    ru_step L u u'"
| bytes: "ru_write L h data u = (ex, u') \<Longrightarrow> ru_step L u u'"
| reap: "ru_step L u (reap_one msg u)"

abbreviation ru_steps :: "'j jlib \<Rightarrow> remote_upstream \<Rightarrow> remote_upstream \<Rightarrow> bool" where
  "ru_steps L u \<equiv> reach_of (\<lambda>v. v = u) (ru_step L)"

inductive_cases ru_stepE: "ru_step L u v"

lemma um_set_new_length: "um_find m k = None \<Longrightarrow> length (um_set k v m) = Suc (length m)"
  unfolding um_find_def um_set_def by (induction m) (auto split: if_splits)

lemma um_set_old_length: "um_find m k = Some w \<Longrightarrow> length (um_set k v m) = length m"
  unfolding um_find_def um_set_def by (induction m) (auto split: if_splits)

lemma um_erase_length: "um_ok m \<Longrightarrow> um_find m k = Some w \<Longrightarrow> length m = Suc (length (um_erase k m))"
proof -
  have "k \<notin> fst ` set m \<Longrightarrow> AList.delete k m = m" by (simp add: delete_id)
  have "distinct (map fst m) \<Longrightarrow> map_of m k = Some w \<Longrightarrow> length m = Suc (length (AList.delete k m))"
    by (induction m) (auto split: if_splits simp: delete_id)
  then show "um_ok m \<Longrightarrow> um_find m k = Some w \<Longrightarrow> length m = Suc (length (um_erase k m))"
    by (simp add: um_ok_def um_find_def um_erase_def)
qed

definition ru_inv :: "remote_upstream \<Rightarrow> u64 \<Rightarrow> bool" where
  "ru_inv u base \<longleftrightarrow> um_ok (ru_active u) \<and> m_active_requests (ru_metrics u) = base + of_nat (length (ru_active u))"

lemma call_error_simps [simp]:
  "ru_active (call_error b r m u) = ru_active u" "ru_metrics (call_error b r m u) = ru_metrics u"
  "ru_pending (call_error b r m u) = ru_pending u"
  by (simp_all add: call_error_def)

lemma reap_one_some:
  assumes "um_find (ru_active u) (cm_handle msg) = Some ctx"
  shows "ru_active (reap_one msg u) = um_erase (cm_handle msg) (ru_active u)"
    "m_active_requests (ru_metrics (reap_one msg u)) = m_active_requests (ru_metrics u) - 1"
    "m_success_count (ru_metrics (reap_one msg u)) + m_errors (ru_metrics (reap_one msg u)) =
       m_success_count (ru_metrics u) + m_errors (ru_metrics u) + 1"
  using assms by (auto simp: reap_one_def Let_def split: option.split)

lemma ru_step_inv: "ru_step L u v \<Longrightarrow> ru_inv u base \<Longrightarrow> ru_inv v base"
proof (erule ru_stepE, goal_cases)
  case (1 req url key)
  then show ?case by (simp add: ru_inv_def ru_submit_def)
next
  case (2 easy task ex)
  then show ?case
    by (auto simp: add_transfer_def Let_def ru_inv_def um_set_new_length split: sum.splits option.splits)
next
  case (3 h data ex)
  then show ?case
    by (auto simp: ru_write_def ru_inv_def um_set_old_length split: option.splits prod.splits)
next
  case (4 msg)
  show ?case
  proof (cases "um_find (ru_active u) (cm_handle msg)")
    case None
    then show ?thesis using 4 by (simp add: reap_one_def)
  next
    case (Some ctx)
    have "length (ru_active u) = Suc (length (um_erase (cm_handle msg) (ru_active u)))"
      using 4(1) Some um_erase_length by (auto simp: ru_inv_def)
    then show ?thesis
      using 4 reap_one_some[OF Some] by (simp add: ru_inv_def)
  qed
qed

interpretation engine: step_system "\<lambda>u. ru_active u = [] \<and> m_active_requests (ru_metrics u) = base" "ru_step L" "\<lambda>u. ru_inv u base" for L base
  by unfold_locales (simp add: ru_inv_def, rule ru_step_inv)

lemma ru_steps_inv: "ru_steps L u v \<Longrightarrow> ru_inv u base \<Longrightarrow> ru_inv v base"
  by (rule engine.reach_inv_from)

text \<open>C28. The gauge of active requests counts the running transfers: through every interleaving of
  submissions, started transfers (also ones that throw or get no handle), received bytes and finished
  transfers, the engine's contribution to \<open>active_requests\<close> is the number of transfers in its table; so it
  is back at its starting value whenever no transfer is left.\<close>

theorem active_requests_balance:
  assumes "ru_steps L u v" "ru_active u = []"
  shows "m_active_requests (ru_metrics v) = m_active_requests (ru_metrics u) + of_nat (length (ru_active v)) \<and>
    (ru_active v = [] \<longrightarrow> m_active_requests (ru_metrics v) = m_active_requests (ru_metrics u))"
  using ru_steps_inv[OF assms(1), of "m_active_requests (ru_metrics u)"] assms(2) by (simp add: ru_inv_def)

definition demo_request :: llm_request where
  "demo_request = \<lparr>lr_id = 0, lr_provider = KIMI, lr_model = ''m'', lr_messages_json = ''[]'', lr_tools_json = [],
     lr_temperature = 7 / 10, lr_max_tokens = 10, lr_has_token = True, lr_has_tool_call = False, lr_has_done = True,
     lr_has_error = True\<rparr>"

definition demo_upstream :: remote_upstream where
  "demo_upstream = \<lparr>ru_running = True, ru_pending = [], ru_active = [], ru_metrics = metrics_zero, ru_errors = []\<rparr>"

definition demo_curl_lib :: "jv jlib" where
  "demo_curl_lib = sample_json (\<lambda>_. Inr (JArr [])) (\<lambda>_. Inr ''body'')"

theorem active_requests_balance_witness:
  "m_active_requests (ru_metrics (snd (add_transfer demo_curl_lib (Some 7)
     \<lparr>pt_req = demo_request, pt_url = ''u'', pt_api_key = ''k''\<rparr> demo_upstream))) = 1"
proof -
  let ?t = "\<lparr>pt_req = demo_request, pt_url = ''u'', pt_api_key = ''k''\<rparr>"
  obtain ex v where v: "add_transfer demo_curl_lib (Some 7) ?t demo_upstream = (ex, v)"
    by (cases "add_transfer demo_curl_lib (Some 7) ?t demo_upstream")
  have "length (ru_active v) = 1"
    using v by (simp add: add_transfer_def request_body_def demo_curl_lib_def demo_request_def demo_upstream_def um_set_def Let_def)
       auto
  moreover have "ru_step demo_curl_lib demo_upstream v"
    by (rule ru_step.transfer[OF v]) (simp add: demo_upstream_def)
  then have "ru_steps demo_curl_lib demo_upstream v" by (rule reach_of.step[rotated]) (simp add: reach_of.start)
  ultimately show ?thesis
    using active_requests_balance[where L = demo_curl_lib and u = demo_upstream and v = v] v
    by (simp add: demo_upstream_def metrics_zero_def)
qed

text \<open>Every finished transfer is settled once: for the messages libcurl reports, each at most once for a
  handle, a transfer that is in the table leaves it and counts as one success or one error, a failed or
  non-200 one calls its request's error callback with the reason, and the others stay untouched.\<close>

theorem reap_settles:
  assumes "um_ok (ru_active u)" "um_find (ru_active u) (cm_handle msg) = Some ctx"
  shows "um_find (ru_active (reap_one msg u)) h = (if h = cm_handle msg then None else um_find (ru_active u) h) \<and>
    m_success_count (ru_metrics (reap_one msg u)) =
      m_success_count (ru_metrics u) + (if cm_error msg = None \<and> cm_http_code msg = 200 then 1 else 0) \<and>
    m_errors (ru_metrics (reap_one msg u)) =
      m_errors (ru_metrics u) + (if cm_error msg = None \<and> cm_http_code msg = 200 then 0 else 1) \<and>
    ru_errors (reap_one msg u) = ru_errors u @
      (if tc_has_err ctx then
         (case cm_error msg of Some text \<Rightarrow> [(tc_req ctx, text)]
          | None \<Rightarrow> if cm_http_code msg = 200 then [] else [(tc_req ctx, ''HTTP '' @ nat_to_string (cm_http_code msg))])
       else []) \<and>
    ru_pending (reap_one msg u) = ru_pending u \<and> reap_one msg (reap_one msg u) = reap_one msg u"
proof -
  have gone: "um_find (ru_active (reap_one msg u)) (cm_handle msg) = None" using reap_one_some(1)[OF assms(2)] by simp
  then have "reap_one msg (reap_one msg u) = reap_one msg u" by (simp add: reap_one_def[of msg "reap_one msg u"])
  moreover have "ru_errors (reap_one msg u) = ru_errors u @
      (if tc_has_err ctx then
         (case cm_error msg of Some text \<Rightarrow> [(tc_req ctx, text)]
          | None \<Rightarrow> if cm_http_code msg = 200 then [] else [(tc_req ctx, ''HTTP '' @ nat_to_string (cm_http_code msg))])
       else [])"
    using assms(2) by (simp add: reap_one_def Let_def call_error_def split: option.split)
  moreover have "m_success_count (ru_metrics (reap_one msg u)) =
      m_success_count (ru_metrics u) + (if cm_error msg = None \<and> cm_http_code msg = 200 then 1 else 0)"
    "m_errors (ru_metrics (reap_one msg u)) =
      m_errors (ru_metrics u) + (if cm_error msg = None \<and> cm_http_code msg = 200 then 0 else 1)"
    "ru_pending (reap_one msg u) = ru_pending u"
    using assms(2) by (simp_all add: reap_one_def Let_def split: option.split)
  ultimately show ?thesis using reap_one_some(1)[OF assms(2)] by simp
qed

theorem reap_settles_witness:
  "m_errors (ru_metrics (reap_one \<lparr>cm_handle = 7, cm_error = None, cm_http_code = 500\<rparr>
     (demo_upstream\<lparr>ru_active := [(7, \<lparr>tc_req = demo_request, tc_url = [], tc_body = [], tc_hdrs = [],
        tc_parser = sse_new True True True, tc_has_err = True\<rparr>)]\<rparr>))) = 1"
  using reap_settles[of "demo_upstream\<lparr>ru_active := [(7, \<lparr>tc_req = demo_request, tc_url = [], tc_body = [], tc_hdrs = [],
        tc_parser = sse_new True True True, tc_has_err = True\<rparr>)]\<rparr>" "\<lparr>cm_handle = 7, cm_error = None, cm_http_code = 500\<rparr>"]
  by (simp add: um_ok_def um_find_def demo_upstream_def metrics_zero_def)

end
