(* ===== verification/Lua_VM_Pool.thy ===== *)
theory Lua_VM_Pool
  imports Gateway_Prelude
begin

text \<open>
  The sandboxed Lua machines (\<open>src/lua_sandbox.cpp\<close>) and the pool a worker thread keeps of them
  (\<open>src/lua_vm_pool.cpp\<close>). Lua itself is not part of the repository: a machine is the table of its
  globals, from names to values of an unspecified type, and running a script is any change of it. The
  globals that opening the standard libraries creates are a parameter.
\<close>

section \<open>Sandbox\<close>

type_synonym 'v globals = "(string, 'v) umap"

definition kKeep :: "string list" where
  "kKeep = [''assert'', ''error'', ''ipairs'', ''next'', ''pairs'', ''pcall'', ''print'', ''select'', ''tonumber'',
     ''tostring'', ''type'', ''xpcall'', ''string'', ''math'', ''table'', ''coroutine'', ''utf8'', ''gateway'',
     ''_VERSION'', ''_G'']"

definition kDangerous :: "string list" where
  "kDangerous = [''os'', ''io'', ''package'', ''require'', ''dofile'', ''loadfile'', ''load'', ''rawset'', ''rawget'',
     ''rawlen'', ''rawequal'', ''module'', ''debug'', ''collectgarbage'', ''gcinfo'', ''newproxy'']"

definition nullify_dangerous :: "'v globals \<Rightarrow> 'v globals" where
  "nullify_dangerous g = um_erase ''package'' (fold um_erase kDangerous g)"

definition inject_api :: "'v \<Rightarrow> 'v globals \<Rightarrow> 'v globals" where
  "inject_api gateway g = um_set ''gateway'' gateway g"

definition sandbox_create :: "'v globals \<Rightarrow> 'v \<Rightarrow> 'v globals" where
  "sandbox_create libs gateway = inject_api gateway (nullify_dangerous libs)"

text \<open>\<open>reset\<close> collects the names outside the white list and sets each to nil.\<close>

definition sandbox_reset :: "'v globals \<Rightarrow> 'v globals" where
  "sandbox_reset g = fold um_erase (filter (\<lambda>k. k \<notin> set kKeep) (map fst g)) g"

lemma um_find_fold_erase: "um_find (fold um_erase ks g) j = (if j \<in> set ks then None else um_find g j)"
  by (induction ks arbitrary: g) auto

lemma sandbox_reset_find: "um_find (sandbox_reset g) j = (if j \<in> set kKeep then um_find g j else None)"
proof -
  have "um_find g j = None" if "j \<notin> fst ` set g" using that by (simp add: um_find_def map_of_eq_None_iff)
  then show ?thesis by (auto simp: sandbox_reset_def um_find_fold_erase)
qed

lemma sandbox_create_find:
  "um_find (sandbox_create libs gw) j =
     (if j = ''gateway'' then Some gw else if j \<in> set kDangerous then None else um_find libs j)"
  by (auto simp: sandbox_create_def inject_api_def nullify_dangerous_def um_find_fold_erase kDangerous_def)

section \<open>Pool\<close>

text \<open>The machines by address, the addresses in the queue, and the next fresh address.\<close>

record 'v vm_pool =
  vp_size :: nat
  vp_libs :: "'v globals"
  vp_gateway :: 'v
  vp_all :: "(nat, 'v globals) umap"
  vp_available :: "nat list"
  vp_next :: nat

text \<open>The loop that creates \<open>pool_size_\<close> machines.\<close>

fun create_vms :: "nat \<Rightarrow> 'v vm_pool \<Rightarrow> 'v vm_pool" where
  "create_vms 0 p = p"
| "create_vms (Suc n) p =
     create_vms n (p\<lparr>vp_all := um_set (vp_next p) (sandbox_create (vp_libs p) (vp_gateway p)) (vp_all p),
                     vp_available := vp_available p @ [vp_next p], vp_next := Suc (vp_next p)\<rparr>)"

definition pool_new :: "nat \<Rightarrow> 'v globals \<Rightarrow> 'v \<Rightarrow> 'v vm_pool" where
  "pool_new n libs gateway =
     create_vms n \<lparr>vp_size = n, vp_libs = libs, vp_gateway = gateway, vp_all = [], vp_available = [], vp_next = 0\<rparr>"

definition pool_update_api :: "'v \<Rightarrow> 'v vm_pool \<Rightarrow> 'v vm_pool" where
  "pool_update_api gateway p =
     create_vms (vp_size p) (p\<lparr>vp_gateway := gateway, vp_all := [], vp_available := []\<rparr>)"

text \<open>\<open>borrow\<close> resets the machine it hands out; a queue entry whose machine is gone would be a dangling
  pointer.\<close>

definition pool_borrow :: "'v vm_pool \<Rightarrow> (nat \<times> 'v vm_pool) result" where
  "pool_borrow p =
     (case vp_available p of
        [] \<Rightarrow> Inl (RuntimeError ''LuaVMPool exhausted: all VMs in use'')
      | vm # rest \<Rightarrow>
          (case um_find (vp_all p) vm of
             None \<Rightarrow> Inl UB
           | Some g \<Rightarrow> Inr (vm, p\<lparr>vp_available := rest, vp_all := um_set vm (sandbox_reset g) (vp_all p)\<rparr>)))"

definition pool_return :: "nat \<Rightarrow> 'v vm_pool \<Rightarrow> 'v vm_pool" where
  "pool_return vm p = p\<lparr>vp_available := vp_available p @ [vm]\<rparr>"

text \<open>\<open>borrow_vm\<close> of a thread whose pool may not be set.\<close>

definition borrow_vm :: "'v vm_pool option \<Rightarrow> (nat \<times> 'v vm_pool) result" where
  "borrow_vm t_pool =
     (case t_pool of None \<Rightarrow> Inl (RuntimeError ''no thread-local LuaVMPool set'') | Some p \<Rightarrow> pool_borrow p)"

section \<open>Exclusive use\<close>

text \<open>The pool of a thread with the machines that are rented: a handle returns its machine when it dies,
  and a script run on a rented machine may change its globals in any way.\<close>

inductive pool_step :: "'v vm_pool \<times> nat list \<Rightarrow> 'v vm_pool \<times> nat list \<Rightarrow> bool" where
  borrow: "pool_borrow p = Inr (vm, p') \<Longrightarrow> pool_step (p, rented) (p', vm # rented)"
| give_back: "vm \<in> set rented \<Longrightarrow> pool_step (p, rented) (pool_return vm p, remove1 vm rented)"
| run: "vm \<in> set rented \<Longrightarrow> pool_step (p, rented) (p\<lparr>vp_all := um_set vm g (vp_all p)\<rparr>, rented)"

abbreviation pool_reach :: "nat \<Rightarrow> 'v globals \<Rightarrow> 'v \<Rightarrow> 'v vm_pool \<times> nat list \<Rightarrow> bool" where
  "pool_reach n libs gw \<equiv> reach_of (\<lambda>s. s = (pool_new n libs gw, [])) pool_step"

lemma pool_reach_start: "pool_reach n libs gw (pool_new n libs gw, [])"
  by (simp add: reach_of.start)

inductive_cases pool_stepE: "pool_step s s'"

definition pool_inv :: "nat \<Rightarrow> 'v vm_pool \<times> nat list \<Rightarrow> bool" where
  "pool_inv n s \<longleftrightarrow> (case s of (p, rented) \<Rightarrow>
     distinct (vp_available p @ rented) \<and> length (vp_available p) + length rented = n \<and>
     (\<forall>vm. vm \<in> set (vp_available p @ rented) \<longrightarrow> um_find (vp_all p) vm \<noteq> None))"

lemma create_vms_inv:
  "distinct (vp_available p) \<Longrightarrow> \<forall>vm \<in> set (vp_available p). vm < vp_next p \<and> um_find (vp_all p) vm \<noteq> None \<Longrightarrow>
     distinct (vp_available (create_vms n p)) \<and> length (vp_available (create_vms n p)) = length (vp_available p) + n \<and>
     (\<forall>vm \<in> set (vp_available (create_vms n p)). um_find (vp_all (create_vms n p)) vm \<noteq> None)"
proof (induction n arbitrary: p)
  case (Suc n)
  let ?p = "p\<lparr>vp_all := um_set (vp_next p) (sandbox_create (vp_libs p) (vp_gateway p)) (vp_all p),
    vp_available := vp_available p @ [vp_next p], vp_next := Suc (vp_next p)\<rparr>"
  have a: "distinct (vp_available ?p)" using Suc.prems by auto
  have b: "\<forall>vm \<in> set (vp_available ?p). vm < vp_next ?p \<and> um_find (vp_all ?p) vm \<noteq> None"
    using Suc.prems(2) by (auto simp: less_Suc_eq)
  show ?case using Suc.IH[OF a b] by simp
qed simp

lemma pool_new_inv: "pool_inv n (pool_new n libs gw, [])"
  using create_vms_inv[of "\<lparr>vp_size = n, vp_libs = libs, vp_gateway = gw, vp_all = [], vp_available = [], vp_next = 0\<rparr>" n]
  by (auto simp: pool_inv_def pool_new_def)

lemma pool_step_inv: "pool_step s s' \<Longrightarrow> pool_inv n s \<Longrightarrow> pool_inv n s'"
proof (erule pool_stepE, goal_cases)
  case (1 p vm p' rented)
  then obtain rest g where "vp_available p = vm # rest" "um_find (vp_all p) vm = Some g"
      "p' = p\<lparr>vp_available := rest, vp_all := um_set vm (sandbox_reset g) (vp_all p)\<rparr>"
    by (auto simp: pool_borrow_def split: list.splits option.splits)
  then show ?case using 1 by (auto simp: pool_inv_def)
next
  case (2 vm rented p)
  then have "set (remove1 vm rented) = set rented - {vm}" "distinct rented" by (auto simp: pool_inv_def set_remove1_eq)
  moreover have "length rented = Suc (length (remove1 vm rented))"
  proof -
    have "vm \<in> set rented" "0 < length rented" using 2 length_pos_if_in_set[of vm rented] by simp_all
    then show ?thesis by (simp add: length_remove1)
  qed
  ultimately show ?case using 2 by (auto simp: pool_inv_def pool_return_def)
next
  case (3 vm rented p g)
  then show ?case by (auto simp: pool_inv_def)
qed

interpretation pool: step_system "\<lambda>s. s = (pool_new n libs gw, [])" pool_step "pool_inv n" for n libs gw
  by unfold_locales (auto intro: pool_new_inv pool_step_inv)

lemmas pool_reach_inv = pool.reach_inv



text \<open>A machine that is rented while the API is updated is freed under its user; when its handle dies, the
  queue holds a dangling address.\<close>

theorem update_api_dangles:
  assumes "vm < vp_next p"
  shows "vm \<in> set (vp_available (pool_return vm (pool_update_api gw p))) \<and>
    um_find (vp_all (pool_return vm (pool_update_api gw p))) vm = None"
proof -
  have "um_find (vp_all q) vm = None \<and> vm < vp_next q \<Longrightarrow> um_find (vp_all (create_vms n q)) vm = None" for n and q :: "'a vm_pool"
    by (induction n arbitrary: q) auto
  then show ?thesis using assms by (simp add: pool_update_api_def pool_return_def)
qed

end
