(* ===== verification/Lua_Api.thy ===== *)
theory Lua_Api
  imports Cache_Store Metrics
begin

text \<open>
  What a plugin can call: the \<open>gateway\<close> table that \<open>LuaSandbox::inject_api\<close> (\<open>src/lua_sandbox.cpp\<close>) builds
  from the functions of \<open>PluginManager::build_api\<close> (\<open>src/plugin_manager.cpp\<close>), bound to Lua by
  \<open>sol::table::set_function\<close> (\<open>third_party/sol/sol.hpp\<close>). The binding chooses a C function by the C++
  signature; a signature it does not know is bound to a function that does nothing. Lua values are modelled
  as the C API shows them, and the conversions of that API are a parameter.
\<close>

section \<open>Lua values\<close>

datatype lua_value =
    LNil | LBool bool | LInt int | LNum double | LStr string | LFun | LTable

record lua_conv =
  lc_tostring :: "lua_value \<Rightarrow> string option"     \<comment> \<open>\<open>lua_tolstring\<close>; \<open>None\<close> is \<open>NULL\<close>\<close>
  lc_tonumber :: "lua_value \<Rightarrow> double option"     \<comment> \<open>\<open>lua_tonumberx\<close>\<close>
  lc_tointeger :: "lua_value \<Rightarrow> int option"       \<comment> \<open>\<open>lua_tointegerx\<close>\<close>

text \<open>The documented conversions that the theorems use.\<close>

definition lua_conv_laws :: "lua_conv \<Rightarrow> bool" where
  "lua_conv_laws C \<longleftrightarrow>
     (\<forall>s. lc_tostring C (LStr s) = Some s) \<and> (\<forall>x. lc_tonumber C (LNum x) = Some x) \<and>
     (\<forall>v. v \<in> {LNil, LFun, LTable} \<or> (\<exists>b. v = LBool b) \<longrightarrow>
        lc_tostring C v = None \<and> lc_tonumber C v = None \<and> lc_tointeger C v = None)"

definition plain_conv :: lua_conv where
  "plain_conv = \<lparr>lc_tostring = (\<lambda>v. case v of LStr s \<Rightarrow> Some s | LInt i \<Rightarrow> Some (if i < 0 then ''-'' @ nat_to_string (nat (- i)) else nat_to_string (nat i)) | _ \<Rightarrow> None),
     lc_tonumber = (\<lambda>v. case v of LInt i \<Rightarrow> Some (of_int i) | LNum x \<Rightarrow> Some x | _ \<Rightarrow> None),
     lc_tointeger = (\<lambda>v. case v of LInt i \<Rightarrow> Some i | _ \<Rightarrow> None)\<rparr>"

lemma plain_conv_laws [simp]: "lua_conv_laws plain_conv"
  by (auto simp: lua_conv_laws_def plain_conv_def)

section \<open>Binding\<close>

datatype cpp_type = TVoid | TBool | TInt | TInt64 | TSize | TStr

definition arithmetic :: "cpp_type \<Rightarrow> bool" where
  "arithmetic t \<longleftrightarrow> t = TBool \<or> t = TInt \<or> t = TInt64 \<or> t = TSize"

text \<open>\<open>std::is_invocable_r_v<R, Fn, Args...>\<close>; \<open>R = void\<close> discards any result.\<close>

definition converts :: "cpp_type \<Rightarrow> cpp_type \<Rightarrow> bool" where
  "converts a b \<longleftrightarrow> b = TVoid \<or> a = b \<or> (arithmetic a \<and> arithmetic b)"

type_synonym cpp_sig = "cpp_type \<times> cpp_type list"

definition invocable_r :: "cpp_type \<Rightarrow> cpp_type list \<Rightarrow> cpp_sig \<Rightarrow> bool" where
  "invocable_r r args sig \<longleftrightarrow> list_all2 converts args (snd sig) \<and> converts (fst sig) r"

datatype lua_cfun =
    Nullary_Void | Int_Str_To_Str | Nullary_Bool | Nullary_Int64 | Int_Str_Void | Str_To_Int64
  | Str_Int64_To_Int64 | Str_To_Str | Str_Str_To_Str | No_Op

text \<open>The chain of \<open>if constexpr\<close> in \<open>set_function\<close>.\<close>

definition cfun_of :: "cpp_sig \<Rightarrow> lua_cfun" where
  "cfun_of sig =
     (if invocable_r TVoid [] sig then Nullary_Void
      else if invocable_r TStr [TInt, TStr] sig then Int_Str_To_Str
      else if invocable_r TBool [] sig then Nullary_Bool
      else if invocable_r TInt64 [] sig then Nullary_Int64
      else if invocable_r TVoid [TInt, TStr] sig then Int_Str_Void
      else if invocable_r TInt64 [TStr] sig then Str_To_Int64
      else if invocable_r TInt64 [TStr, TInt64] sig then Str_Int64_To_Int64
      else if invocable_r TStr [TStr] sig then Str_To_Str
      else if invocable_r TStr [TStr, TStr] sig then Str_Str_To_Str
      else No_Op)"

datatype cpp_val = CVoid | CBool bool | CInt int | CStr string

type_synonym 's cpp_fun = "cpp_val list \<Rightarrow> 's \<Rightarrow> (cpp_val \<times> 's) result"

definition push_value :: "cpp_val \<Rightarrow> lua_value list" where
  "push_value v = (case v of CVoid \<Rightarrow> [] | CBool b \<Rightarrow> [LBool b] | CInt i \<Rightarrow> [LInt i] | CStr s \<Rightarrow> [LStr s])"

text \<open>An argument that is missing or does not convert raises a Lua error: \<open>None\<close> as the returned values.\<close>

definition check_arg :: "(lua_value \<Rightarrow> 'a option) \<Rightarrow> lua_value list \<Rightarrow> nat \<Rightarrow> 'a option" where
  "check_arg conv args i = (if i < length args then conv (args ! i) else None)"

definition call_bound :: "'s cpp_fun \<Rightarrow> bool \<Rightarrow> cpp_val list option \<Rightarrow> 's \<Rightarrow> (lua_value list option \<times> 's) result" where
  "call_bound f keep cargs s =
     (case cargs of
        None \<Rightarrow> Inr (None, s)
      | Some cs \<Rightarrow> bindE (f cs s) (\<lambda>(v, s). Inr (Some (if keep then push_value v else []), s)))"

definition opt_args :: "cpp_val option list \<Rightarrow> cpp_val list option" where
  "opt_args xs = (if None \<in> set xs then None else Some (map the xs))"

definition call_cfun :: "lua_conv \<Rightarrow> lua_cfun \<Rightarrow> 's cpp_fun \<Rightarrow> lua_value list \<Rightarrow> 's \<Rightarrow> (lua_value list option \<times> 's) result" where
  "call_cfun C k f args s =
     (let int_at = (\<lambda>i. map_option CInt (check_arg (lc_tointeger C) args i));
          str_at = (\<lambda>i. map_option CStr (check_arg (lc_tostring C) args i)) in
      case k of
        Nullary_Void \<Rightarrow> call_bound f False (Some []) s
      | Int_Str_To_Str \<Rightarrow> call_bound f True (opt_args [int_at 0, str_at 1]) s
      | Nullary_Bool \<Rightarrow> call_bound f True (Some []) s
      | Nullary_Int64 \<Rightarrow> call_bound f True (Some []) s
      | Int_Str_Void \<Rightarrow> call_bound f False (opt_args [int_at 0, str_at 1]) s
      | Str_To_Int64 \<Rightarrow> call_bound f True (opt_args [str_at 0]) s
      | Str_Int64_To_Int64 \<Rightarrow> call_bound f True (opt_args [str_at 0, int_at 1]) s
      | Str_To_Str \<Rightarrow> call_bound f True (opt_args [str_at 0]) s
      | Str_Str_To_Str \<Rightarrow> call_bound f True (opt_args [str_at 0, str_at 1]) s
      | No_Op \<Rightarrow> Inr (Some [], s))"

section \<open>The gateway table\<close>

record gw_world =
  gw_metrics :: metrics
  gw_cache :: cache_store
  gw_logger :: logger

text \<open>The functions of \<open>build_api\<close>.\<close>

definition api_log :: "string \<Rightarrow> string \<Rightarrow> string \<Rightarrow> gw_world \<Rightarrow> gw_world" where
  "api_log ts level msg w =
     (let lv = (if level = ''ERROR'' then ERROR else if level = ''WARN'' then WARN
                else if level = ''DEBUG'' then DEBUG else INFO) in
      w\<lparr>gw_logger := logger_log ts lv (''[lua] '' @ msg) (gw_logger w)\<rparr>)"

definition api_metric_inc :: "string \<Rightarrow> int \<Rightarrow> gw_world \<Rightarrow> gw_world" where
  "api_metric_inc key delta w =
     (let m = gw_metrics w; d = word_of_int delta in
      if key = ''total_requests'' then w\<lparr>gw_metrics := m\<lparr>m_total_requests := m_total_requests m + d\<rparr>\<rparr>
      else if key = ''errors'' then w\<lparr>gw_metrics := m\<lparr>m_errors := m_errors m + d\<rparr>\<rparr>
      else if key = ''auth_failed'' then w\<lparr>gw_metrics := m\<lparr>m_auth_failed := m_auth_failed m + d\<rparr>\<rparr>
      else w)"

definition api_metric_get :: "string \<Rightarrow> gw_world \<Rightarrow> int" where
  "api_metric_get key w =
     (let m = gw_metrics w in
      if key = ''total_requests'' then sint (m_total_requests m)
      else if key = ''errors'' then sint (m_errors m)
      else if key = ''total_tokens'' then sint (m_total_tokens m)
      else 0)"

text \<open>\<open>now\<close> is the steady clock in nanoseconds.\<close>

definition api_now_ms :: "int \<Rightarrow> int" where
  "api_now_ms now = now div 1000000"

definition quoted :: "string \<Rightarrow> string" where
  "quoted s = CHR 0x22 # s @ [CHR 0x22]"

definition http_disabled :: string where
  "http_disabled = ''{'' @ quoted ''error'' @ '':'' @ quoted ''http not enabled'' @ ''}''"

text \<open>The closures of \<open>inject_api\<close> with their signatures, \<open>build_api\<close>'s functions captured; \<open>http_post\<close> is
  \<open>nullptr\<close> there.\<close>

definition gateway_table :: "int \<Rightarrow> string \<Rightarrow> (string \<times> cpp_sig \<times> gw_world cpp_fun) list" where
  "gateway_table now ts =
     [(''log'', (TVoid, [TStr, TStr]),
         \<lambda>args w. case args of [CStr level, CStr msg] \<Rightarrow> Inr (CVoid, api_log ts level msg w) | _ \<Rightarrow> Inl UB),
      (''metric_inc'', (TVoid, [TStr, TInt64]),
         \<lambda>args w. case args of [CStr key, CInt delta] \<Rightarrow> Inr (CVoid, api_metric_inc key delta w) | _ \<Rightarrow> Inl UB),
      (''metric_get'', (TInt64, [TStr]),
         \<lambda>args w. case args of [CStr key] \<Rightarrow> Inr (CInt (api_metric_get key w), w) | _ \<Rightarrow> Inl UB),
      (''now_ms'', (TInt64, []), \<lambda>args w. Inr (CInt (api_now_ms now), w)),
      (''http_post'', (TStr, [TStr, TStr]), \<lambda>args w. Inr (CStr http_disabled, w)),
      (''cache_get'', (TStr, [TStr]),
         \<lambda>args w. case args of
             [CStr key] \<Rightarrow> bindE (cs_get now key (gw_cache w))
               (\<lambda>(v, c). Inr (CStr (case v of None \<Rightarrow> [] | Some x \<Rightarrow> x), w\<lparr>gw_cache := c\<rparr>))
           | _ \<Rightarrow> Inl UB),
      (''cache_set'', (TVoid, [TStr, TStr, TInt]),
         \<lambda>args w. case args of
             [CStr key, CStr value, CInt ttl] \<Rightarrow> bindE (cs_set now key value ttl (gw_cache w))
               (\<lambda>c. Inr (CVoid, w\<lparr>gw_cache := c\<rparr>))
           | _ \<Rightarrow> Inl UB),
      (''cache_size'', (TSize, []), \<lambda>args w. Inr (CInt (int (cs_size (gw_cache w))), w))]"

text \<open>\<open>gateway.name(args)\<close> in a script; calling a field that is absent is a Lua error.\<close>

definition gateway_call ::
  "lua_conv \<Rightarrow> int \<Rightarrow> string \<Rightarrow> string \<Rightarrow> lua_value list \<Rightarrow> gw_world \<Rightarrow> (lua_value list option \<times> gw_world) result" where
  "gateway_call C now ts name args w =
     (case map_of (gateway_table now ts) name of
        None \<Rightarrow> Inr (None, w)
      | Some (sig, f) \<Rightarrow> call_cfun C (cfun_of sig) f args w)"

section \<open>What a plugin can do\<close>

text \<open>The binding of each entry: those that return nothing and take other arguments than
  \<open>(int, string)\<close> become functions without effect, those without arguments lose their result.\<close>

lemma gateway_bindings:
  "map (\<lambda>(n, sig, f). (n, cfun_of sig)) (gateway_table now ts) =
     [(''log'', No_Op), (''metric_inc'', No_Op), (''metric_get'', Str_To_Int64), (''now_ms'', Nullary_Void),
      (''http_post'', Str_Str_To_Str), (''cache_get'', Str_To_Str), (''cache_set'', No_Op),
      (''cache_size'', Nullary_Void)]"
  by (simp add: gateway_table_def cfun_of_def invocable_r_def converts_def arithmetic_def)

lemma spec_get_subset: "set (snd (spec_get now k m)) \<subseteq> set m"
  using set_AList_delete[of k m] map_of_SomeD[of m k] by (auto simp: spec_get_def split: option.splits)

lemma cfun_of_table:
  "cfun_of (TVoid, [TStr, TStr]) = No_Op" "cfun_of (TVoid, [TStr, TInt64]) = No_Op"
  "cfun_of (TVoid, [TStr, TStr, TInt]) = No_Op" "cfun_of (TInt64, [TStr]) = Str_To_Int64"
  "cfun_of (TInt64, []) = Nullary_Void" "cfun_of (TSize, []) = Nullary_Void"
  "cfun_of (TStr, [TStr, TStr]) = Str_Str_To_Str" "cfun_of (TStr, [TStr]) = Str_To_Str"
  by (simp_all add: cfun_of_def invocable_r_def converts_def arithmetic_def)

lemma gateway_no_op:
  "gateway_call C now ts ''log'' args w = Inr (Some [], w)"
  "gateway_call C now ts ''metric_inc'' args w = Inr (Some [], w)"
  "gateway_call C now ts ''cache_set'' args w = Inr (Some [], w)"
  by (simp_all add: gateway_call_def gateway_table_def cfun_of_table call_cfun_def)

lemma gateway_no_result:
  "gateway_call C now ts ''now_ms'' args w = Inr (Some [], w)"
  "gateway_call C now ts ''cache_size'' args w = Inr (Some [], w)"
  by (simp_all add: gateway_call_def gateway_table_def cfun_of_table call_cfun_def call_bound_def)

lemma gateway_metric_get:
  "gateway_call C now ts ''metric_get'' args w =
     Inr (case check_arg (lc_tostring C) args 0 of
            None \<Rightarrow> (None, w) | Some key \<Rightarrow> (Some [LInt (api_metric_get key w)], w))"
  by (simp add: gateway_call_def gateway_table_def cfun_of_table call_cfun_def call_bound_def opt_args_def
        push_value_def split: option.split)

lemma gateway_http_post:
  "gateway_call C now ts ''http_post'' args w = Inr
     (if check_arg (lc_tostring C) args 0 = None \<or> check_arg (lc_tostring C) args 1 = None then (None, w)
      else (Some [LStr http_disabled], w))"
  by (auto simp add: gateway_call_def gateway_table_def cfun_of_table call_cfun_def call_bound_def opt_args_def
        push_value_def)

lemma gateway_cache_get:
  "gateway_call C now ts ''cache_get'' args w =
     (case check_arg (lc_tostring C) args 0 of
        None \<Rightarrow> Inr (None, w)
      | Some key \<Rightarrow> bindE (cs_get now key (gw_cache w))
          (\<lambda>(v, c). Inr (Some [LStr (case v of None \<Rightarrow> [] | Some x \<Rightarrow> x)], w\<lparr>gw_cache := c\<rparr>)))"
  by (simp add: gateway_call_def gateway_table_def cfun_of_table call_cfun_def call_bound_def opt_args_def
        push_value_def bindE_def split: option.split sum.split prod.split)

lemma gateway_absent:
  "name \<notin> {''log'', ''metric_inc'', ''cache_set'', ''now_ms'', ''cache_size'', ''metric_get'', ''http_post'', ''cache_get''} \<Longrightarrow>
     gateway_call C now ts name args w = Inr (None, w)"
  by (simp add: gateway_call_def gateway_table_def)

lemmas gateway_calls = gateway_no_op gateway_no_result gateway_metric_get gateway_http_post gateway_absent

lemma gateway_other:
  assumes "name \<noteq> ''cache_get''"
  shows "\<exists>r. gateway_call C now ts name args w = Inr (r, w) \<and>
    (name \<in> {''log'', ''metric_inc'', ''cache_set''} \<longrightarrow> r = Some []) \<and>
    (\<forall>k. name = ''metric_get'' \<and> check_arg (lc_tostring C) args 0 = Some k \<longrightarrow> r = Some [LInt (api_metric_get k w)])"
proof -
  consider "name = ''metric_get''" | "name = ''http_post''" | "name \<noteq> ''metric_get''" "name \<noteq> ''http_post''" by blast
  then show ?thesis
  proof cases
    case 1
    then show ?thesis by (cases "check_arg (lc_tostring C) args 0") (auto simp: gateway_metric_get)
  next
    case 2
    have "\<exists>r. gateway_call C now ts ''http_post'' args w = Inr (r, w)" unfolding gateway_http_post
      by (cases "check_arg (lc_tostring C) args 0 = None \<or> check_arg (lc_tostring C) args 1 = None") simp_all
    then show ?thesis using 2 by auto
  next
    case 3
    show ?thesis
    proof (cases "name \<in> {''log'', ''metric_inc'', ''cache_set'', ''now_ms'', ''cache_size''}")
      case True
      then have "gateway_call C now ts name args w = Inr (Some [], w)"
        by (elim insertE emptyE) (simp_all only: gateway_no_op gateway_no_result)
      then show ?thesis using 3 by simp
    next
      case False
      then have "gateway_call C now ts name args w = Inr (None, w)" using 3 assms by (intro gateway_absent) simp
      then show ?thesis using False 3 by simp
    qed
  qed
qed

text \<open>C24. Plugins can look but not touch: whatever a script calls on the \<open>gateway\<close> table, with whatever
  arguments, no metric, no log line and no stored value changes; a call only reads, drops an expired
  entry or reorders the cache. \<open>cache_get\<close> returns the stored text up to its deadline and the empty text
  otherwise, \<open>metric_get\<close> the counter; \<open>log\<close>, \<open>metric_inc\<close> and \<open>cache_set\<close> do nothing.\<close>

theorem gateway_read_only:
  assumes "cs_ok (gw_cache w)" "lua_conv_laws C"
  shows "\<exists>r w'. gateway_call C now ts name args w = Inr (r, w') \<and>
    gw_metrics w' = gw_metrics w \<and> gw_logger w' = gw_logger w \<and> cs_ok (gw_cache w') \<and>
    set (cs_view (gw_cache w')) \<subseteq> set (cs_view (gw_cache w)) \<and>
    (\<forall>k. name = ''cache_get'' \<and> args = [LStr k] \<longrightarrow>
       r = Some [LStr (case fst (spec_get now k (cs_view (gw_cache w))) of None \<Rightarrow> [] | Some v \<Rightarrow> v)]) \<and>
    (\<forall>k. name = ''metric_get'' \<and> args = [LStr k] \<longrightarrow> r = Some [LInt (api_metric_get k w)]) \<and>
    (name \<in> {''log'', ''metric_inc'', ''cache_set''} \<longrightarrow> r = Some [] \<and> w' = w)"
proof (cases "name = ''cache_get''")
  case True
  show ?thesis
  proof (cases "check_arg (lc_tostring C) args 0")
    case None
    then have "args \<noteq> [LStr k]" for k using assms(2) by (auto simp: check_arg_def lua_conv_laws_def)
    then show ?thesis using True None assms(1) by (simp add: gateway_cache_get)
  next
    case (Some key)
    obtain c' where "cs_get now key (gw_cache w) = Inr (fst (spec_get now key (cs_view (gw_cache w))), c')"
        "cs_ok c'" "cs_view c' = snd (spec_get now key (cs_view (gw_cache w)))"
      using cs_get_correct[OF assms(1), of now key] by blast
    moreover have "args = [LStr k] \<Longrightarrow> key = k" for k
      using Some assms(2) by (simp add: check_arg_def lua_conv_laws_def)
    ultimately show ?thesis
      using True Some spec_get_subset[of now key "cs_view (gw_cache w)"] by (auto simp: gateway_cache_get)
  qed
next
  case False
  have arg: "args = [LStr k] \<Longrightarrow> check_arg (lc_tostring C) args 0 = Some k" for k
    using assms(2) by (simp add: check_arg_def lua_conv_laws_def)
  obtain r where r: "gateway_call C now ts name args w = Inr (r, w)"
      "name \<in> {''log'', ''metric_inc'', ''cache_set''} \<longrightarrow> r = Some []"
      "\<forall>k. name = ''metric_get'' \<and> check_arg (lc_tostring C) args 0 = Some k \<longrightarrow> r = Some [LInt (api_metric_get k w)]"
    using gateway_other[OF False, of C now ts args w] by blast
  show ?thesis
    using r False assms(1) arg by (intro exI[of _ r] exI[of _ w] conjI) simp_all
qed

theorem gateway_read_only_witness:
  "\<exists>w'. gateway_call plain_conv 7 ''now'' ''cache_set'' [LStr ''k'', LStr ''v'', LInt 60]
       \<lparr>gw_metrics = metrics_zero, gw_cache = cs_init, gw_logger = logger_init INFO []\<rparr> = Inr (Some [], w') \<and>
     cs_ok (gw_cache w')"
  using gateway_read_only[of "\<lparr>gw_metrics = metrics_zero, gw_cache = cs_init, gw_logger = logger_init INFO []\<rparr>"
      plain_conv 7 "''now''" "''cache_set''" "[LStr ''k'', LStr ''v'', LInt 60]"]
  by auto

end
