(* ===== verification/Plugin_Manager.thy ===== *)
theory Plugin_Manager
  imports Lua_Api Lua_VM_Pool Json
begin

text \<open>
  The plugin manager (\<open>src/plugin_manager.cpp\<close>): the list of loaded plugins, kept in priority order, and
  the three pipelines that run their hooks on a rented Lua machine. Lua is a parameter: what running a
  script or calling a function does to the machine's globals and to the rest of the world is any function.
  A Lua error whose value is not a string makes the binding build a string from \<open>NULL\<close>, which the C++
  library answers with an exception. Log lines are left out, and so is the map \<open>shared\<close> of the context,
  which nothing reads.
\<close>

section \<open>Data\<close>

record plugin_info =
  pi_filepath :: string
  pi_name :: string
  pi_version :: string
  pi_priority :: int
  pi_enabled :: bool

record plugin_runtime =
  pr_info :: plugin_info
  pr_script_body :: string
  pr_has_init :: bool
  pr_has_on_request :: bool
  pr_has_on_token :: bool
  pr_has_on_done :: bool

record plugin_context =
  pc_model :: string
  pc_messages_json :: string
  pc_temperature :: double
  pc_max_tokens :: int
  pc_user_ip :: string
  pc_api_key :: string
  pc_request_id :: u64
  pc_abort_status :: int
  pc_abort_body :: string
  pc_aborted :: bool

record pipeline_result =
  pl_passed :: bool
  pl_ctx :: plugin_context
  pl_abort_status :: int
  pl_abort_body :: string

text \<open>What a call gives: a value, or an error; the flag says whether the error value is a string.\<close>

datatype lua_outcome = Returned lua_value | Raised bool

type_synonym lua_table = "(string, lua_value) umap"

record ('v, 'w) lua_rt =
  rt_conv :: lua_conv
  rt_libs :: "'v globals"                       \<comment> \<open>base, string and table, as opened for loading\<close>
  rt_script :: "string \<Rightarrow> 'v globals \<times> 'w \<Rightarrow> bool \<times> ('v globals \<times> 'w)"
  rt_global :: "'v globals \<Rightarrow> string \<Rightarrow> lua_value"
  rt_call :: "string \<Rightarrow> lua_value list \<Rightarrow> 'v globals \<times> 'w \<Rightarrow> lua_outcome \<times> ('v globals \<times> 'w)"
  rt_call_ctx :: "string \<Rightarrow> lua_table \<Rightarrow> 'v globals \<times> 'w \<Rightarrow>
      lua_outcome \<times> lua_table \<times> (int \<times> string) list \<times> ('v globals \<times> 'w)"
    \<comment> \<open>with the context table afterwards and the calls of \<open>set_response\<close>, in order\<close>

section \<open>Reading Lua values\<close>

definition trunc :: "double \<Rightarrow> int" where
  "trunc x = (if 0 \<le> x then \<lfloor>x\<rfloor> else - \<lfloor>- x\<rfloor>)"

text \<open>\<open>(int)lua_tonumber\<close> is undefined when the truncated value is no \<open>int\<close>.\<close>

definition double_to_int :: "double \<Rightarrow> int result" where
  "double_to_int x = (if in_int32 (trunc x) then Inr (trunc x) else Inl UB)"

definition field :: "lua_table \<Rightarrow> string \<Rightarrow> lua_value" where
  "field t key = (case um_find t key of None \<Rightarrow> LNil | Some v \<Rightarrow> v)"

definition get_or_str :: "lua_conv \<Rightarrow> lua_value \<Rightarrow> string \<Rightarrow> string" where
  "get_or_str C v def = (case lc_tostring C v of None \<Rightarrow> def | Some s \<Rightarrow> s)"

definition get_or_double :: "lua_conv \<Rightarrow> lua_value \<Rightarrow> double \<Rightarrow> double" where
  "get_or_double C v def = (case lc_tonumber C v of None \<Rightarrow> def | Some x \<Rightarrow> x)"

definition get_or_int :: "lua_conv \<Rightarrow> lua_value \<Rightarrow> int \<Rightarrow> int result" where
  "get_or_int C v def =
     (case v of
        LInt i \<Rightarrow> Inr (int32 i)
      | _ \<Rightarrow> (case lc_tonumber C v of None \<Rightarrow> Inr def | Some x \<Rightarrow> double_to_int x))"

text \<open>\<open>function_result::get<std::string>\<close>: a value that is no string reads as the empty string.\<close>

definition result_string :: "lua_conv \<Rightarrow> lua_value \<Rightarrow> string" where
  "result_string C v = (case lc_tostring C v of None \<Rightarrow> [] | Some s \<Rightarrow> s)"

section \<open>The request pipeline\<close>

definition make_lua_ctx :: "plugin_context \<Rightarrow> lua_table" where
  "make_lua_ctx c =
     [(''model'', LStr (pc_model c)), (''messages_json'', LStr (pc_messages_json c)),
      (''temperature'', LNum (pc_temperature c)), (''max_tokens'', LInt (pc_max_tokens c)),
      (''user_ip'', LStr (pc_user_ip c)), (''api_key'', LStr (pc_api_key c)),
      (''request_id'', LInt (sint (pc_request_id c))),
      (''set_response'', LFun), (''contains_sensitive'', LFun)]"

definition set_response :: "int \<times> string \<Rightarrow> pipeline_result \<Rightarrow> pipeline_result" where
  "set_response = (\<lambda>(status, body) r. r\<lparr>pl_passed := False, pl_abort_status := int32 status, pl_abort_body := body\<rparr>)"

text \<open>\<open>contains_sensitive\<close> of the context table; the binding drops its result.\<close>

definition has_infix :: "string \<Rightarrow> string \<Rightarrow> bool" where
  "has_infix kw s \<longleftrightarrow> (\<exists>i \<in> {0..length s}. starts_with kw (drop i s))"

definition contains_sensitive :: "lua_conv \<Rightarrow> lua_table \<Rightarrow> bool" where
  "contains_sensitive C t =
     (let msgs = get_or_str C (field t ''messages_json'') [] in
      list_ex (\<lambda>kw. has_infix kw msgs) [''violence'', ''hack'', ''exploit'', ''bypass''])"

definition sync_ctx :: "lua_conv \<Rightarrow> lua_table \<Rightarrow> plugin_context \<Rightarrow> plugin_context result" where
  "sync_ctx C t c =
     bindE (get_or_int C (field t ''max_tokens'') (pc_max_tokens c)) (\<lambda>max_tokens.
       Inr (c\<lparr>pc_model := get_or_str C (field t ''model'') (pc_model c),
              pc_messages_json := get_or_str C (field t ''messages_json'') (pc_messages_json c),
              pc_temperature := get_or_double C (field t ''temperature'') (pc_temperature c),
              pc_max_tokens := max_tokens\<rparr>))"

text \<open>The body of the loop for one plugin. The flag says whether the loop returns.\<close>

definition request_hook ::
  "('v, 'w) lua_rt \<Rightarrow> plugin_runtime \<Rightarrow> pipeline_result \<Rightarrow> 'v globals \<times> 'w \<Rightarrow>
     (bool \<times> pipeline_result \<times> ('v globals \<times> 'w)) result" where
  "request_hook R plugin result m =
     (if \<not> pi_enabled (pr_info plugin) \<or> \<not> pr_has_on_request plugin then Inr (False, result, m)
      else case rt_script R (pr_script_body plugin) m of
        (False, m) \<Rightarrow> Inr (False, result, m)
      | (True, m) \<Rightarrow>
          if rt_global R (fst m) ''on_request'' \<noteq> LFun then Inr (False, result, m)
          else (case rt_call_ctx R ''on_request'' (make_lua_ctx (pl_ctx result)) m of
             (outcome, table, responses, m) \<Rightarrow>
               let result = fold set_response responses result in
               (case outcome of
                  Raised _ \<Rightarrow> Inr (False, result, m)
                | Returned v \<Rightarrow>
                    let ret = result_string (rt_conv R) v in
                    bindE (sync_ctx (rt_conv R) table (pl_ctx result)) (\<lambda>ctx.
                      let result = result\<lparr>pl_ctx := ctx\<rparr> in
                      if ret = ''ABORT_EARLY'' then Inr (True, result\<lparr>pl_passed := False\<rparr>, m)
                      else Inr (False, result, m)))))"

fun request_loop ::
  "('v, 'w) lua_rt \<Rightarrow> plugin_runtime list \<Rightarrow> pipeline_result \<Rightarrow> 'v globals \<times> 'w \<Rightarrow>
     (pipeline_result \<times> ('v globals \<times> 'w)) result" where
  "request_loop R [] result m = Inr (result, m)"
| "request_loop R (plugin # plugins) result m =
     bindE (request_hook R plugin result m) (\<lambda>(stop, result, m).
       if stop then Inr (result, m) else request_loop R plugins result m)"

text \<open>A pipeline runs on a machine of the thread's pool, which gets it back when the handle dies.\<close>

definition with_vm ::
  "('v globals \<times> 'w \<Rightarrow> ('a \<times> ('v globals \<times> 'w)) result) \<Rightarrow> 'v vm_pool option \<Rightarrow> 'w \<Rightarrow>
     ('a \<times> 'v vm_pool option \<times> 'w) result" where
  "with_vm body t_pool w =
     bindE (borrow_vm t_pool) (\<lambda>(vm, p).
       case um_find (vp_all p) vm of
         None \<Rightarrow> Inl UB
       | Some g \<Rightarrow> bindE (body (g, w)) (\<lambda>(a, g, w).
           Inr (a, Some (pool_return vm (p\<lparr>vp_all := um_set vm g (vp_all p)\<rparr>)), w)))"

definition run_request_pipeline ::
  "('v, 'w) lua_rt \<Rightarrow> plugin_runtime list \<Rightarrow> plugin_context \<Rightarrow> 'v vm_pool option \<Rightarrow> 'w \<Rightarrow>
     (pipeline_result \<times> 'v vm_pool option \<times> 'w) result" where
  "run_request_pipeline R plugins ctx =
     with_vm (request_loop R plugins \<lparr>pl_passed = True, pl_ctx = ctx, pl_abort_status = 200, pl_abort_body = []\<rparr>)"

section \<open>The token and done pipelines\<close>

fun token_loop :: "('v, 'w) lua_rt \<Rightarrow> plugin_runtime list \<Rightarrow> string \<Rightarrow> 'v globals \<times> 'w \<Rightarrow> string \<times> ('v globals \<times> 'w)" where
  "token_loop R [] current m = (current, m)"
| "token_loop R (plugin # plugins) current m =
     (if \<not> pi_enabled (pr_info plugin) \<or> \<not> pr_has_on_token plugin then token_loop R plugins current m
      else case rt_script R (pr_script_body plugin) m of
        (False, m) \<Rightarrow> token_loop R plugins current m
      | (True, m) \<Rightarrow>
          if rt_global R (fst m) ''on_token'' \<noteq> LFun then token_loop R plugins current m
          else (case rt_call R ''on_token'' [LStr current] m of
             (Returned (LStr s), m) \<Rightarrow> token_loop R plugins s m
           | (Returned LNil, m) \<Rightarrow> ([], m)
           | (_, m) \<Rightarrow> token_loop R plugins current m))"

definition run_token_pipeline ::
  "('v, 'w) lua_rt \<Rightarrow> plugin_runtime list \<Rightarrow> string \<Rightarrow> 'v vm_pool option \<Rightarrow> 'w \<Rightarrow>
     (string \<times> 'v vm_pool option \<times> 'w) result" where
  "run_token_pipeline R plugins token = with_vm (\<lambda>m. Inr (token_loop R plugins token m))"

fun done_loop :: "('v, 'w) lua_rt \<Rightarrow> plugin_runtime list \<Rightarrow> 'v globals \<times> 'w \<Rightarrow> 'v globals \<times> 'w" where
  "done_loop R [] m = m"
| "done_loop R (plugin # plugins) m =
     (if \<not> pi_enabled (pr_info plugin) \<or> \<not> pr_has_on_done plugin then done_loop R plugins m
      else case rt_script R (pr_script_body plugin) m of
        (False, m) \<Rightarrow> done_loop R plugins m
      | (True, m) \<Rightarrow>
          if rt_global R (fst m) ''on_done'' = LFun then done_loop R plugins (snd (rt_call R ''on_done'' [] m))
          else done_loop R plugins m)"

definition run_done_pipeline ::
  "('v, 'w) lua_rt \<Rightarrow> plugin_runtime list \<Rightarrow> 'v vm_pool option \<Rightarrow> 'w \<Rightarrow> (unit \<times> 'v vm_pool option \<times> 'w) result" where
  "run_done_pipeline R plugins = with_vm (\<lambda>m. Inr ((), done_loop R plugins m))"

end
