(* ===== verification/Plugin_Loader.thy ===== *)
theory Plugin_Loader
  imports Plugin_Manager "HOL-Library.Multiset"
begin

text \<open>
  Loading, reloading and ordering of plugins (\<open>src/plugin_manager.cpp\<close>). The files are a map from paths to
  contents, read anew by each operation; a directory listing is a list of paths with the flag
  \<open>is_regular_file\<close>, in the order the iterator gives. \<open>std::sort\<close> is a parameter: it may permute plugins of
  equal priority.
\<close>

section \<open>Operations\<close>

record plugin_manager =
  pm_dir :: string
  pm_pool_size :: nat
  pm_plugins :: "plugin_runtime list"
  pm_watching :: bool

type_synonym files = "string \<Rightarrow> string option"

definition read_file :: "files \<Rightarrow> string \<Rightarrow> string" where
  "read_file fs path = (case fs path of None \<Rightarrow> [] | Some body \<Rightarrow> body)"

definition plugin_of :: "('v, 'w) lua_rt \<Rightarrow> string \<Rightarrow> string \<Rightarrow> 'v globals \<Rightarrow> int \<Rightarrow> plugin_runtime" where
  "plugin_of R filepath body g priority =
     \<lparr>pr_info = \<lparr>pi_filepath = filepath, pi_name = get_or_str (rt_conv R) (rt_global R g ''name'') ''unnamed'',
        pi_version = get_or_str (rt_conv R) (rt_global R g ''version'') ''0.0.0'', pi_priority = priority, pi_enabled = True\<rparr>,
      pr_script_body = body, pr_has_init = (rt_global R g ''init'' = LFun),
      pr_has_on_request = (rt_global R g ''on_request'' = LFun), pr_has_on_token = (rt_global R g ''on_token'' = LFun),
      pr_has_on_done = (rt_global R g ''on_done'' = LFun)\<rparr>"

definition load_plugin ::
  "('v, 'w) lua_rt \<Rightarrow> files \<Rightarrow> string \<Rightarrow> plugin_runtime list \<Rightarrow> 'w \<Rightarrow> (plugin_runtime list \<times> 'w) result" where
  "load_plugin R fs filepath plugins w =
     (let body = read_file fs filepath in
      if body = [] then Inr (plugins, w)
      else case rt_script R body (rt_libs R, w) of
        (False, _, w) \<Rightarrow> Inr (plugins, w)
      | (True, g, w) \<Rightarrow>
          bindE (get_or_int (rt_conv R) (rt_global R g ''priority'') 0) (\<lambda>priority.
            let rt = plugin_of R filepath body g priority in
            if pr_has_init rt
            then (case rt_call R ''init'' [] (g, w) of
                    (Raised False, _, w) \<Rightarrow> Inr (plugins, w)
                  | (_, _, w) \<Rightarrow> Inr (plugins @ [rt], w))
            else Inr (plugins @ [rt], w)))"

definition unload_plugin :: "string \<Rightarrow> plugin_runtime list \<Rightarrow> plugin_runtime list" where
  "unload_plugin filepath plugins = filter (\<lambda>rt. pi_filepath (pr_info rt) \<noteq> filepath) plugins"

fun load_entries ::
  "('v, 'w) lua_rt \<Rightarrow> files \<Rightarrow> (string \<times> bool) list \<Rightarrow> plugin_runtime list \<Rightarrow> 'w \<Rightarrow> (plugin_runtime list \<times> 'w) result" where
  "load_entries R fs [] plugins w = Inr (plugins, w)"
| "load_entries R fs ((path, regular) # es) plugins w =
     (if \<not> regular \<or> path_extension path \<noteq> ''.lua'' then load_entries R fs es plugins w
      else bindE (load_plugin R fs path plugins w) (\<lambda>(plugins, w). load_entries R fs es plugins w))"

text \<open>\<open>listing\<close> is \<open>None\<close> when the directory does not exist.\<close>

definition scan_and_load ::
  "(plugin_runtime list \<Rightarrow> plugin_runtime list) \<Rightarrow> ('v, 'w) lua_rt \<Rightarrow> files \<Rightarrow> (string \<times> bool) list option \<Rightarrow>
     plugin_manager \<Rightarrow> 'w \<Rightarrow> (plugin_manager \<times> 'w) result" where
  "scan_and_load std_sort R fs listing pm w =
     (case listing of
        None \<Rightarrow> Inr (pm\<lparr>pm_plugins := []\<rparr>, w)
      | Some entries \<Rightarrow>
          bindE (load_entries R fs entries [] w) (\<lambda>(plugins, w). Inr (pm\<lparr>pm_plugins := std_sort plugins\<rparr>, w)))"

definition pm_init ::
  "(plugin_runtime list \<Rightarrow> plugin_runtime list) \<Rightarrow> ('v, 'w) lua_rt \<Rightarrow> files \<Rightarrow> (string \<times> bool) list option \<Rightarrow>
     string \<Rightarrow> nat \<Rightarrow> 'w \<Rightarrow> (plugin_manager \<times> 'w) result" where
  "pm_init std_sort R fs listing plugins_dir pool_size =
     scan_and_load std_sort R fs listing
       \<lparr>pm_dir = plugins_dir, pm_pool_size = pool_size, pm_plugins = [], pm_watching = False\<rparr>"

definition reload_plugin ::
  "(plugin_runtime list \<Rightarrow> plugin_runtime list) \<Rightarrow> ('v, 'w) lua_rt \<Rightarrow> files \<Rightarrow> string \<Rightarrow> plugin_manager \<Rightarrow> 'w \<Rightarrow>
     (plugin_manager \<times> 'w) result" where
  "reload_plugin std_sort R fs filepath pm w =
     bindE (load_plugin R fs filepath (unload_plugin filepath (pm_plugins pm)) w) (\<lambda>(plugins, w).
       Inr (pm\<lparr>pm_plugins := std_sort plugins\<rparr>, w))"

text \<open>One event of the watched directory; \<open>None\<close> is an event without a name.\<close>

definition hot_reload_event ::
  "(plugin_runtime list \<Rightarrow> plugin_runtime list) \<Rightarrow> ('v, 'w) lua_rt \<Rightarrow> files \<times> string option \<Rightarrow>
     plugin_manager \<times> 'w \<Rightarrow> (plugin_manager \<times> 'w) result" where
  "hot_reload_event std_sort R = (\<lambda>(fs, event) (pm, w).
     case event of
       None \<Rightarrow> Inr (pm, w)
     | Some filename \<Rightarrow>
         if 4 < length filename \<and> drop (length filename - 4) filename = ''.lua''
         then reload_plugin std_sort R fs (pm_dir pm @ ''/'' @ filename) pm w
         else Inr (pm, w))"

definition list_plugins :: "plugin_manager \<Rightarrow> plugin_info list" where
  "list_plugins pm = map pr_info (pm_plugins pm)"

definition start_hot_reload :: "bool \<Rightarrow> plugin_manager \<Rightarrow> plugin_manager" where
  "start_hot_reload inotify_ok pm = (if pm_watching pm \<or> \<not> inotify_ok then pm else pm\<lparr>pm_watching := True\<rparr>)"

definition stop_hot_reload :: "plugin_manager \<Rightarrow> plugin_manager" where
  "stop_hot_reload pm = pm\<lparr>pm_watching := False\<rparr>"

definition pm_shutdown :: "plugin_manager \<Rightarrow> plugin_manager" where
  "pm_shutdown pm = (stop_hot_reload pm)\<lparr>pm_plugins := []\<rparr>"

definition setup_thread_pool :: "'v globals \<Rightarrow> 'v \<Rightarrow> plugin_manager \<Rightarrow> 'v vm_pool option" where
  "setup_thread_pool libs gateway pm = Some (pool_new (pm_pool_size pm) libs gateway)"

section \<open>The list of plugins\<close>

definition plugin_path :: "plugin_runtime \<Rightarrow> string" where
  "plugin_path rt = pi_filepath (pr_info rt)"

definition by_priority :: "plugin_runtime \<Rightarrow> plugin_runtime \<Rightarrow> bool" where
  "by_priority a b \<longleftrightarrow> pi_priority (pr_info b) \<le> pi_priority (pr_info a)"

definition sorts :: "(plugin_runtime list \<Rightarrow> plugin_runtime list) \<Rightarrow> bool" where
  "sorts srt \<longleftrightarrow> (\<forall>xs. mset (srt xs) = mset xs \<and> sorted_wrt by_priority (srt xs))"

definition plugins_ok :: "plugin_runtime list \<Rightarrow> bool" where
  "plugins_ok ps \<longleftrightarrow> distinct (map plugin_path ps) \<and> sorted_wrt by_priority ps \<and>
     (\<forall>p \<in> set ps. pi_enabled (pr_info p) \<and> pr_script_body p \<noteq> [])"

lemma sorts_sort_key: "sorts (sort_key (\<lambda>p. - pi_priority (pr_info p)))"
proof -
  have "sorted (map (\<lambda>p. - pi_priority (pr_info p)) ps) \<Longrightarrow> sorted_wrt by_priority ps" for ps
    by (induction ps) (auto simp: by_priority_def)
  then show ?thesis by (simp add: sorts_def)
qed

lemma load_plugin_append:
  assumes "load_plugin R fs path plugins w = Inr (plugins', w')"
  shows "\<exists>new. load_plugin R fs path [] w = Inr (new, w') \<and> plugins' = plugins @ new \<and> length new \<le> 1 \<and>
    (\<forall>p \<in> set new. plugin_path p = path \<and> pi_enabled (pr_info p) \<and> pr_script_body p = read_file fs path \<and> read_file fs path \<noteq> [])"
proof -
  have "plugin_path (plugin_of R path b g n) = path" "pi_enabled (pr_info (plugin_of R path b g n))"
    "pr_script_body (plugin_of R path b g n) = b" for b g n
    by (simp_all add: plugin_path_def plugin_of_def)
  then show ?thesis
    using assms
    by (auto simp: load_plugin_def Let_def bindE_eq_Inr split: if_splits prod.splits bool.splits lua_outcome.splits)
qed

lemma sorts_ok:
  assumes "sorts srt" "distinct (map plugin_path ps)" "\<forall>p \<in> set ps. pi_enabled (pr_info p) \<and> pr_script_body p \<noteq> []"
  shows "plugins_ok (srt ps)"
proof -
  have m: "mset (srt ps) = mset ps" "sorted_wrt by_priority (srt ps)" using assms(1) by (simp_all add: sorts_def)
  have "mset (map plugin_path (srt ps)) = mset (map plugin_path ps)" using m(1) by simp
  then have "distinct (map plugin_path (srt ps))" using assms(2) mset_eq_imp_distinct_iff by blast
  then show ?thesis using m assms(3) mset_eq_setD[OF m(1)] by (simp add: plugins_ok_def)
qed

lemma reload_plugin_spec:
  assumes "sorts srt" "plugins_ok (pm_plugins pm)" "reload_plugin srt R fs path pm w = Inr (pm', w')"
  shows "plugins_ok (pm_plugins pm') \<and> pm_dir pm' = pm_dir pm \<and>
    (\<exists>new. load_plugin R fs path [] w = Inr (new, w') \<and> length new \<le> 1 \<and>
       mset (pm_plugins pm') = mset (unload_plugin path (pm_plugins pm)) + mset new)"
proof -
  obtain ps where ps: "load_plugin R fs path (unload_plugin path (pm_plugins pm)) w = Inr (ps, w')"
      "pm' = pm\<lparr>pm_plugins := srt ps\<rparr>"
    using assms(3) by (auto simp: reload_plugin_def bindE_eq_Inr)
  obtain new where new: "load_plugin R fs path [] w = Inr (new, w')" "ps = unload_plugin path (pm_plugins pm) @ new"
      "length new \<le> 1" "\<forall>p \<in> set new. plugin_path p = path \<and> pi_enabled (pr_info p) \<and> pr_script_body p \<noteq> []"
    using load_plugin_append[OF ps(1)] by fastforce
  have "distinct (map plugin_path new)" using new(3) by (cases new) auto
  moreover have "distinct (map plugin_path (unload_plugin path (pm_plugins pm)))"
    using assms(2) by (simp add: plugins_ok_def unload_plugin_def distinct_map_filter)
  ultimately have "distinct (map plugin_path ps)"
    using new(2,4) by (auto simp: unload_plugin_def plugin_path_def)
  then have "plugins_ok (srt ps)"
    using new(2,4) assms(2) by (intro sorts_ok[OF assms(1)]) (auto simp: plugins_ok_def unload_plugin_def)
  then show ?thesis using ps(2) new(1,2,3) assms(1) by (auto simp: sorts_def)
qed

lemma load_entries_ok:
  "load_entries R fs es ps w = Inr (ps', w') \<Longrightarrow> distinct (map fst es) \<Longrightarrow>
     \<forall>p \<in> set ps. pi_enabled (pr_info p) \<and> pr_script_body p \<noteq> [] \<and> plugin_path p \<notin> fst ` set es \<Longrightarrow>
     distinct (map plugin_path ps) \<Longrightarrow>
     distinct (map plugin_path ps') \<and> (\<forall>p \<in> set ps'. pi_enabled (pr_info p) \<and> pr_script_body p \<noteq> [])"
proof (induction es arbitrary: ps w)
  case (Cons e es)
  obtain path regular where e: "e = (path, regular)" by (cases e)
  show ?case
  proof (cases "\<not> regular \<or> path_extension path \<noteq> ''.lua''")
    case True
    then have a: "load_entries R fs es ps w = Inr (ps', w')" using Cons.prems(1) e by simp
    have b: "distinct (map fst es)" using Cons.prems(2) by simp
    have c: "\<forall>p \<in> set ps. pi_enabled (pr_info p) \<and> pr_script_body p \<noteq> [] \<and> plugin_path p \<notin> fst ` set es"
      using Cons.prems(3) by simp
    show ?thesis by (rule Cons.IH[OF a b c Cons.prems(4)])
  next
    case False
    then have "bindE (load_plugin R fs path ps w) (\<lambda>(ps, w). load_entries R fs es ps w) = Inr (ps', w')"
      using Cons.prems(1) e by simp
    then obtain ps1 w1 where l: "load_plugin R fs path ps w = Inr (ps1, w1)" "load_entries R fs es ps1 w1 = Inr (ps', w')"
      unfolding bindE_eq_Inr by auto
    obtain new where new: "ps1 = ps @ new" "length new \<le> 1"
        "\<forall>p \<in> set new. plugin_path p = path \<and> pi_enabled (pr_info p) \<and> pr_script_body p \<noteq> []"
      using load_plugin_append[OF l(1)] by fastforce
    have d: "distinct (map plugin_path new)" using new(2) by (cases new) auto
    have fresh: "\<forall>p \<in> set ps. plugin_path p \<noteq> path" using Cons.prems(3) e by auto
    have "set (map plugin_path ps) \<inter> set (map plugin_path new) = {}" using new(3) fresh by fastforce
    then have "distinct (map plugin_path ps1)" unfolding new(1) map_append distinct_append using d Cons.prems(4) by blast
    moreover have es: "path \<notin> fst ` set es" "distinct (map fst es)" using Cons.prems(2) e by simp_all
    moreover have "\<forall>p \<in> set ps1. pi_enabled (pr_info p) \<and> pr_script_body p \<noteq> [] \<and> plugin_path p \<notin> fst ` set es"
      using new(1,3) Cons.prems(3) e es(1) by (auto simp: image_iff)
    ultimately show ?thesis using Cons.IH[OF l(2)] by blast
  qed
qed simp

lemma hot_reload_ok:
  assumes "sorts srt" "plugins_ok (pm_plugins pm)" "foldE (hot_reload_event srt R) events (pm, w) = Inr (pm', w')"
  shows "plugins_ok (pm_plugins pm') \<and> pm_dir pm' = pm_dir pm"
  using assms(2,3)
proof (induction events arbitrary: pm w)
  case (Cons ev evs)
  obtain fs event where ev: "ev = (fs, event)" by (cases ev)
  obtain pm1 w1 where s: "hot_reload_event srt R ev (pm, w) = Inr (pm1, w1)"
      "foldE (hot_reload_event srt R) evs (pm1, w1) = Inr (pm', w')"
    using Cons.prems(2) by (auto simp: bindE_eq_Inr)
  consider "pm1 = pm" | path where "reload_plugin srt R fs path pm w = Inr (pm1, w1)"
    using s(1) ev by (auto simp: hot_reload_event_def split: option.splits if_splits)
  then have "plugins_ok (pm_plugins pm1) \<and> pm_dir pm1 = pm_dir pm"
    using Cons.prems(1) reload_plugin_spec[OF assms(1) Cons.prems(1), of R] by cases blast+
  then show ?case using Cons.IH[OF _ s(2)] by simp
qed simp

section \<open>Correctness of the list\<close>

text \<open>C19. The plugin list stays in order through hot reloads: after start-up on any directory listing
  without duplicates and any sequence of file events, the plugins are in descending priority whatever
  order \<open>std::sort\<close> gives equal ones, each file has at most one plugin, and all of them are enabled and
  non-empty. Reloading a file replaces exactly its plugin by what loading it gives now, which is none when
  the file is gone, empty or fails, and keeps all the others.\<close>

theorem plugin_list_invariant:
  assumes "sorts srt" "distinct (map fst entries)"
    "pm_init srt R fs (Some entries) dir n w = Inr (pm, w1)"
    "foldE (hot_reload_event srt R) events (pm, w1) = Inr (pm', w2)"
  shows "distinct (map plugin_path (pm_plugins pm')) \<and> sorted_wrt by_priority (pm_plugins pm') \<and>
    (\<forall>p \<in> set (pm_plugins pm'). pi_enabled (pr_info p) \<and> pr_script_body p \<noteq> []) \<and>
    (\<forall>fs' path pm'' w3. reload_plugin srt R fs' path pm' w2 = Inr (pm'', w3) \<longrightarrow>
       (\<exists>new. load_plugin R fs' path [] w2 = Inr (new, w3) \<and> length new \<le> 1 \<and>
          mset (pm_plugins pm'') = mset (filter (\<lambda>p. plugin_path p \<noteq> path) (pm_plugins pm')) + mset new) \<and>
       sorted_wrt by_priority (pm_plugins pm''))"
proof -
  obtain ps where "load_entries R fs entries [] w = Inr (ps, w1)" "pm_plugins pm = srt ps"
    using assms(3) by (auto simp: pm_init_def scan_and_load_def bindE_eq_Inr)
  then have "plugins_ok (pm_plugins pm)"
    using load_entries_ok[of R fs entries "[]" w ps w1] assms(2) sorts_ok[OF assms(1)] by simp
  then have ok: "plugins_ok (pm_plugins pm')" using hot_reload_ok[OF assms(1) _ assms(4)] by blast
  have "\<exists>new. load_plugin R fs' path [] w2 = Inr (new, w3) \<and> length new \<le> 1 \<and>
          mset (pm_plugins pm'') = mset (filter (\<lambda>p. plugin_path p \<noteq> path) (pm_plugins pm')) + mset new"
      "sorted_wrt by_priority (pm_plugins pm'')"
    if "reload_plugin srt R fs' path pm' w2 = Inr (pm'', w3)" for fs' path pm'' w3
    using reload_plugin_spec[OF assms(1) ok that] by (simp_all add: plugins_ok_def unload_plugin_def plugin_path_def)
  then show ?thesis using ok unfolding plugins_ok_def by blast
qed

text \<open>A Lua for the witnesses: a script is a list of global names, separated by spaces, which it defines as
  functions; every call returns nil.\<close>

definition demo_rt :: "(lua_value, unit) lua_rt" where
  "demo_rt = \<lparr>rt_conv = plain_conv, rt_libs = [],
     rt_script = (\<lambda>body (g, w). (True, (um_set body LFun g, w))),
     rt_global = (\<lambda>g k. case um_find g k of None \<Rightarrow> LNil | Some v \<Rightarrow> v),
     rt_call = (\<lambda>f args m. (Returned LNil, m)),
     rt_call_ctx = (\<lambda>f t m. (Returned (LStr ''ABORT_EARLY''), t, [(403, ''no'')], m))\<rparr>"

definition demo_files :: files where
  "demo_files = [''p/a.lua'' \<mapsto> ''on_request'']"

lemma demo_init:
  "pm_init (sort_key (\<lambda>p. - pi_priority (pr_info p))) demo_rt demo_files (Some [(''p/a.lua'', True)]) ''p'' 1 () =
     Inr (\<lparr>pm_dir = ''p'', pm_pool_size = 1, pm_plugins = [plugin_of demo_rt ''p/a.lua'' ''on_request'' [(''on_request'', LFun)] 0],
       pm_watching = False\<rparr>, ())"
  by (simp add: pm_init_def scan_and_load_def path_extension_def file_name_def load_plugin_def demo_files_def
      read_file_def plugin_of_def demo_rt_def um_set_def get_or_int_def plain_conv_def um_find_def)

theorem plugin_list_invariant_witness:
  "\<exists>pm w. foldE (hot_reload_event (sort_key (\<lambda>p. - pi_priority (pr_info p))) demo_rt) [(demo_files, Some ''a.lua'')]
       (\<lparr>pm_dir = ''p'', pm_pool_size = 1, pm_plugins = [plugin_of demo_rt ''p/a.lua'' ''on_request'' [(''on_request'', LFun)] 0],
         pm_watching = False\<rparr>, ()) = Inr (pm, w) \<and> distinct (map plugin_path (pm_plugins pm))"
proof -
  let ?srt = "sort_key (\<lambda>p. - pi_priority (pr_info p))"
  obtain pm w where e: "foldE (hot_reload_event ?srt demo_rt) [(demo_files, Some ''a.lua'')]
       (\<lparr>pm_dir = ''p'', pm_pool_size = 1, pm_plugins = [plugin_of demo_rt ''p/a.lua'' ''on_request'' [(''on_request'', LFun)] 0],
         pm_watching = False\<rparr>, ()) = Inr (pm, w)"
    by (simp add: hot_reload_event_def reload_plugin_def load_plugin_def unload_plugin_def demo_files_def read_file_def
        plugin_of_def demo_rt_def um_set_def get_or_int_def plain_conv_def um_find_def)
  have "distinct (map plugin_path (pm_plugins pm))"
    using plugin_list_invariant[OF sorts_sort_key _ demo_init e] by simp
  then show ?thesis using e by blast
qed

end
