(* ===== verification/Plugin_Pipeline.thy ===== *)
theory Plugin_Pipeline
  imports Plugin_Loader
begin

text \<open>
  What the pipelines of the plugin manager decide. The request pipeline is compared with a big-step
  relation that says, hook by hook, which plugins run, in which machine, and what they answer; the token
  pipeline with the composition of the filters the plugins are.
\<close>

section \<open>The run of a request\<close>

text \<open>An event is a hook that was called: its \<open>set_response\<close> calls and whether it returned \<open>ABORT_EARLY\<close>.\<close>

inductive pipeline_run ::
  "('v, 'w) lua_rt \<Rightarrow> plugin_runtime list \<Rightarrow> plugin_context \<Rightarrow> 'v globals \<times> 'w \<Rightarrow>
     ((int \<times> string) list \<times> bool) list \<Rightarrow> plugin_context \<Rightarrow> 'v globals \<times> 'w \<Rightarrow> bool" for R where
  finish: "pipeline_run R [] c m [] c m"
| skip: "\<not> pi_enabled (pr_info p) \<or> \<not> pr_has_on_request p \<Longrightarrow> pipeline_run R ps c m evs c' m' \<Longrightarrow>
    pipeline_run R (p # ps) c m evs c' m'"
| broken: "pi_enabled (pr_info p) \<Longrightarrow> pr_has_on_request p \<Longrightarrow> rt_script R (pr_script_body p) m = (valid, m1) \<Longrightarrow>
    \<not> valid \<or> rt_global R (fst m1) ''on_request'' \<noteq> LFun \<Longrightarrow> pipeline_run R ps c m1 evs c' m' \<Longrightarrow>
    pipeline_run R (p # ps) c m evs c' m'"
| failed: "pi_enabled (pr_info p) \<Longrightarrow> pr_has_on_request p \<Longrightarrow> rt_script R (pr_script_body p) m = (True, m1) \<Longrightarrow>
    rt_global R (fst m1) ''on_request'' = LFun \<Longrightarrow>
    rt_call_ctx R ''on_request'' (make_lua_ctx c) m1 = (Raised b, t, resp, m2) \<Longrightarrow>
    pipeline_run R ps c m2 evs c' m' \<Longrightarrow> pipeline_run R (p # ps) c m ((resp, False) # evs) c' m'"
| passed: "pi_enabled (pr_info p) \<Longrightarrow> pr_has_on_request p \<Longrightarrow> rt_script R (pr_script_body p) m = (True, m1) \<Longrightarrow>
    rt_global R (fst m1) ''on_request'' = LFun \<Longrightarrow>
    rt_call_ctx R ''on_request'' (make_lua_ctx c) m1 = (Returned v, t, resp, m2) \<Longrightarrow>
    result_string (rt_conv R) v \<noteq> ''ABORT_EARLY'' \<Longrightarrow> sync_ctx (rt_conv R) t c = Inr c1 \<Longrightarrow>
    pipeline_run R ps c1 m2 evs c' m' \<Longrightarrow> pipeline_run R (p # ps) c m ((resp, False) # evs) c' m'"
| aborted: "pi_enabled (pr_info p) \<Longrightarrow> pr_has_on_request p \<Longrightarrow> rt_script R (pr_script_body p) m = (True, m1) \<Longrightarrow>
    rt_global R (fst m1) ''on_request'' = LFun \<Longrightarrow>
    rt_call_ctx R ''on_request'' (make_lua_ctx c) m1 = (Returned v, t, resp, m2) \<Longrightarrow>
    result_string (rt_conv R) v = ''ABORT_EARLY'' \<Longrightarrow> sync_ctx (rt_conv R) t c = Inr c1 \<Longrightarrow>
    pipeline_run R (p # ps) c m [(resp, True)] c1 m2"

definition verdict :: "((int \<times> string) list \<times> bool) list \<Rightarrow> pipeline_result \<Rightarrow> plugin_context \<Rightarrow> pipeline_result" where
  "verdict evs r c =
     (fold set_response (concat (map fst evs)) r)
       \<lparr>pl_ctx := c, pl_passed := pl_passed r \<and> (\<forall>(resp, ab) \<in> set evs. resp = [] \<and> \<not> ab)\<rparr>"

lemma set_response_simps [simp]:
  "pl_ctx (set_response x r) = pl_ctx r" "\<not> pl_passed (set_response x r)"
  by (simp_all add: set_response_def split: prod.split)

lemma fold_set_response [simp]:
  "pl_ctx (fold set_response resp r) = pl_ctx r"
  "pl_passed (fold set_response resp r) \<longleftrightarrow> pl_passed r \<and> resp = []"
  by (induction resp arbitrary: r) auto

lemma set_response_ctx: "set_response x (r\<lparr>pl_ctx := c\<rparr>) = (set_response x r)\<lparr>pl_ctx := c\<rparr>"
  by (cases x) (simp add: set_response_def)

lemma fold_set_response_ctx:
  "fold set_response resp (r\<lparr>pl_ctx := c\<rparr>) = (fold set_response resp r)\<lparr>pl_ctx := c\<rparr>"
  by (induction resp arbitrary: r) (simp_all add: set_response_ctx)

lemma fold_set_response_passed:
  "resp = [] \<or> fold set_response resp (r\<lparr>pl_passed := b\<rparr>) = fold set_response resp r"
  by (cases resp) (auto simp: set_response_def)

text \<open>One hook: it ends the run, or it puts its events in front of those of the rest.\<close>

lemma hook_step:
  assumes hook: "request_hook R p r m = Inr (stop, r1, m3)"
  shows "if stop then \<exists>evs c'. pipeline_run R (p # ps) (pl_ctx r) m evs c' m3 \<and> r1 = verdict evs r c'
    else \<exists>pre. \<forall>evs c' m'. pipeline_run R ps (pl_ctx r1) m3 evs c' m' \<longrightarrow>
      pipeline_run R (p # ps) (pl_ctx r) m (pre @ evs) c' m' \<and> verdict evs r1 c' = verdict (pre @ evs) r c'"
proof (cases "pi_enabled (pr_info p) \<and> pr_has_on_request p")
  case False
  then have "\<not> stop" "r1 = r" "m3 = m" using hook by (auto simp: request_hook_def split: if_splits)
  then show ?thesis using False by (auto intro!: exI[of _ "[]"] skip)
next
  case on: True
  obtain valid m1 where m1: "rt_script R (pr_script_body p) m = (valid, m1)" by (metis surj_pair)
  show ?thesis
  proof (cases "valid \<and> rt_global R (fst m1) ''on_request'' = LFun")
    case False
    then have "\<not> stop" "r1 = r" "m3 = m1" using hook on m1 by (cases valid; auto simp: request_hook_def)+
    then show ?thesis using broken[OF _ _ m1] False on by (auto intro!: exI[of _ "[]"])
  next
    case fn: True
    then have m1t: "rt_script R (pr_script_body p) m = (True, m1)" using m1 by simp
    obtain out t resp m2 where call: "rt_call_ctx R ''on_request'' (make_lua_ctx (pl_ctx r)) m1 = (out, t, resp, m2)"
      by (metis prod_cases4)
    show ?thesis
    proof (cases out)
      case (Raised b)
      then have "\<not> stop" "r1 = fold set_response resp r" "m3 = m2" using hook on m1 fn call by (auto simp: request_hook_def)
      then show ?thesis using failed[OF _ _ m1t _ call[unfolded Raised]] on fn
        by (auto intro!: exI[of _ "[(resp, False)]"] simp: verdict_def)
    next
      case (Returned v)
      then obtain c1 where c1: "sync_ctx (rt_conv R) t (pl_ctx r) = Inr c1"
        using hook on m1 fn call by (auto simp: request_hook_def bindE_eq_Inr Let_def)
      show ?thesis
      proof (cases "result_string (rt_conv R) v = ''ABORT_EARLY''")
        case True
        then have "stop" "r1 = verdict [(resp, True)] r c1" "m3 = m2"
          using hook on m1 fn call Returned c1 by (auto simp: request_hook_def verdict_def)
        then show ?thesis using aborted[OF _ _ m1t _ call[unfolded Returned] True c1] on fn by auto
      next
        case False
        then have "\<not> stop" "r1 = (fold set_response resp r)\<lparr>pl_ctx := c1\<rparr>" "m3 = m2"
          using hook on m1 fn call Returned c1 by (auto simp: request_hook_def)
        then show ?thesis using passed[OF _ _ m1t _ call[unfolded Returned] False c1] on fn
          by (auto intro!: exI[of _ "[(resp, False)]"] simp: verdict_def fold_set_response_ctx)
      qed
    qed
  qed
qed

lemma request_loop_run:
  "request_loop R ps r m = Inr (r', m') \<Longrightarrow>
     \<exists>evs c'. pipeline_run R ps (pl_ctx r) m evs c' m' \<and> r' = verdict evs r c'"
proof (induction ps arbitrary: r m)
  case Nil
  then show ?case by (intro exI[of _ "[]"] exI[of _ "pl_ctx r"]) (auto simp: verdict_def intro: finish)
next
  case (Cons p ps)
  then obtain stop r1 m1 where hook: "request_hook R p r m = Inr (stop, r1, m1)"
      "(if stop then Inr (r1, m1) else request_loop R ps r1 m1) = Inr (r', m')"
    by (auto simp: bindE_eq_Inr)
  show ?case
  proof (cases stop)
    case True
    then show ?thesis using hook_step[OF hook(1), of ps] hook(2) by auto
  next
    case False
    then have "request_loop R ps r1 m1 = Inr (r', m')" using hook(2) by simp
    from Cons.IH[OF this] obtain evs c' where "pipeline_run R ps (pl_ctx r1) m1 evs c' m'" "r' = verdict evs r1 c'" by blast
    moreover obtain pre where "\<And>evs c' m'. pipeline_run R ps (pl_ctx r1) m1 evs c' m' \<Longrightarrow>
        pipeline_run R (p # ps) (pl_ctx r) m (pre @ evs) c' m' \<and> verdict evs r1 c' = verdict (pre @ evs) r c'"
      using hook_step[OF hook(1), of ps] False by (simp del: split_paired_All) blast
    ultimately show ?thesis by metis
  qed
qed

text \<open>No plugin changes who the request is from.\<close>

lemma sync_ctx_meta:
  "sync_ctx C t c = Inr c' \<Longrightarrow>
     pc_user_ip c' = pc_user_ip c \<and> pc_api_key c' = pc_api_key c \<and> pc_request_id c' = pc_request_id c"
  by (auto simp: sync_ctx_def bindE_eq_Inr)

lemma pipeline_run_meta:
  "pipeline_run R ps c m evs c' m' \<Longrightarrow>
     pc_user_ip c' = pc_user_ip c \<and> pc_api_key c' = pc_api_key c \<and> pc_request_id c' = pc_request_id c"
  by (induction rule: pipeline_run.induct) (auto dest: sync_ctx_meta)

lemma pipeline_run_abort_last:
  "pipeline_run R ps c m evs c' m' \<Longrightarrow> \<forall>ev \<in> set (butlast evs). \<not> snd ev"
  by (induction rule: pipeline_run.induct) auto

lemma with_vm_pool:
  assumes "with_vm body (Some p) w = Inr (a, t_pool, w')"
  shows "\<exists>vm rest g m'. vp_available p = vm # rest \<and> um_find (vp_all p) vm = Some g \<and>
    body (sandbox_reset g, w) = Inr (a, m') \<and> snd m' = w' \<and>
    (\<exists>p'. t_pool = Some p' \<and> vp_available p' = rest @ [vm])"
  using assms
  by (auto simp: with_vm_def borrow_vm_def pool_borrow_def bindE_eq_Inr pool_return_def
      split: list.splits option.splits)

text \<open>C5. The request pipeline decides as its plugins say: it runs the enabled plugins with an
  \<open>on_request\<close> hook in list order on one fresh machine, skipping scripts that fail, until one returns
  \<open>ABORT_EARLY\<close>. The request passes exactly when no hook that ran called \<open>set_response\<close> or returned
  \<open>ABORT_EARLY\<close>, so no later plugin lets a rejected request through, and then the response is still the
  initial one; otherwise the last \<open>set_response\<close> is the response. Address, key and identifier of the
  request never change, and the machine is back in the pool.\<close>

theorem request_pipeline_verdict:
  assumes "run_request_pipeline R plugins ctx (Some p) w = Inr (r, t_pool, w')"
  shows "\<exists>evs m m' vm rest. pipeline_run R plugins ctx m evs (pl_ctx r) m' \<and>
    vp_available p = vm # rest \<and> (\<exists>g. um_find (vp_all p) vm = Some g \<and> m = (sandbox_reset g, w)) \<and> snd m' = w' \<and>
    (\<exists>p'. t_pool = Some p' \<and> vp_available p' = rest @ [vm]) \<and>
    pl_passed r = (\<forall>(resp, ab) \<in> set evs. resp = [] \<and> \<not> ab) \<and>
    (\<forall>ev \<in> set (butlast evs). \<not> snd ev) \<and>
    (pl_abort_status r, pl_abort_body r) =
      (case concat (map fst evs) of [] \<Rightarrow> (200, []) | resps \<Rightarrow> (int32 (fst (last resps)), snd (last resps))) \<and>
    pc_user_ip (pl_ctx r) = pc_user_ip ctx \<and> pc_api_key (pl_ctx r) = pc_api_key ctx \<and>
    pc_request_id (pl_ctx r) = pc_request_id ctx"
proof -
  let ?r0 = "\<lparr>pl_passed = True, pl_ctx = ctx, pl_abort_status = 200, pl_abort_body = []\<rparr>"
  obtain vm rest g m' where vm: "vp_available p = vm # rest" "um_find (vp_all p) vm = Some g"
      "request_loop R plugins ?r0 (sandbox_reset g, w) = Inr (r, m')" "snd m' = w'"
      "\<exists>p'. t_pool = Some p' \<and> vp_available p' = rest @ [vm]"
    using with_vm_pool[OF assms[unfolded run_request_pipeline_def]] by blast
  obtain evs c' where run: "pipeline_run R plugins ctx (sandbox_reset g, w) evs c' m'" "r = verdict evs ?r0 c'"
    using request_loop_run[OF vm(3)] by auto
  have resp: "(pl_abort_status (fold set_response rs x), pl_abort_body (fold set_response rs x)) =
      (case rs of [] \<Rightarrow> (pl_abort_status x, pl_abort_body x) | _ \<Rightarrow> (int32 (fst (last rs)), snd (last rs)))" for rs x
    by (induction rs arbitrary: x) (auto simp: set_response_def split: list.split)
  define rs where "rs = concat (map fst evs)"
  have "(pl_abort_status r, pl_abort_body r) =
      (case rs of [] \<Rightarrow> (200, []) | resps \<Rightarrow> (int32 (fst (last resps)), snd (last resps)))"
    unfolding run(2) verdict_def rs_def[symmetric] using resp[of rs ?r0] by (cases rs) simp_all
  moreover have "pl_ctx r = c'" "pl_passed r = (\<forall>(resp, ab) \<in> set evs. resp = [] \<and> \<not> ab)"
    by (simp_all add: run(2) verdict_def)
  ultimately show ?thesis
    unfolding rs_def using vm run(1) pipeline_run_meta[OF run(1)] pipeline_run_abort_last[OF run(1)]
    by (intro exI[of _ evs] exI[of _ "(sandbox_reset g, w)"] exI[of _ m'] exI[of _ vm] exI[of _ rest]) simp
qed

definition demo_ctx :: plugin_context where
  "demo_ctx = \<lparr>pc_model = ''m'', pc_messages_json = ''[]'', pc_temperature = 1, pc_max_tokens = 9, pc_user_ip = ''ip'',
     pc_api_key = ''k'', pc_request_id = 1, pc_abort_status = 200, pc_abort_body = [], pc_aborted = False\<rparr>"

lemma field_ctx:
  "field (make_lua_ctx c) ''model'' = LStr (pc_model c)"
  "field (make_lua_ctx c) ''messages_json'' = LStr (pc_messages_json c)"
  "field (make_lua_ctx c) ''temperature'' = LNum (pc_temperature c)"
  "field (make_lua_ctx c) ''max_tokens'' = LInt (pc_max_tokens c)"
  by (simp_all add: field_def make_lua_ctx_def um_find_def)

lemma demo_loop:
  "request_loop demo_rt [plugin_of demo_rt f ''on_request'' [(''on_request'', LFun)] 0] r (g, ()) =
     Inr ((set_response (403, ''no'') r)\<lparr>pl_ctx := (pl_ctx r)\<lparr>pc_max_tokens := int32 (pc_max_tokens (pl_ctx r))\<rparr>\<rparr>,
       (um_set ''on_request'' LFun g, ()))"
proof -
  let ?p = "plugin_of demo_rt f ''on_request'' [(''on_request'', LFun)] 0"
  have p: "pi_enabled (pr_info ?p)" "pr_has_on_request ?p" "pr_script_body ?p = ''on_request''"
    by (simp_all add: plugin_of_def demo_rt_def um_find_def)
  show ?thesis
    by (simp add: request_hook_def p) (simp add: demo_rt_def plain_conv_def result_string_def sync_ctx_def
        get_or_int_def get_or_str_def get_or_double_def field_ctx set_response_def)
qed

theorem request_pipeline_verdict_witness:
  "\<exists>r t_pool. run_request_pipeline demo_rt [plugin_of demo_rt ''p/a.lua'' ''on_request'' [(''on_request'', LFun)] 0] demo_ctx
       (Some (pool_new (Suc 0) [] LTable)) () = Inr (r, t_pool, ()) \<and> \<not> pl_passed r \<and> pc_user_ip (pl_ctx r) = ''ip''"
proof -
  let ?ps = "[plugin_of demo_rt ''p/a.lua'' ''on_request'' [(''on_request'', LFun)] 0]"
  have pool: "vp_available (pool_new (Suc 0) [] LTable) = [0]"
      "um_find (vp_all (pool_new (Suc 0) [] LTable)) 0 = Some (sandbox_create [] LTable)"
    by (simp_all add: pool_new_def)
  obtain r t_pool w where run: "run_request_pipeline demo_rt ?ps demo_ctx (Some (pool_new (Suc 0) [] LTable)) () = Inr (r, t_pool, w)"
      and rej: "\<not> pl_passed r"
    by (simp add: run_request_pipeline_def with_vm_def borrow_vm_def pool_borrow_def pool demo_loop
        del: request_loop.simps)
  show ?thesis using run rej request_pipeline_verdict[OF run] by (intro exI[of _ r] exI[of _ t_pool]) (auto simp: demo_ctx_def)
qed

end
