(* ===== verification/Hot_Reload.thy ===== *)
theory Hot_Reload
  imports Plugin_Loader
begin

text \<open>
  The thread that watches the plugin directory (\<open>PluginManager::hot_reload_loop\<close>, \<open>src/plugin_manager.cpp\<close>)
  down to the bytes it reads. The kernel fills the buffer with records of \<open>struct inotify_event\<close>: watch
  descriptor, mask and cookie (four bytes each, not looked at), a 32-bit length in the byte order of the
  machine (little-endian), and that many bytes of name, padded with zero bytes. The results of \<open>read\<close> and
  the value of \<open>watching_\<close> at each turn are inputs, because another thread and the kernel decide them.
\<close>

section \<open>Model\<close>

definition kReloadBuf :: nat where "kReloadBuf = 4096"

text \<open>\<open>sizeof(struct inotify_event)\<close>, and the field \<open>len\<close> of the record at an offset.\<close>

definition event_size :: nat where "event_size = 16"

definition event_len :: "string \<Rightarrow> nat \<Rightarrow> nat" where
  "event_len buf offset =
     of_char (buf ! (offset + 12)) + 256 * of_char (buf ! (offset + 13)) +
     65536 * of_char (buf ! (offset + 14)) + 16777216 * of_char (buf ! (offset + 15))"

text \<open>\<open>std::string filename(event->name)\<close> reads up to the next zero byte, wherever it is.\<close>

definition c_string :: "string \<Rightarrow> nat \<Rightarrow> string result" where
  "c_string buf p =
     (if CHR 0x00 \<in> set (drop p buf) then Inr (takeWhile (\<lambda>c. c \<noteq> CHR 0x00) (drop p buf)) else Inl UB)"

text \<open>The inner loop. Loading a plugin reads its file at that moment, so the files are a function of the
  number of the record in the buffer. A record that sticks out of the buffer would be read out of bounds.\<close>

function scan_events ::
  "(plugin_runtime list \<Rightarrow> plugin_runtime list) \<Rightarrow> ('v, 'w) lua_rt \<Rightarrow> (nat \<Rightarrow> files) \<Rightarrow> string \<Rightarrow> nat \<Rightarrow> nat \<Rightarrow> nat \<Rightarrow>
     plugin_manager \<times> 'w \<Rightarrow> (plugin_manager \<times> 'w) result" where
  "scan_events std_sort R fsat buf n offset i st =
     (if n \<le> offset then Inr st
      else if length buf < offset + event_size then Inl UB
      else let len = event_len buf offset in
        bindE (if 0 < len
               then bindE (c_string buf (offset + event_size)) (\<lambda>filename.
                      hot_reload_event std_sort R (fsat i, Some filename) st)
               else Inr st)
          (\<lambda>st. scan_events std_sort R fsat buf n (offset + (event_size + len)) (Suc i) st))"
  by pat_completeness auto
termination
  by (relation "measure (\<lambda>(_, _, _, _, n, offset, _). n - offset)") (auto simp: event_size_def)

declare scan_events.simps [simp del]

text \<open>What \<open>read\<close> returns: bytes, \<open>EAGAIN\<close>, or another error.\<close>

datatype read_result = Got string "nat \<Rightarrow> files" | Would_Block | Read_Failed

fun hot_reload_loop ::
  "(plugin_runtime list \<Rightarrow> plugin_runtime list) \<Rightarrow> ('v, 'w) lua_rt \<Rightarrow> (bool \<times> read_result) list \<Rightarrow> string \<Rightarrow>
     plugin_manager \<times> 'w \<Rightarrow> (plugin_manager \<times> 'w) result" where
  "hot_reload_loop std_sort R [] buf st = Inr st"
| "hot_reload_loop std_sort R ((watching, r) # rs) buf st =
     (if \<not> watching then Inr st
      else case r of
        Would_Block \<Rightarrow> hot_reload_loop std_sort R rs buf st
      | Read_Failed \<Rightarrow> Inr st
      | Got bytes fsat \<Rightarrow>
          let buf = bytes @ drop (length bytes) buf in
          bindE (scan_events std_sort R fsat buf (length bytes) 0 0 st) (hot_reload_loop std_sort R rs buf))"

section \<open>What the kernel writes\<close>

record inotify_event =
  ie_head :: string                 \<comment> \<open>\<open>wd\<close>, \<open>mask\<close> and \<open>cookie\<close>\<close>
  ie_name :: "string option"
  ie_padding :: nat                 \<comment> \<open>zero bytes after the one that ends the name\<close>

definition name_bytes :: "inotify_event \<Rightarrow> string" where
  "name_bytes e = (case ie_name e of None \<Rightarrow> [] | Some name \<Rightarrow> name @ CHR 0x00 # replicate (ie_padding e) (CHR 0x00))"

definition le32 :: "nat \<Rightarrow> string" where
  "le32 n = [char_of n, char_of (n div 256), char_of (n div 65536), char_of (n div 16777216)]"

definition event_bytes :: "inotify_event \<Rightarrow> string" where
  "event_bytes e = ie_head e @ le32 (length (name_bytes e)) @ name_bytes e"

definition event_ok :: "inotify_event \<Rightarrow> bool" where
  "event_ok e \<longleftrightarrow> length (ie_head e) = 12 \<and> length (name_bytes e) < 2 ^ 32 \<and>
     (\<forall>name. ie_name e = Some name \<longrightarrow> CHR 0x00 \<notin> set name)"

definition batch_bytes :: "inotify_event list \<Rightarrow> string" where
  "batch_bytes evs = concat (map event_bytes evs)"

definition batch_ok :: "inotify_event list \<Rightarrow> bool" where
  "batch_ok evs \<longleftrightarrow> (\<forall>e \<in> set evs. event_ok e) \<and> length (batch_bytes evs) \<le> kReloadBuf"

text \<open>The records with the files at the time each is handled.\<close>

definition batch_events :: "(nat \<Rightarrow> files) \<Rightarrow> nat \<Rightarrow> inotify_event list \<Rightarrow> (files \<times> string option) list" where
  "batch_events fsat i evs = map (\<lambda>(j, e). (fsat j, ie_name e)) (enumerate i evs)"

section \<open>Reading a batch back\<close>

lemma batch_events_simps [simp]:
  "batch_events fsat i [] = []" "batch_events fsat i (e # evs) = (fsat i, ie_name e) # batch_events fsat (Suc i) evs"
  by (simp_all add: batch_events_def)

lemma le32_value:
  assumes "n < 2 ^ 32"
  shows "n mod 256 + 256 * (n div 256 mod 256) + 65536 * (n div 65536 mod 256) + 16777216 * (n div 16777216 mod 256) = (n :: nat)"
proof -
  let ?a = "n div 256"
  let ?b = "?a div 256"
  have d: "n div 65536 = ?b" "n div 16777216 = ?b div 256" by (simp_all add: div_mult2_eq[symmetric])
  have "?b div 256 < 256" using assms by (simp add: div_mult2_eq[symmetric] less_mult_imp_div_less)
  then have "?b div 256 mod 256 = ?b div 256" by simp
  then show ?thesis
    unfolding d using mult_div_mod_eq[of 256 n] mult_div_mod_eq[of 256 ?a] mult_div_mod_eq[of 256 ?b] by linarith
qed

lemma event_len_bytes:
  assumes "event_ok e"
  shows "event_len (pre @ event_bytes e @ post) (length pre) = length (name_bytes e)"
proof -
  let ?n = "length (name_bytes e)"
  have at: "(pre @ event_bytes e @ post) ! (length pre + (12 + k)) = le32 ?n ! k" if "k < 4" for k
  proof -
    have "length (le32 ?n) = 4" by (simp add: le32_def)
    then show ?thesis using assms that by (simp add: event_bytes_def nth_append event_ok_def)
  qed
  have "(pre @ event_bytes e @ post) ! (length pre + 12) = char_of ?n"
      "(pre @ event_bytes e @ post) ! (length pre + 13) = char_of (?n div 256)"
      "(pre @ event_bytes e @ post) ! (length pre + 14) = char_of (?n div 65536)"
      "(pre @ event_bytes e @ post) ! (length pre + 15) = char_of (?n div 16777216)"
    using at[of 0] at[of 1] at[of 2] at[of 3] by (simp_all add: le32_def)
  then show ?thesis using le32_value[of ?n] assms by (simp add: event_len_def event_ok_def)
qed

lemma c_string_bytes:
  assumes "event_ok e" "ie_name e = Some name"
  shows "c_string (pre @ event_bytes e @ post) (length pre + event_size) = Inr name"
proof -
  have "drop (length pre + event_size) (pre @ event_bytes e @ post) = name_bytes e @ post"
    using assms(1) by (simp add: event_bytes_def le32_def event_ok_def event_size_def)
  moreover have "takeWhile (\<lambda>c. c \<noteq> CHR 0x00) (name @ CHR 0x00 # zs) = name" for zs
    using assms by (subst takeWhile_append2) (auto simp: event_ok_def)
  ultimately show ?thesis using assms(2) by (simp add: c_string_def name_bytes_def)
qed

lemma scan_batch:
  assumes "\<forall>e \<in> set evs. event_ok e"
  shows "scan_events srt R fsat (pre @ batch_bytes evs @ post) (length pre + length (batch_bytes evs)) (length pre) i st =
    foldE (hot_reload_event srt R) (batch_events fsat i evs) st"
  using assms
proof (induction evs arbitrary: pre i st)
  case Nil
  then show ?case by (simp add: scan_events.simps batch_bytes_def)
next
  case (Cons e evs)
  have e: "event_ok e" using Cons.prems by simp
  let ?buf = "pre @ batch_bytes (e # evs) @ post"
  have buf: "?buf = pre @ event_bytes e @ (batch_bytes evs @ post)" "?buf = (pre @ event_bytes e) @ batch_bytes evs @ post"
    by (simp_all add: batch_bytes_def)
  have size: "length (event_bytes e) = event_size + length (name_bytes e)"
    using e by (simp add: event_bytes_def le32_def event_ok_def event_size_def)
  have len: "event_len ?buf (length pre) = length (name_bytes e)" unfolding buf(1) by (rule event_len_bytes[OF e])
  have one: "(if 0 < length (name_bytes e) then bindE (c_string ?buf (length pre + event_size)) (\<lambda>filename.
        hot_reload_event srt R (fsat i, Some filename) st) else Inr st) = hot_reload_event srt R (fsat i, ie_name e) st"
  proof (cases "ie_name e")
    case None
    then show ?thesis by (cases st) (simp add: name_bytes_def hot_reload_event_def)
  next
    case (Some name)
    then show ?thesis using c_string_bytes[OF e Some] unfolding buf(1) by (simp add: name_bytes_def)
  qed
  have ih: "scan_events srt R fsat ?buf (length pre + length (batch_bytes (e # evs))) (length pre + (event_size + length (name_bytes e)))
      (Suc i) st' = foldE (hot_reload_event srt R) (batch_events fsat (Suc i) evs) st'" for st'
    using Cons.IH[of "pre @ event_bytes e" "Suc i" st'] Cons.prems by (simp add: batch_bytes_def size add.assoc)
  have "length (batch_bytes (e # evs)) = event_size + length (name_bytes e) + length (batch_bytes evs)"
    by (simp add: batch_bytes_def size)
  then have in_range: "\<not> length pre + length (batch_bytes (e # evs)) \<le> length pre" "\<not> length ?buf < length pre + event_size"
    by (simp_all add: event_size_def)
  show ?case
    by (subst scan_events.simps) (simp only: in_range if_False Let_def len one ih[THEN ext] batch_events_simps foldE.simps)
qed

section \<open>The watcher\<close>

text \<open>A sequence of reads: batches of records, and polls that find nothing (\<open>None\<close>).\<close>

definition reads_of :: "(inotify_event list \<times> (nat \<Rightarrow> files)) option list \<Rightarrow> (bool \<times> read_result) list" where
  "reads_of bs = map (\<lambda>b. (True, case b of None \<Rightarrow> Would_Block | Some (evs, fsat) \<Rightarrow> Got (batch_bytes evs) fsat)) bs"

definition events_of :: "(inotify_event list \<times> (nat \<Rightarrow> files)) option list \<Rightarrow> (files \<times> string option) list" where
  "events_of bs = concat (map (\<lambda>b. case b of None \<Rightarrow> [] | Some (evs, fsat) \<Rightarrow> batch_events fsat 0 evs) bs)"

lemma loop_batches:
  assumes "length buf = kReloadBuf" "\<forall>evs fsat. Some (evs, fsat) \<in> set bs \<longrightarrow> batch_ok evs"
  shows "hot_reload_loop srt R (reads_of bs @ (False, r) # rs) buf st = foldE (hot_reload_event srt R) (events_of bs) st"
  using assms
proof (induction bs arbitrary: buf st)
  case Nil
  then show ?case by (simp add: reads_of_def events_of_def)
next
  case (Cons b bs)
  have bs: "\<forall>evs fsat. Some (evs, fsat) \<in> set bs \<longrightarrow> batch_ok evs" using Cons.prems(2) by simp
  show ?case
  proof (cases b)
    case None
    then show ?thesis using Cons.IH[OF Cons.prems(1) bs] by (simp add: reads_of_def events_of_def)
  next
    case (Some a)
    obtain evs fsat where b: "b = Some (evs, fsat)" using Some by (cases a) simp
    then have ok: "\<forall>e \<in> set evs. event_ok e" "length (batch_bytes evs) \<le> kReloadBuf"
      using Cons.prems(2) by (simp_all add: batch_ok_def)
    let ?buf = "batch_bytes evs @ drop (length (batch_bytes evs)) buf"
    have len: "length ?buf = kReloadBuf" using ok(2) Cons.prems(1) by simp
    have scan: "scan_events srt R fsat ?buf (length (batch_bytes evs)) 0 0 st = foldE (hot_reload_event srt R) (batch_events fsat 0 evs) st"
      using scan_batch[OF ok(1), of srt R fsat "[]" "drop (length (batch_bytes evs)) buf" 0 st] by simp
    have reads: "reads_of (b # bs) = (True, Got (batch_bytes evs) fsat) # reads_of bs" using b by (simp add: reads_of_def)
    have events: "events_of (b # bs) = batch_events fsat 0 evs @ events_of bs" using b by (simp add: events_of_def)
    show ?thesis
      unfolding reads events foldE_append
      by (simp add: Let_def scan) (intro arg_cong2[where f = bindE] refl ext Cons.IH[OF len bs])
  qed
qed

text \<open>C20. The watcher loses, repeats and misreads no event. However the kernel groups the directory's events
  into reads, and however often the thread finds nothing to read in between, the loop does what handling
  the events one after the other does, each with the files of its moment: an event whose name ends in
  \<open>.lua\<close> reloads the file of that name, any other changes nothing. What the buffer held before does not
  matter. A request to stop ends the loop at the next turn, and after any such run the plugin
  list is still in order of priority, has each file once and only enabled plugins.\<close>

theorem hot_reload_batches:
  assumes "length buf = kReloadBuf" "\<forall>evs fsat. Some (evs, fsat) \<in> set bs \<longrightarrow> batch_ok evs"
  shows "hot_reload_loop srt R (reads_of bs @ (False, r) # rs) buf (pm, w) =
      foldE (hot_reload_event srt R) (events_of bs) (pm, w) \<and>
    (\<forall>pm' w'. sorts srt \<and> plugins_ok (pm_plugins pm) \<and>
       hot_reload_loop srt R (reads_of bs @ (False, r) # rs) buf (pm, w) = Inr (pm', w') \<longrightarrow> plugins_ok (pm_plugins pm'))"
  unfolding loop_batches[OF assms] by (auto dest: hot_reload_ok)

definition demo_event :: inotify_event where
  "demo_event = \<lparr>ie_head = replicate 12 (CHR 0x01), ie_name = Some ''a.lua'', ie_padding = 10\<rparr>"

theorem hot_reload_batches_witness:
  "\<exists>pm. hot_reload_loop (sort_key (\<lambda>p. - pi_priority (pr_info p))) demo_rt
      (reads_of [None, Some ([demo_event, demo_event], \<lambda>_. demo_files)] @ [(False, Would_Block)])
      (replicate kReloadBuf (CHR 0x41))
      (\<lparr>pm_dir = ''p'', pm_pool_size = 1, pm_plugins = [], pm_watching = True\<rparr>, ()) = Inr (pm, ()) \<and>
    map plugin_path (pm_plugins pm) = [''p/a.lua'']"
proof -
  have "batch_ok [demo_event, demo_event]"
    by (simp add: batch_ok_def batch_bytes_def event_bytes_def event_ok_def le32_def name_bytes_def demo_event_def kReloadBuf_def)
  then have ok: "\<forall>evs fsat. Some (evs, fsat) \<in> set [None, Some ([demo_event, demo_event], \<lambda>_. demo_files)] \<longrightarrow> batch_ok evs"
    by simp
  let ?srt = "sort_key (\<lambda>p. - pi_priority (pr_info p))"
  let ?pm = "\<lparr>pm_dir = ''p'', pm_pool_size = 1, pm_plugins = [], pm_watching = True\<rparr>"
  have len: "length (replicate kReloadBuf (CHR 0x41)) = kReloadBuf" by simp
  have "events_of [None, Some ([demo_event, demo_event], \<lambda>_. demo_files)] = [(demo_files, Some ''a.lua''), (demo_files, Some ''a.lua'')]"
    by (simp add: events_of_def demo_event_def)
  moreover have "\<exists>pm. foldE (hot_reload_event ?srt demo_rt) [(demo_files, Some ''a.lua''), (demo_files, Some ''a.lua'')] (?pm, ()) =
      Inr (pm, ()) \<and> map plugin_path (pm_plugins pm) = [''p/a.lua'']"
    by (simp add: hot_reload_event_def reload_plugin_def load_plugin_def unload_plugin_def demo_files_def read_file_def
        plugin_of_def demo_rt_def um_set_def get_or_int_def plain_conv_def um_find_def plugin_path_def)
  ultimately show ?thesis
    using hot_reload_batches[OF len ok, of ?srt demo_rt Would_Block "[]" ?pm "()"] by simp
qed

end
