(* ===== verification/Lua_Stack.thy ===== *)
theory Lua_Stack
  imports Lua_Api Lua_VM_Pool
begin

text \<open>
  The binding \<open>third_party/sol/sol.hpp\<close> one level down: what each of its operations does to the stack of the
  Lua state and to the references it keeps in the registry. The C API of Lua is a parameter. Its manual
  gives for every function how many values it pops and pushes; \<open>capi_laws\<close> says no more than that, and
  that a reference is taken and freed by \<open>luaL_ref\<close> and \<open>luaL_unref\<close> alone. The hooks of
  \<open>src/plugin_manager.cpp\<close> are followed as sequences of these operations.
\<close>

section \<open>The C API\<close>

datatype lua_call =
    PushValue nat | PushConst lua_value | PushLight | PushCClosure nat | NewTable | PushGlobals | Pop nat
  | GetField string | SetField string | SetGlobal string | SetMetatable | RawGetRef int | Unref int

text \<open>The manual's \<open>[-o, +p]\<close>.\<close>

definition call_effect :: "lua_call \<Rightarrow> nat \<times> nat" where
  "call_effect c =
     (case c of
        PushValue _ \<Rightarrow> (0, 1) | PushConst _ \<Rightarrow> (0, 1) | PushLight \<Rightarrow> (0, 1) | PushCClosure n \<Rightarrow> (n, 1)
      | NewTable \<Rightarrow> (0, 1) | PushGlobals \<Rightarrow> (0, 1) | Pop n \<Rightarrow> (n, 0) | GetField _ \<Rightarrow> (0, 1) | SetField _ \<Rightarrow> (1, 0)
      | SetGlobal _ \<Rightarrow> (1, 0) | SetMetatable \<Rightarrow> (1, 0) | RawGetRef _ \<Rightarrow> (0, 1) | Unref _ \<Rightarrow> (0, 0))"

record 's lua_capi =
  la_top :: "'s \<Rightarrow> nat"                                   \<comment> \<open>\<open>lua_gettop\<close>\<close>
  la_index :: "nat \<Rightarrow> 's \<Rightarrow> lua_value"                    \<comment> \<open>the value at index \<open>-1-n\<close>\<close>
  la_refs :: "'s \<Rightarrow> int set"                              \<comment> \<open>the references in use\<close>
  la_do :: "lua_call \<Rightarrow> 's \<Rightarrow> 's"
  la_ref :: "'s \<Rightarrow> int \<times> 's"                              \<comment> \<open>\<open>luaL_ref\<close>\<close>
  la_loadstring :: "string \<Rightarrow> 's \<Rightarrow> bool \<times> 's"
  la_pcall :: "nat \<Rightarrow> nat option \<Rightarrow> 's \<Rightarrow> bool \<times> 's"       \<comment> \<open>\<open>None\<close> is \<open>LUA_MULTRET\<close>\<close>
  la_next :: "'s \<Rightarrow> bool \<times> 's"
  la_more :: "'s \<Rightarrow> nat"                                  \<comment> \<open>fields a traversal at the top has yet to give\<close>

definition refnil :: int where "refnil = -1"

definition effect_law :: "'s lua_capi \<Rightarrow> bool" where
  "effect_law A \<longleftrightarrow> (\<forall>c s. fst (call_effect c) \<le> la_top A s \<longrightarrow>
     la_top A (la_do A c s) = la_top A s - fst (call_effect c) + snd (call_effect c) \<and>
     la_refs A (la_do A c s) = (case c of Unref r \<Rightarrow> la_refs A s - {r} | _ \<Rightarrow> la_refs A s))"

definition ref_law :: "'s lua_capi \<Rightarrow> bool" where
  "ref_law A \<longleftrightarrow> (\<forall>s r s'. refnil \<notin> la_refs A s \<and> (0 < la_top A s \<and> la_ref A s = (r, s') \<longrightarrow>
     la_top A s' = la_top A s - 1 \<and>
     (if la_index A 0 s = LNil then r = refnil \<and> la_refs A s' = la_refs A s
      else r \<notin> la_refs A s \<and> la_refs A s' = insert r (la_refs A s))))"

definition load_law :: "'s lua_capi \<Rightarrow> bool" where
  "load_law A \<longleftrightarrow> (\<forall>code s ok s'. la_loadstring A code s = (ok, s') \<longrightarrow>
     la_top A s' = la_top A s + 1 \<and> la_refs A s' = la_refs A s)"

definition call_law :: "'s lua_capi \<Rightarrow> bool" where
  "call_law A \<longleftrightarrow> (\<forall>n res s ok s'. n < la_top A s \<and> la_pcall A n res s = (ok, s') \<longrightarrow> la_refs A s' = la_refs A s \<and>
     (if \<not> ok then la_top A s' = la_top A s - n
      else case res of Some m \<Rightarrow> la_top A s' = la_top A s - Suc n + m | None \<Rightarrow> la_top A s - Suc n \<le> la_top A s'))"

definition next_law :: "'s lua_capi \<Rightarrow> bool" where
  "next_law A \<longleftrightarrow> (\<forall>s again s'. 2 \<le> la_top A s \<and> la_next A s = (again, s') \<longrightarrow> la_refs A s' = la_refs A s \<and>
     (if again then la_top A s' = la_top A s + 1 \<and> la_more A (la_do A (Pop 1) s') < la_more A s
      else la_top A s' = la_top A s - 1))"

definition capi_laws :: "'s lua_capi \<Rightarrow> bool" where
  "capi_laws A \<longleftrightarrow> effect_law A \<and> ref_law A \<and> load_law A \<and> call_law A \<and> next_law A"

section \<open>References\<close>

text \<open>A \<open>sol::reference\<close> is the number \<open>luaL_ref\<close> gave it; \<open>idx\<close> is an absolute index.\<close>

definition reference_new :: "'s lua_capi \<Rightarrow> nat \<Rightarrow> 's \<Rightarrow> int \<times> 's" where
  "reference_new A idx s = la_ref A (la_do A (PushValue idx) s)"

definition reference_copy :: "'s lua_capi \<Rightarrow> int \<Rightarrow> 's \<Rightarrow> int \<times> 's" where
  "reference_copy A r s = la_ref A (la_do A (RawGetRef r) s)"

definition reference_free :: "'s lua_capi \<Rightarrow> int \<Rightarrow> 's \<Rightarrow> 's" where
  "reference_free A r s = la_do A (Unref r) s"

definition reference_type :: "'s lua_capi \<Rightarrow> int \<Rightarrow> 's \<Rightarrow> lua_value \<times> 's" where
  "reference_type A r s = (let s = la_do A (RawGetRef r) s in (la_index A 0 s, la_do A (Pop 1) s))"

section \<open>Tables\<close>

definition table_create :: "'s lua_capi \<Rightarrow> 's \<Rightarrow> int \<times> 's" where
  "table_create A s = (let s = la_do A NewTable s in reference_new A (la_top A s) s)"

definition state_globals :: "'s lua_capi \<Rightarrow> 's \<Rightarrow> int \<times> 's" where
  "state_globals A s = (let s = la_do A PushGlobals s in reference_new A (la_top A s) s)"

definition create_named_table :: "'s lua_capi \<Rightarrow> string \<Rightarrow> 's \<Rightarrow> int \<times> 's" where
  "create_named_table A name s =
     (let s = la_do A NewTable s; s = la_do A (PushValue (la_top A s)) s; s = la_do A (SetGlobal name) s in
      reference_new A (la_top A s) s)"

definition table_get :: "'s lua_capi \<Rightarrow> int \<Rightarrow> string \<Rightarrow> 's \<Rightarrow> lua_value \<times> 's" where
  "table_get A t key s =
     (let s = la_do A (GetField key) (la_do A (RawGetRef t) s) in (la_index A 0 s, la_do A (Pop 2) s))"

definition state_get :: "'s lua_capi \<Rightarrow> string \<Rightarrow> 's \<Rightarrow> lua_value \<times> 's" where
  "state_get A name s =
     (case state_globals A s of (g, s) \<Rightarrow> case table_get A g name s of (v, s) \<Rightarrow> (v, reference_free A g s))"

definition table_set :: "'s lua_capi \<Rightarrow> int \<Rightarrow> string \<Rightarrow> lua_value \<Rightarrow> 's \<Rightarrow> 's" where
  "table_set A t key v s =
     la_do A (Pop 1) (la_do A (SetField key) (la_do A (PushConst v) (la_do A (RawGetRef t) s)))"

definition table_set_function :: "'s lua_capi \<Rightarrow> int \<Rightarrow> string \<Rightarrow> 's \<Rightarrow> 's" where
  "table_set_function A t name s =
     fold (la_do A) [RawGetRef t, PushLight, PushCClosure 1, NewTable, PushLight, PushCClosure 1,
       SetField ''__gc'', SetMetatable, SetField name, Pop 1] s"

definition table_get_fn :: "'s lua_capi \<Rightarrow> int \<Rightarrow> string \<Rightarrow> 's \<Rightarrow> int \<times> 's" where
  "table_get_fn A t name s =
     (let s = la_do A (GetField name) (la_do A (RawGetRef t) s) in
      case reference_new A (la_top A s) s of (f, s) \<Rightarrow> (f, la_do A (Pop 2) s))"

definition table_empty :: "'s lua_capi \<Rightarrow> int \<Rightarrow> 's \<Rightarrow> bool \<times> 's" where
  "table_empty A t s =
     (case la_next A (la_do A (PushConst LNil) (la_do A (RawGetRef t) s)) of
        (True, s) \<Rightarrow> (False, la_do A (Pop 2) s)
      | (False, s) \<Rightarrow> (True, la_do A (Pop 1) s))"

text \<open>The loop of \<open>for_each\<close>, which the manual forbids for keys that are numbers: \<open>lua_tostring\<close> turns such a
  key into a string on the stack, and the next \<open>lua_next\<close> is lost. The number of fields is enough fuel.\<close>

fun walk_fields :: "'s lua_capi \<Rightarrow> nat \<Rightarrow> string list \<Rightarrow> 's \<Rightarrow> (string list \<times> 's) result" where
  "walk_fields A 0 keys s = Inl UB"
| "walk_fields A (Suc n) keys s =
     (case la_next A s of
        (False, s) \<Rightarrow> Inr (keys, s)
      | (True, s) \<Rightarrow>
          (case la_index A 1 s of
             LInt _ \<Rightarrow> Inl UB
           | LNum _ \<Rightarrow> Inl UB
           | LStr k \<Rightarrow> walk_fields A n (keys @ [k]) (la_do A (Pop 1) s)
           | _ \<Rightarrow> walk_fields A n (keys @ [[]]) (la_do A (Pop 1) s)))"

definition table_for_each :: "'s lua_capi \<Rightarrow> int \<Rightarrow> 's \<Rightarrow> (string list \<times> 's) result" where
  "table_for_each A t s =
     (let s = la_do A (PushConst LNil) (la_do A (RawGetRef t) s) in
      bindE (walk_fields A (Suc (la_more A s)) [] s) (\<lambda>(keys, s). Inr (keys, la_do A (Pop 1) s)))"

section \<open>Scripts and calls\<close>

datatype script_status = Script_Ok | Load_Failed | Run_Failed

definition safe_script :: "'s lua_capi \<Rightarrow> string \<Rightarrow> 's \<Rightarrow> script_status \<times> 's" where
  "safe_script A code s =
     (case la_loadstring A code s of
        (False, s) \<Rightarrow> (Load_Failed, la_do A (Pop 1) s)
      | (True, s) \<Rightarrow> (case la_pcall A 0 None s of (ok, s) \<Rightarrow> (if ok then Script_Ok else Run_Failed, s)))"

text \<open>The three overloads of \<open>operator()\<close> differ in what is pushed as the argument. The message of a failed call is
  read before it is popped: \<open>lua_tostring\<close> is \<open>NULL\<close> unless the error value is a string or a number, the string built
  from it throws, and the value stays.\<close>

datatype call_end = Fn_Ok | Fn_Failed | Fn_Threw

fun has_text :: "lua_value \<Rightarrow> bool" where
  "has_text (LStr _) = True"
| "has_text (LInt _) = True"
| "has_text (LNum _) = True"
| "has_text _ = False"

definition call_fn :: "'s lua_capi \<Rightarrow> int \<Rightarrow> lua_call list \<Rightarrow> 's \<Rightarrow> call_end \<times> 's" where
  "call_fn A f args s =
     (case la_pcall A (length args) (Some 1) (fold (la_do A) args (la_do A (RawGetRef f) s)) of
        (False, s) \<Rightarrow> if has_text (la_index A 0 s) then (Fn_Failed, la_do A (Pop 1) s) else (Fn_Threw, s)
      | (True, s) \<Rightarrow> (Fn_Ok, s))"

definition result_get :: "'s lua_capi \<Rightarrow> 's \<Rightarrow> lua_value \<times> 's" where
  "result_get A s = (la_index A 0 s, la_do A (Pop 1) s)"

section \<open>The hooks\<close>

datatype hook_end = No_Script script_status | No_Function | Hook_Failed call_end | Hook_Gave lua_value

text \<open>What the three pipelines do first: run the script, look the hook up, look at its type. \<open>Inr\<close> is the hook.
  The temporary table of globals dies at the end of its expression.\<close>

definition open_hook :: "'s lua_capi \<Rightarrow> string \<Rightarrow> string \<Rightarrow> 's \<Rightarrow> (hook_end + int) \<times> 's" where
  "open_hook A name code s =
     (case safe_script A code s of
        (Script_Ok, s) \<Rightarrow>
          (case state_globals A s of (g, s) \<Rightarrow>
           case table_get_fn A g name s of (f, s) \<Rightarrow>
           case reference_type A f (reference_free A g s) of (t, s) \<Rightarrow>
             if t \<noteq> LFun then (Inl No_Function, reference_free A f s) else (Inr f, s))
      | (st, s) \<Rightarrow> (Inl (No_Script st), s))"

definition request_hook_stack :: "'s lua_capi \<Rightarrow> (string \<times> lua_value) list \<Rightarrow> string \<Rightarrow> 's \<Rightarrow> hook_end \<times> 's" where
  "request_hook_stack A ctx code s =
     (case open_hook A ''on_request'' code s of
        (Inl e, s) \<Rightarrow> (e, s)
      | (Inr f, s) \<Rightarrow>
          (case table_create A s of (t, s) \<Rightarrow>
           let s = fold (\<lambda>(k, v). table_set A t k v) ctx s;
               s = table_set_function A t ''contains_sensitive'' (table_set_function A t ''set_response'' s) in
           case call_fn A f [RawGetRef t] s of
             (Fn_Ok, s) \<Rightarrow>
               (case result_get A s of (v, s) \<Rightarrow>
                let s = fold (\<lambda>k s. snd (table_get A t k s)) [''model'', ''messages_json'', ''temperature'', ''max_tokens''] s in
                (Hook_Gave v, reference_free A f (reference_free A t s)))
           | (r, s) \<Rightarrow> (Hook_Failed r, reference_free A f (reference_free A t s))))"

text \<open>Only a string is taken off the stack.\<close>

definition token_hook_stack :: "'s lua_capi \<Rightarrow> string \<Rightarrow> string \<Rightarrow> 's \<Rightarrow> hook_end \<times> 's" where
  "token_hook_stack A token code s =
     (case open_hook A ''on_token'' code s of
        (Inl e, s) \<Rightarrow> (e, s)
      | (Inr f, s) \<Rightarrow>
          (case call_fn A f [PushConst (LStr token)] s of
             (Fn_Ok, s) \<Rightarrow>
               (case la_index A 0 s of
                  LStr r \<Rightarrow> (Hook_Gave (LStr r), reference_free A f (snd (result_get A s)))
                | v \<Rightarrow> (Hook_Gave v, reference_free A f s))
           | (r, s) \<Rightarrow> (Hook_Failed r, reference_free A f s)))"

definition done_hook_stack :: "'s lua_capi \<Rightarrow> string \<Rightarrow> 's \<Rightarrow> hook_end \<times> 's" where
  "done_hook_stack A code s =
     (case open_hook A ''on_done'' code s of
        (Inl e, s) \<Rightarrow> (e, s)
      | (Inr f, s) \<Rightarrow>
          (case call_fn A f [] s of
             (Fn_Ok, s) \<Rightarrow> (Hook_Gave (la_index A 0 s), reference_free A f s)
           | (r, s) \<Rightarrow> (Hook_Failed r, reference_free A f s)))"

text \<open>\<open>LuaSandbox::reset\<close>, which \<open>borrow\<close> runs on every machine it hands out.\<close>

definition reset_stack :: "'s lua_capi \<Rightarrow> string list \<Rightarrow> 's \<Rightarrow> 's result" where
  "reset_stack A keep s =
     (case state_globals A s of (g, s) \<Rightarrow>
        bindE (table_for_each A g s) (\<lambda>(keys, s).
          Inr (reference_free A g (fold (\<lambda>k. table_set A g k LNil) (filter (\<lambda>k. k \<notin> set keep) keys) s))))"

datatype hook = Request_Hook "(string \<times> lua_value) list" string | Token_Hook string string | Done_Hook string

definition hook_stack :: "'s lua_capi \<Rightarrow> hook \<Rightarrow> 's \<Rightarrow> hook_end \<times> 's" where
  "hook_stack A h s =
     (case h of
        Request_Hook ctx code \<Rightarrow> request_hook_stack A ctx code s
      | Token_Hook token code \<Rightarrow> token_hook_stack A token code s
      | Done_Hook code \<Rightarrow> done_hook_stack A code s)"

text \<open>A machine that is rented again and again: each time it is reset and runs the hooks the pipeline reaches.\<close>

fun hooks_stack :: "'s lua_capi \<Rightarrow> hook list \<Rightarrow> 's \<Rightarrow> 's" where
  "hooks_stack A [] s = s"
| "hooks_stack A (h # hs) s = hooks_stack A hs (snd (hook_stack A h s))"

fun rents_stack :: "'s lua_capi \<Rightarrow> string list \<Rightarrow> hook list list \<Rightarrow> 's \<Rightarrow> 's result" where
  "rents_stack A keep [] s = Inr s"
| "rents_stack A keep (hs # rents) s =
     bindE (reset_stack A keep s) (\<lambda>s. rents_stack A keep rents (hooks_stack A hs s))"

section \<open>The effect of each operation\<close>

text \<open>The stack is higher by \<open>k\<close>, and the registry is as it was.\<close>

definition net :: "'s lua_capi \<Rightarrow> nat \<Rightarrow> 's \<Rightarrow> 's \<Rightarrow> bool" where
  "net A k s s' \<longleftrightarrow> la_top A s' = la_top A s + k \<and> la_refs A s' = la_refs A s"

text \<open>The same for an operation that takes the reference \<open>r\<close>: freeing it later restores the registry.\<close>

definition takes :: "'s lua_capi \<Rightarrow> nat \<Rightarrow> 's \<Rightarrow> int \<times> 's \<Rightarrow> bool" where
  "takes A k s = (\<lambda>(r, s'). la_top A s' = la_top A s + k \<and> r \<notin> la_refs A s \<and>
     (la_refs A s' = la_refs A s \<or> la_refs A s' = insert r (la_refs A s)))"

lemma do_top:
  "capi_laws A \<Longrightarrow> fst (call_effect c) \<le> la_top A s \<Longrightarrow>
     la_top A (la_do A c s) = la_top A s - fst (call_effect c) + snd (call_effect c)"
  unfolding capi_laws_def effect_law_def by blast

lemma do_refs:
  "capi_laws A \<Longrightarrow> fst (call_effect c) \<le> la_top A s \<Longrightarrow>
     la_refs A (la_do A c s) = (case c of Unref r \<Rightarrow> la_refs A s - {r} | _ \<Rightarrow> la_refs A s)"
  unfolding capi_laws_def effect_law_def by blast

lemmas do_effect = do_top do_refs call_effect_def

lemma ref_effect:
  "capi_laws A \<Longrightarrow> 0 < la_top A s \<Longrightarrow> la_ref A s = (r, s') \<Longrightarrow> la_top A s' = la_top A s - 1 \<and> r \<notin> la_refs A s \<and>
     (la_refs A s' = la_refs A s \<or> la_refs A s' = insert r (la_refs A s))"
  unfolding capi_laws_def ref_law_def by (metis (full_types))

lemma reference_new_takes: "capi_laws A \<Longrightarrow> takes A 0 s (reference_new A idx s)"
  using ref_effect[of A "la_do A (PushValue idx) s"]
  by (cases "reference_new A idx s") (auto simp: reference_new_def takes_def do_effect)

lemma reference_copy_takes: "capi_laws A \<Longrightarrow> takes A 0 s (reference_copy A r s)"
  using ref_effect[of A "la_do A (RawGetRef r) s"]
  by (cases "reference_copy A r s") (auto simp: reference_copy_def takes_def do_effect)

lemma reference_free_net: "capi_laws A \<Longrightarrow> la_top A (reference_free A r s) = la_top A s \<and> la_refs A (reference_free A r s) = la_refs A s - {r}"
  by (simp add: reference_free_def do_effect)

lemma reference_type_net: "capi_laws A \<Longrightarrow> reference_type A r s = (t, s') \<Longrightarrow> net A 0 s s'"
  by (auto simp: reference_type_def net_def do_effect Let_def)

lemma takes_after:
  assumes "capi_laws A" "takes A 0 s1 x" "la_top A s1 = la_top A s + k" "la_refs A s1 = la_refs A s"
  shows "takes A k s x"
  using assms by (auto simp: takes_def)

lemma table_create_takes: "capi_laws A \<Longrightarrow> takes A 1 s (table_create A s)"
  unfolding table_create_def Let_def by (rule takes_after[OF _ reference_new_takes]) (simp_all add: do_effect)

lemma state_globals_takes: "capi_laws A \<Longrightarrow> takes A 1 s (state_globals A s)"
  unfolding state_globals_def Let_def by (rule takes_after[OF _ reference_new_takes]) (simp_all add: do_effect)

lemma create_named_table_takes: "capi_laws A \<Longrightarrow> takes A 1 s (create_named_table A name s)"
  unfolding create_named_table_def Let_def by (rule takes_after[OF _ reference_new_takes]) (simp_all add: do_effect)

lemma table_get_net: "capi_laws A \<Longrightarrow> net A 0 s (snd (table_get A t key s))"
  by (simp add: table_get_def net_def do_effect Let_def)

lemma table_set_net: "capi_laws A \<Longrightarrow> net A 0 s (table_set A t key v s)"
  by (simp add: table_set_def net_def do_effect)

lemma table_set_function_net: "capi_laws A \<Longrightarrow> net A 0 s (table_set_function A t name s)"
  by (simp add: table_set_function_def net_def do_effect)

lemma net_trans: "net A i s s1 \<Longrightarrow> net A j s1 s2 \<Longrightarrow> net A (i + j) s s2"
  by (simp add: net_def)

lemma net_fold: "(\<And>x s. net A 0 s (f x s)) \<Longrightarrow> net A 0 s (fold f xs s)"
proof (induction xs arbitrary: s)
  case (Cons x xs)
  show ?case using net_trans[OF Cons.prems[where x = x and s = s] Cons.IH[OF Cons.prems]] by simp
qed (simp add: net_def)

lemma takes_then:
  assumes "capi_laws A" "takes A i s (r, s1)" "net A j s1 s2"
  shows "net A (i + j) s (reference_free A r s2)"
  using assms(2,3) reference_free_net[OF assms(1), of r s2] by (auto simp: takes_def net_def)

lemma takes_swap:
  assumes "capi_laws A" "takes A i s (r, s1)" "takes A j s1 (q, s2)"
  shows "takes A (i + j) s (q, reference_free A r s2)"
  using assms(2,3) reference_free_net[OF assms(1), of r s2] by (auto simp: takes_def)

lemma takes_net:
  assumes "takes A i s (r, s1)" "net A j s1 s2"
  shows "takes A (i + j) s (r, s2)"
  using assms by (auto simp: takes_def net_def)

lemma state_get_net:
  assumes "capi_laws A"
  shows "net A 1 s (snd (state_get A name s))"
proof -
  obtain g s1 where g: "state_globals A s = (g, s1)" by force
  obtain v s2 where v: "table_get A g name s1 = (v, s2)" by force
  have "takes A 1 s (g, s1)" using state_globals_takes[OF assms, of s] g by simp
  moreover have "net A 0 s1 s2" using table_get_net[OF assms, of s1 g name] v by simp
  ultimately have "net A (1 + 0) s (reference_free A g s2)" by (rule takes_then[OF assms])
  then show ?thesis using g v by (simp add: state_get_def)
qed

lemma table_get_fn_takes:
  assumes "capi_laws A"
  shows "takes A 0 s (table_get_fn A t name s)"
proof -
  let ?s = "la_do A (GetField name) (la_do A (RawGetRef t) s)"
  obtain f s1 where f: "reference_new A (la_top A ?s) ?s = (f, s1)" by force
  have "la_top A ?s = la_top A s + 2" "la_refs A ?s = la_refs A s" using assms by (simp_all add: do_effect)
  then have "takes A 2 s (f, s1)" using takes_after[OF assms reference_new_takes[OF assms]] f by metis
  then have "takes A 0 s (f, la_do A (Pop 2) s1)" using assms by (simp add: takes_def do_effect)
  then show ?thesis using f by (simp add: table_get_fn_def Let_def)
qed

lemma pcall_effect:
  "capi_laws A \<Longrightarrow> n < la_top A s \<Longrightarrow> la_pcall A n res s = (ok, s') \<Longrightarrow> la_refs A s' = la_refs A s \<and>
     (if \<not> ok then la_top A s' = la_top A s - n
      else case res of Some m \<Rightarrow> la_top A s' = la_top A s - Suc n + m | None \<Rightarrow> la_top A s - Suc n \<le> la_top A s')"
  unfolding capi_laws_def call_law_def by blast

lemma next_effect:
  "capi_laws A \<Longrightarrow> 2 \<le> la_top A s \<Longrightarrow> la_next A s = (again, s') \<Longrightarrow> la_refs A s' = la_refs A s \<and>
     (if again then la_top A s' = la_top A s + 1 \<and> la_more A (la_do A (Pop 1) s') < la_more A s
      else la_top A s' = la_top A s - 1)"
  unfolding capi_laws_def next_law_def by blast

text \<open>Of a table that is not empty, \<open>empty\<close> leaves the table itself behind.\<close>

lemma table_empty_net:
  assumes "capi_laws A" "table_empty A t s = (none, s')"
  shows "net A (if none then 0 else 1) s s'"
proof -
  let ?s = "la_do A (PushConst LNil) (la_do A (RawGetRef t) s)"
  obtain again s1 where n: "la_next A ?s = (again, s1)" by force
  have "la_top A ?s = la_top A s + 2" "la_refs A ?s = la_refs A s" using assms by (simp_all add: do_effect)
  note top = this and e = next_effect[OF assms(1) _ n, unfolded this]
  show ?thesis
  proof (cases again)
    case True
    then have "none = False" "s' = la_do A (Pop 2) s1" using assms(2) n by (simp_all add: table_empty_def)
    then show ?thesis using e True assms(1) by (simp add: net_def do_effect)
  next
    case False
    then have "none = True" "s' = la_do A (Pop 1) s1" using assms(2) n by (simp_all add: table_empty_def)
    then show ?thesis using e False assms(1) by (simp add: net_def do_effect)
  qed
qed

lemma safe_script_net:
  assumes "capi_laws A" "safe_script A code s = (st, s')"
  shows "la_refs A s' = la_refs A s" "la_top A s \<le> la_top A s'"
    "st = Load_Failed \<Longrightarrow> la_top A s' = la_top A s" "st = Run_Failed \<Longrightarrow> la_top A s' = Suc (la_top A s)"
proof -
  obtain ok s1 where l: "la_loadstring A code s = (ok, s1)" by force
  have l1: "la_top A s1 = la_top A s + 1" "la_refs A s1 = la_refs A s"
    using assms(1) l unfolding capi_laws_def load_law_def by blast+
  obtain ok' s2 where c: "la_pcall A 0 None s1 = (ok', s2)" by force
  have c1: "la_refs A s2 = la_refs A s1 \<and> (if \<not> ok' then la_top A s2 = la_top A s1 - 0 else la_top A s1 - Suc 0 \<le> la_top A s2)"
    using pcall_effect[OF assms(1) _ c] l1(1) by (cases ok') simp_all
  show "la_refs A s' = la_refs A s" "la_top A s \<le> la_top A s'"
    "st = Load_Failed \<Longrightarrow> la_top A s' = la_top A s" "st = Run_Failed \<Longrightarrow> la_top A s' = Suc (la_top A s)"
    using assms l l1 c c1 by (auto simp: safe_script_def do_effect split: bool.splits if_splits)
qed

text \<open>What the script of a hook leaves on the stack.\<close>

definition script_left :: "'s lua_capi \<Rightarrow> string \<Rightarrow> 's \<Rightarrow> nat" where
  "script_left A code s = la_top A (snd (safe_script A code s)) - la_top A s"

lemma open_hook_net:
  assumes "capi_laws A"
  shows "open_hook A name code s = (Inl e, s') \<Longrightarrow>
      net A (script_left A code s + (case e of No_Script _ \<Rightarrow> 0 | _ \<Rightarrow> 1)) s s' \<and> (e = No_Function \<or> (\<exists>st. e = No_Script st))"
    and "open_hook A name code s = (Inr f, s') \<Longrightarrow> takes A (script_left A code s + 1) s (f, s')"
proof -
  obtain st s1 where sc: "safe_script A code s = (st, s1)" by force
  note script = safe_script_net[OF assms sc]
  have left: "net A (script_left A code s) s s1" using script(1,2) sc by (simp add: net_def script_left_def)
  obtain g s2 where g: "state_globals A s1 = (g, s2)" by force
  obtain f' s3 where f: "table_get_fn A g name s2 = (f', s3)" by force
  obtain t s4 where t: "reference_type A f' (reference_free A g s3) = (t, s4)" by force
  have "takes A 1 s1 (g, s2)" using state_globals_takes[OF assms, of s1] g by simp
  moreover have "takes A 0 s2 (f', s3)" using table_get_fn_takes[OF assms, of s2 g name] f by simp
  ultimately have "takes A 1 s1 (f', reference_free A g s3)" using takes_swap[OF assms] by fastforce
  then have held: "takes A 1 s1 (f', s4)" using takes_net reference_type_net[OF assms t] by fastforce
  have from_s: "takes A (script_left A code s + 1) s (f', s4)"
    using held left by (auto simp: takes_def net_def)
  have dropped: "net A (script_left A code s + 1) s (reference_free A f' s4)"
    using takes_then[OF assms from_s, of 0 s4] by (simp add: net_def)
  show "open_hook A name code s = (Inl e, s') \<Longrightarrow>
      net A (script_left A code s + (case e of No_Script _ \<Rightarrow> 0 | _ \<Rightarrow> 1)) s s' \<and> (e = No_Function \<or> (\<exists>st. e = No_Script st))"
    using left dropped sc g f t by (auto simp: open_hook_def split: script_status.splits if_splits)
  show "open_hook A name code s = (Inr f, s') \<Longrightarrow> takes A (script_left A code s + 1) s (f, s')"
    using from_s sc g f t by (auto simp: open_hook_def split: script_status.splits if_splits)
qed

lemma call_fn_net:
  assumes "capi_laws A" "call_fn A f args s = (r, s')" "\<And>c. c \<in> set args \<Longrightarrow> call_effect c = (0, 1)"
    "\<And>c r. c \<in> set args \<Longrightarrow> c \<noteq> Unref r"
  shows "net A (if r = Fn_Failed then 0 else 1) s s'"
proof -
  have "la_top A (fold (la_do A) args s1) = la_top A s1 + length args \<and> la_refs A (fold (la_do A) args s1) = la_refs A s1" for s1
    using assms(3,4)
  proof (induction args arbitrary: s1)
    case (Cons c args)
    have "la_top A (la_do A c s1) = la_top A s1 + 1" "la_refs A (la_do A c s1) = la_refs A s1"
      using Cons.prems(1)[of c] Cons.prems(2)[of c] do_top[OF assms(1), of c s1] do_refs[OF assms(1), of c s1]
      by (auto split: lua_call.splits)
    then show ?case using Cons.IH[of "la_do A c s1"] Cons.prems by simp
  qed simp
  note push = this[of "la_do A (RawGetRef f) s"]
  obtain ok' s2 where c: "la_pcall A (length args) (Some 1) (fold (la_do A) args (la_do A (RawGetRef f) s)) = (ok', s2)" by force
  have top: "la_top A (fold (la_do A) args (la_do A (RawGetRef f) s)) = la_top A s + 1 + length args"
      "la_refs A (fold (la_do A) args (la_do A (RawGetRef f) s)) = la_refs A s"
    using push assms(1) by (simp_all add: do_effect)
  have s2: "la_refs A s2 = la_refs A s" "la_top A s2 = la_top A s + 1"
    using pcall_effect[OF assms(1) _ c] top by (cases ok'; simp)+
  have "s' = (if r = Fn_Failed then la_do A (Pop 1) s2 else s2)"
    using assms(2)[unfolded call_fn_def c] by (cases ok') (auto split: if_splits)
  then show ?thesis using s2 assms(1) by (simp add: net_def do_effect)
qed

section \<open>The effect of a hook\<close>

definition hook_code :: "hook \<Rightarrow> string" where
  "hook_code h = (case h of Request_Hook _ code \<Rightarrow> code | Token_Hook _ code \<Rightarrow> code | Done_Hook code \<Rightarrow> code)"

definition hook_left :: "hook \<Rightarrow> hook_end \<Rightarrow> nat" where
  "hook_left h e =
     (case e of
        No_Script _ \<Rightarrow> 0
      | No_Function \<Rightarrow> 1
      | Hook_Failed r \<Rightarrow> (case h of Request_Hook _ _ \<Rightarrow> 2 | _ \<Rightarrow> 1) + (if r = Fn_Failed then 0 else 1)
      | Hook_Gave v \<Rightarrow> (case h of Token_Hook _ _ \<Rightarrow> (case v of LStr _ \<Rightarrow> 1 | _ \<Rightarrow> 2) | _ \<Rightarrow> 2))"

lemma request_hook_net:
  assumes "capi_laws A" "request_hook_stack A ctx code s = (e, s')"
  shows "net A (script_left A code s + hook_left (Request_Hook ctx code) e) s s'"
proof (cases "open_hook A ''on_request'' code s")
  case (Pair r s1)
  show ?thesis
  proof (cases r)
    case (Inl e')
    then have "e' = e" "s' = s1" using assms(2) Pair by (simp_all add: request_hook_stack_def)
    then show ?thesis using open_hook_net(1)[OF assms(1), of "''on_request''" code s e' s1] Pair Inl
      by (auto simp: hook_left_def split: hook_end.splits)
  next
    case (Inr f)
    have f: "takes A (script_left A code s + 1) s (f, s1)" using open_hook_net(2)[OF assms(1)] Pair Inr by blast
    obtain t s2 where t: "table_create A s1 = (t, s2)" by force
    have t2: "takes A 1 s1 (t, s2)" using table_create_takes[OF assms(1), of s1] t by simp
    let ?s3 = "table_set_function A t ''contains_sensitive'' (table_set_function A t ''set_response''
      (fold (\<lambda>(k, v). table_set A t k v) ctx s2))"
    have "net A 0 s2 (fold (\<lambda>(k, v). table_set A t k v) ctx s2)"
      by (rule net_fold) (simp add: table_set_net[OF assms(1)] split: prod.split)
    from net_trans[OF net_trans[OF this table_set_function_net[OF assms(1)]] table_set_function_net[OF assms(1)]]
    have s3: "net A 0 s2 ?s3" by simp
    obtain ok s4 where c: "call_fn A f [RawGetRef t] ?s3 = (ok, s4)" by force
    have s4: "net A (if ok = Fn_Failed then 0 else 1) ?s3 s4" by (rule call_fn_net[OF assms(1) c]) (auto simp: call_effect_def)
    let ?get = "fold (\<lambda>k s. snd (table_get A t k s)) [''model'', ''messages_json'', ''temperature'', ''max_tokens'']"
    have get: "net A 0 x (?get x)" for x by (rule net_fold) (rule table_get_net[OF assms(1)])
    have "net A (if ok = Fn_Threw then 1 else 0) s2 (if ok = Fn_Ok then ?get (la_do A (Pop 1) s4) else s4)"
      using s3 s4 get[of "la_do A (Pop 1) s4"] assms(1) by (cases ok) (auto simp: net_def do_effect)
    from takes_then[OF assms(1) f takes_then[OF assms(1) t2 this]]
    show ?thesis using assms(2) Pair Inr t c
      by (auto simp: request_hook_stack_def Let_def result_get_def hook_left_def numeral_3_eq_3 split: call_end.splits if_splits)
  qed
qed

lemma token_hook_net:
  assumes "capi_laws A" "token_hook_stack A token code s = (e, s')"
  shows "net A (script_left A code s + hook_left (Token_Hook token code) e) s s'"
proof (cases "open_hook A ''on_token'' code s")
  case (Pair r s1)
  show ?thesis
  proof (cases r)
    case (Inl e')
    then have "e' = e" "s' = s1" using assms(2) Pair by (simp_all add: token_hook_stack_def)
    then show ?thesis using open_hook_net(1)[OF assms(1), of "''on_token''" code s e' s1] Pair Inl
      by (auto simp: hook_left_def split: hook_end.splits)
  next
    case (Inr f)
    have f: "takes A (script_left A code s + 1) s (f, s1)" using open_hook_net(2)[OF assms(1)] Pair Inr by blast
    obtain ok s2 where c: "call_fn A f [PushConst (LStr token)] s1 = (ok, s2)" by force
    have s2: "net A (if ok = Fn_Failed then 0 else 1) s1 s2" by (rule call_fn_net[OF assms(1) c]) (auto simp: call_effect_def)
    then have "ok = Fn_Ok \<Longrightarrow> net A 0 s1 (la_do A (Pop 1) s2)" using assms(1) by (simp add: net_def do_effect)
    then show ?thesis
      using takes_then[OF assms(1) f s2] takes_then[OF assms(1) f, of 0 "la_do A (Pop 1) s2"] assms(2) Pair Inr c
      by (auto simp: token_hook_stack_def result_get_def hook_left_def split: call_end.splits if_splits lua_value.splits)
  qed
qed

lemma done_hook_net:
  assumes "capi_laws A" "done_hook_stack A code s = (e, s')"
  shows "net A (script_left A code s + hook_left (Done_Hook code) e) s s'"
proof (cases "open_hook A ''on_done'' code s")
  case (Pair r s1)
  show ?thesis
  proof (cases r)
    case (Inl e')
    then have "e' = e" "s' = s1" using assms(2) Pair by (simp_all add: done_hook_stack_def)
    then show ?thesis using open_hook_net(1)[OF assms(1), of "''on_done''" code s e' s1] Pair Inl
      by (auto simp: hook_left_def split: hook_end.splits)
  next
    case (Inr f)
    have f: "takes A (script_left A code s + 1) s (f, s1)" using open_hook_net(2)[OF assms(1)] Pair Inr by blast
    obtain ok s2 where c: "call_fn A f [] s1 = (ok, s2)" by force
    have s2: "net A (if ok = Fn_Failed then 0 else 1) s1 s2" by (rule call_fn_net[OF assms(1) c]) auto
    show ?thesis
      using takes_then[OF assms(1) f s2] assms(2) Pair Inr c
      by (auto simp: done_hook_stack_def hook_left_def split: call_end.splits if_splits)
  qed
qed

lemma hook_net:
  assumes "capi_laws A" "hook_stack A h s = (e, s')"
  shows "net A (script_left A (hook_code h) s + hook_left h e) s s'"
  using assms request_hook_net token_hook_net done_hook_net
  by (cases h) (simp_all add: hook_stack_def hook_code_def)

section \<open>Rented machines\<close>

definition text_keys :: "'s lua_capi \<Rightarrow> bool" where
  "text_keys A \<longleftrightarrow> (\<forall>s s'. la_next A s = (True, s') \<longrightarrow> (\<forall>i x. la_index A 1 s' \<noteq> LInt i \<and> la_index A 1 s' \<noteq> LNum x))"

lemma walk_fields_net:
  assumes "capi_laws A" "text_keys A" "2 \<le> la_top A s" "la_more A s < n"
  shows "\<exists>keys' s'. walk_fields A n keys s = Inr (keys', s') \<and> la_top A s' = la_top A s - 1 \<and> la_refs A s' = la_refs A s"
  using assms(3,4)
proof (induction n arbitrary: keys s)
  case (Suc n)
  obtain again s1 where n1: "la_next A s = (again, s1)" by force
  note e = next_effect[OF assms(1) Suc.prems(1) n1]
  show ?case
  proof (cases again)
    case False
    then show ?thesis using n1 e by simp
  next
    case True
    let ?s = "la_do A (Pop 1) s1"
    have p: "la_top A ?s = la_top A s" "la_refs A ?s = la_refs A s" "la_more A ?s < n"
      using e True assms(1) Suc.prems by (simp_all add: do_effect)
    obtain k where "walk_fields A (Suc n) keys s = walk_fields A n (keys @ [k]) ?s"
      using n1 True assms(2) unfolding text_keys_def by (cases "la_index A 1 s1") auto
    then show ?thesis using Suc.IH[of ?s "keys @ [k]"] p Suc.prems(1) by simp
  qed
qed simp

lemma for_each_net:
  assumes "capi_laws A" "text_keys A"
  shows "\<exists>keys s'. table_for_each A t s = Inr (keys, s') \<and> net A 0 s s'"
proof -
  let ?s = "la_do A (PushConst LNil) (la_do A (RawGetRef t) s)"
  have top: "la_top A ?s = la_top A s + 2" "la_refs A ?s = la_refs A s" using assms(1) by (simp_all add: do_effect)
  obtain keys s1 where w: "walk_fields A (Suc (la_more A ?s)) [] ?s = Inr (keys, s1)" "la_top A s1 = la_top A ?s - 1" "la_refs A s1 = la_refs A ?s"
    using walk_fields_net[OF assms, of ?s "Suc (la_more A ?s)" "[]"] top by auto
  have "table_for_each A t s = Inr (keys, la_do A (Pop 1) s1)"
    unfolding table_for_each_def Let_def by (simp only: w(1) bindE_simps prod.case)
  moreover have "net A 0 s (la_do A (Pop 1) s1)" using w top assms(1) by (simp add: net_def do_effect)
  ultimately show ?thesis by blast
qed

lemma reset_net:
  assumes "capi_laws A" "text_keys A"
  shows "\<exists>s'. reset_stack A keep s = Inr s' \<and> net A 1 s s'"
proof -
  obtain g s1 where g: "state_globals A s = (g, s1)" by force
  obtain keys s2 where f: "table_for_each A g s1 = Inr (keys, s2)" "net A 0 s1 s2" using for_each_net[OF assms] by blast
  let ?s = "fold (\<lambda>k. table_set A g k LNil) (filter (\<lambda>k. k \<notin> set keep) keys) s2"
  have "net A 0 s1 ?s" using net_trans[OF f(2) net_fold] table_set_net[OF assms(1)] by fastforce
  from takes_then[OF assms(1) _ this, of 1 s g] have "net A 1 s (reference_free A g ?s)"
    using state_globals_takes[OF assms(1), of s] g by simp
  then show ?thesis using g f(1) by (simp add: reset_stack_def)
qed

fun hooks_growth :: "'s lua_capi \<Rightarrow> hook list \<Rightarrow> 's \<Rightarrow> nat" where
  "hooks_growth A [] s = 0"
| "hooks_growth A (h # hs) s =
     script_left A (hook_code h) s + hook_left h (fst (hook_stack A h s)) + hooks_growth A hs (snd (hook_stack A h s))"

fun rents_growth :: "'s lua_capi \<Rightarrow> string list \<Rightarrow> hook list list \<Rightarrow> 's \<Rightarrow> nat" where
  "rents_growth A keep [] s = 0"
| "rents_growth A keep (hs # rents) s =
     (case reset_stack A keep s of
        Inl _ \<Rightarrow> 0
      | Inr s \<Rightarrow> 1 + hooks_growth A hs s + rents_growth A keep rents (hooks_stack A hs s))"

lemma hooks_net: "capi_laws A \<Longrightarrow> net A (hooks_growth A hs s) s (hooks_stack A hs s)"
proof (induction hs arbitrary: s)
  case (Cons h hs)
  have "net A (script_left A (hook_code h) s + hook_left h (fst (hook_stack A h s))) s (snd (hook_stack A h s))"
    by (rule hook_net[OF Cons.prems]) simp
  from net_trans[OF this Cons.IH[OF Cons.prems]] show ?case by simp
qed (simp add: net_def)


section \<open>A concrete C API\<close>

text \<open>A stack of values, most recent first, and the referenced values by number; every script loads, returns
  nothing and defines every hook, and every hook returns \<open>nil\<close>.\<close>

type_synonym stack_machine = "lua_value list \<times> (nat \<times> lua_value) list"

definition sample_do :: "lua_call \<Rightarrow> stack_machine \<Rightarrow> stack_machine" where
  "sample_do c = (\<lambda>(st, refs).
     case c of
       Unref r \<Rightarrow> (st, filter (\<lambda>(k, _). int k \<noteq> r) refs)
     | RawGetRef r \<Rightarrow> ((case map_of refs (nat r) of None \<Rightarrow> LNil | Some v \<Rightarrow> v) # st, refs)
     | PushValue i \<Rightarrow> ((if 0 < i \<and> i \<le> length st then rev st ! (i - 1) else LNil) # st, refs)
     | PushConst v \<Rightarrow> (v # st, refs)
     | GetField k \<Rightarrow> (LFun # st, refs)
     | PushCClosure n \<Rightarrow> (LFun # drop n st, refs)
     | NewTable \<Rightarrow> (LTable # st, refs)
     | PushGlobals \<Rightarrow> (LTable # st, refs)
     | PushLight \<Rightarrow> (LNil # st, refs)
     | Pop n \<Rightarrow> (drop n st, refs)
     | SetField _ \<Rightarrow> (drop 1 st, refs)
     | SetGlobal _ \<Rightarrow> (drop 1 st, refs)
     | SetMetatable \<Rightarrow> (drop 1 st, refs))"

definition sample_capi :: "stack_machine lua_capi" where
  "sample_capi = \<lparr>la_top = (\<lambda>(st, _). length st), la_index = (\<lambda>n (st, _). if n < length st then st ! n else LNil),
     la_refs = (\<lambda>(_, refs). (\<lambda>(k, _). int k) ` set refs), la_do = sample_do,
     la_ref = (\<lambda>(st, refs).
       case st of
         [] \<Rightarrow> (refnil, (st, refs))
       | v # st \<Rightarrow> if v = LNil then (refnil, (st, refs)) else let r = Suc (sum_list (map fst refs)) in (int r, (st, (r, v) # refs))),
     la_loadstring = (\<lambda>_ (st, refs). (True, (LFun # st, refs))),
     la_pcall = (\<lambda>n res (st, refs). (True, (replicate (case res of None \<Rightarrow> 0 | Some m \<Rightarrow> m) LNil @ drop (Suc n) st, refs))),
     la_next = (\<lambda>(st, refs). (False, (tl st, refs))), la_more = (\<lambda>_. 0)\<rparr>"

lemma sample_sel [simp]:
  "la_top sample_capi = (\<lambda>(st, _). length st)" "la_refs sample_capi = (\<lambda>(_, refs). (\<lambda>(k, _). int k) ` set refs)"
  "la_do sample_capi = sample_do" "la_index sample_capi n (st, refs) = (if n < length st then st ! n else LNil)"
  by (simp_all add: sample_capi_def)

lemma sample_capi_laws: "capi_laws sample_capi"
proof -
  have "effect_law sample_capi"
    unfolding effect_law_def by (auto simp: sample_do_def call_effect_def split: lua_call.splits)
  moreover have "ref_law sample_capi"
  proof -
    have "1 + int (sum_list (map fst refs)) \<noteq> int k" if "(k, v) \<in> set refs" for k v and refs :: "(nat \<times> lua_value) list"
    proof -
      have "k \<in> set (map fst refs)" using that by force
      from member_le_sum_list[OF this] show ?thesis by simp
    qed
    then show ?thesis unfolding ref_law_def
      by (auto simp: sample_capi_def refnil_def Let_def split: if_splits list.splits)
  qed
  moreover have "load_law sample_capi" "call_law sample_capi" "next_law sample_capi"
    by (auto simp: load_law_def call_law_def next_law_def sample_capi_def split: option.split)
  ultimately show ?thesis by (simp add: capi_laws_def)
qed

lemmas sample_ops = sample_do_def refnil_def state_globals_def reference_new_def reference_free_def
  reference_type_def table_get_fn_def table_create_def table_set_def table_set_function_def table_get_def Let_def

lemma sample_calls:
  "la_ref sample_capi (v # st, refs) = (if v = LNil then (refnil, (st, refs))
     else let r = Suc (sum_list (map fst refs)) in (int r, (st, (r, v) # refs)))"
  "la_loadstring sample_capi code (st, refs) = (True, (LFun # st, refs))"
  "la_pcall sample_capi n (Some m) (st, refs) = (True, (replicate m LNil @ drop (Suc n) st, refs))"
  "la_pcall sample_capi n None (st, refs) = (True, (drop (Suc n) st, refs))"
  "la_next sample_capi (st, refs) = (False, (tl st, refs))" "la_more sample_capi s = 0"
  by (simp_all add: sample_capi_def)

lemma sample_script: "safe_script sample_capi code (st, refs) = (Script_Ok, (st, refs))"
  by (simp add: safe_script_def sample_calls)

lemma sample_reset: "reset_stack sample_capi keep (st, []) = Inr (LTable # st, [])"
  by (simp add: reset_stack_def table_for_each_def sample_calls sample_ops)

lemma sample_hook: "open_hook sample_capi name code (st, []) = (Inr 2, (LTable # st, [(2, LFun)]))"
  by (simp add: open_hook_def sample_script sample_calls sample_ops nth_append)

lemma sample_request:
  "hook_stack sample_capi (Request_Hook [(k, v)] code) (st, []) = (Hook_Gave LNil, (LTable # LTable # st, []))"
  by (simp add: hook_stack_def request_hook_stack_def call_fn_def result_get_def sample_hook sample_calls sample_ops nth_append)


end
