(* ===== verification/Gateway_State.thy ===== *)
theory Gateway_State
  imports Plugin_Pipeline Coordinator Agent_Registry Tool_Registry Remote_Upstream Auth
begin

text \<open>
  The state of the gateway process that the WebSocket and HTTP handlers work on, and the primitives they
  share. A handler is a function from the state to a value or an exception and the new state: what was
  changed before an exception stays changed. Connections and event loops are numbered; a connection's
  context, its status and the texts handed to it are part of the state, and so are the tasks queued in the
  event loops (\<open>queueInLoop\<close>). A handler runs in one event loop and reads each clock once.
\<close>

section \<open>Operations that change a state and may throw\<close>

type_synonym ('s, 'a) op = "'s \<Rightarrow> 'a result \<times> 's"

definition ret :: "'a \<Rightarrow> ('s, 'a) op" where
  "ret a s = (Inr a, s)"

definition throw :: "exn \<Rightarrow> ('s, 'a) op" where
  "throw e s = (Inl e, s)"

definition bind :: "('s, 'a) op \<Rightarrow> ('a \<Rightarrow> ('s, 'b) op) \<Rightarrow> ('s, 'b) op" where
  "bind m f s = (case m s of (Inl e, s) \<Rightarrow> (Inl e, s) | (Inr a, s) \<Rightarrow> f a s)"

definition andthen :: "('s, 'a) op \<Rightarrow> ('s, 'b) op \<Rightarrow> ('s, 'b) op" where
  "andthen m n = bind m (\<lambda>_. n)"

definition lift :: "'a result \<Rightarrow> ('s, 'a) op" where
  "lift r s = (r, s)"

definition getf :: "('s \<Rightarrow> 'a) \<Rightarrow> ('s, 'a) op" where
  "getf f s = (Inr (f s), s)"

definition modify :: "('s \<Rightarrow> 's) \<Rightarrow> ('s, unit) op" where
  "modify f s = (Inr (), f s)"

definition raising :: "('s \<Rightarrow> exn option \<times> 's) \<Rightarrow> ('s, unit) op" where
  "raising f s = (case f s of (None, s) \<Rightarrow> (Inr (), s) | (Some e, s) \<Rightarrow> (Inl e, s))"

lemma op_simps [simp]:
  "ret a s = (Inr a, s)" "throw e s = (Inl e, s)" "lift r s = (r, s)" "getf g s = (Inr (g s), s)"
  "modify f s = (Inr (), f s)"
  by (simp_all add: ret_def throw_def lift_def getf_def modify_def)

lemma bind_simps [simp]:
  "bind (ret a) f s = f a s" "bind (throw e) f s = (Inl e, s)" "bind (lift (Inr a)) f s = f a s"
  "bind (lift (Inl e)) f s = (Inl e, s)" "bind (getf g) f s = f (g s) s" "bind (modify h) f' s = f' () (h s)"
  by (simp_all add: bind_def)

lemma andthen_simps [simp]:
  "andthen (ret a) n s = n s" "andthen (throw e) n s = (Inl e, s)" "andthen (modify g) n s = n (g s)"
  "andthen (lift (Inr a)) n s = n s" "andthen (lift (Inl e)) n s = (Inl e, s)"
  by (simp_all add: andthen_def)

lemma bind_run: "m s = (Inr a, s') \<Longrightarrow> bind m f s = f a s'" "m s = (Inl e, s') \<Longrightarrow> bind m f s = (Inl e, s')"
  by (simp_all add: bind_def)

lemma andthen_run: "m s = (Inr a, s') \<Longrightarrow> andthen m n s = n s'" "m s = (Inl e, s') \<Longrightarrow> andthen m n s = (Inl e, s')"
  by (simp_all add: andthen_def bind_def)

text \<open>A property of the state that every part keeps is kept by the whole.\<close>

definition keeps :: "('s \<Rightarrow> bool) \<Rightarrow> ('s, 'a) op \<Rightarrow> bool" where
  "keeps I m \<longleftrightarrow> (\<forall>s. I s \<longrightarrow> I (snd (m s)))"

named_theorems keeps_rules

lemma keeps_bind [keeps_rules]: "keeps I m \<Longrightarrow> (\<And>a. keeps I (f a)) \<Longrightarrow> keeps I (bind m f)"
  unfolding keeps_def bind_def by (fastforce split: prod.split sum.split)

lemma keeps_andthen [keeps_rules]: "keeps I m \<Longrightarrow> keeps I n \<Longrightarrow> keeps I (andthen m n)"
  by (simp add: andthen_def keeps_bind)

lemma keeps_pure [keeps_rules]: "keeps I (ret a)" "keeps I (throw e)" "keeps I (lift r)" "keeps I (getf f)"
  by (simp_all add: keeps_def)

lemma keeps_modify: "(\<And>s. I s \<Longrightarrow> I (f s)) \<Longrightarrow> keeps I (modify f)"
  by (simp add: keeps_def)

lemma keeps_raising: "(\<And>s. I s \<Longrightarrow> I (snd (f s))) \<Longrightarrow> keeps I (raising f)"
  unfolding keeps_def raising_def by (fastforce split: prod.split option.split)

lemma keepsD: "keeps I m \<Longrightarrow> I s \<Longrightarrow> m s = (r, s') \<Longrightarrow> I s'"
  by (metis keeps_def snd_conv)

section \<open>State\<close>

type_synonym conn = nat
type_synonym loop = nat

datatype conn_status = Connected | Disconnecting | Disconnected

record session_ctx =
  sx_session_id :: string
  sx_api_key :: string
  sx_client_ip :: string
  sx_role :: string
  sx_authenticated :: bool
  sx_loop :: loop
  sx_tools :: "string list"
  sx_agent_name :: string
  sx_capabilities :: "agent_capability list"
  sx_active_requests :: "(string, nat) umap"     \<comment> \<open>the address of each request's cancel flag\<close>

text \<open>What the callbacks of a chat request capture; the flags are shared, so they are addresses.\<close>

record chat_cb =
  cb_conn :: conn
  cb_request_id :: string
  cb_cancel :: nat
  cb_first :: nat
  cb_loop :: loop
  cb_start :: int

datatype loop_task =
    SendTask conn string
  | ToolCallTask conn string string string string
  | EraseTask conn string

text \<open>A request handed to the upstream engine; HTTP requests have a stream of their own.\<close>

datatype callbacks = WsCallbacks chat_cb | HttpCallbacks nat

record submission =
  sm_req :: llm_request
  sm_url :: string
  sm_key :: string
  sm_cb :: callbacks

record ('v, 'w) gateway =
  g_auth :: auth
  g_router :: router
  g_plugins :: plugin_manager
  g_pools :: "loop \<Rightarrow> 'v vm_pool option"
  g_world :: 'w
  g_tools :: tool_registry
  g_coord :: coord
  g_registry :: agent_registry
  g_metrics :: metrics
  g_submitted :: "submission list"
  g_stream_out :: "(nat \<times> string) list"
  g_stream_closed :: "nat set"
  g_next_stream :: nat
  g_flags :: "nat \<Rightarrow> bool"
  g_next_flag :: nat
  g_ctx :: "conn \<Rightarrow> session_ctx option"
  g_status :: "conn \<Rightarrow> conn_status"
  g_sent :: "(conn \<times> string) list"
  g_tasks :: "(loop \<times> loop_task) list"
  g_sessions :: "(string, conn) umap"
  g_seq :: nat
  g_executors :: "conn list"
  g_exec_rr :: nat
  g_pending_tools :: "(string, conn) umap"
  g_pending_agents :: "(string, conn) umap"

record clocks =
  ck_steady :: int      \<comment> \<open>steady clock, nanoseconds\<close>
  ck_system :: int      \<comment> \<open>system clock, milliseconds\<close>

text \<open>Code outside the repository: the JSON library, Lua, SHA-256 and what L3 needs of the platform.\<close>

record ('j, 'v, 'w) environment =
  ev_json :: "'j jlib"
  ev_rt :: "('v, 'w) lua_rt"
  ev_libs :: "'v globals"
  ev_gateway :: 'v
  ev_l3 :: env
  ev_sha256 :: "string \<Rightarrow> string"

section \<open>Shared primitives\<close>

definition ensure_thread_pool :: "('j, 'v, 'w) environment \<Rightarrow> loop \<Rightarrow> (('v, 'w) gateway, unit) op" where
  "ensure_thread_pool V th = modify (\<lambda>g.
     case g_pools g th of
       Some _ \<Rightarrow> g
     | None \<Rightarrow> g\<lparr>g_pools := (g_pools g)(th := setup_thread_pool (ev_libs V) (ev_gateway V) (g_plugins g))\<rparr>)"

definition conn_send :: "conn \<Rightarrow> string \<Rightarrow> (('v, 'w) gateway, unit) op" where
  "conn_send c text = modify (\<lambda>g. g\<lparr>g_sent := g_sent g @ [(c, text)]\<rparr>)"

definition send_json :: "('j, 'v, 'w) environment \<Rightarrow> conn \<Rightarrow> (string \<times> 'j) list \<Rightarrow> (('v, 'w) gateway, unit) op" where
  "send_json V c fs = bind (lift (jdump (ev_json V) (jobj (ev_json V) fs))) (conn_send c)"

definition queue_in_loop :: "loop \<Rightarrow> loop_task \<Rightarrow> (('v, 'w) gateway, unit) op" where
  "queue_in_loop l t = modify (\<lambda>g. g\<lparr>g_tasks := g_tasks g @ [(l, t)]\<rparr>)"

text \<open>\<open>ws_send\<close> reads the loop from the connection's context, which must be there.\<close>

definition ws_send :: "conn \<Rightarrow> string \<Rightarrow> (('v, 'w) gateway, unit) op" where
  "ws_send c text = bind (getf (\<lambda>g. g_ctx g c)) (\<lambda>ctx.
     case ctx of None \<Rightarrow> throw UB | Some x \<Rightarrow> queue_in_loop (sx_loop x) (SendTask c text))"

definition ws_send_json :: "('j, 'v, 'w) environment \<Rightarrow> conn \<Rightarrow> (string \<times> 'j) list \<Rightarrow> (('v, 'w) gateway, unit) op" where
  "ws_send_json V c fs = bind (lift (jdump (ev_json V) (jobj (ev_json V) fs))) (ws_send c)"

definition ws_send_to_session :: "string \<Rightarrow> string \<Rightarrow> (('v, 'w) gateway, unit) op" where
  "ws_send_to_session sid text = bind (getf (\<lambda>g. um_find (g_sessions g) sid)) (\<lambda>conn.
     case conn of None \<Rightarrow> ret () | Some c \<Rightarrow> ws_send c text)"

definition upd_ctx :: "conn \<Rightarrow> (session_ctx \<Rightarrow> session_ctx) \<Rightarrow> (('v, 'w) gateway, unit) op" where
  "upd_ctx c f = modify (\<lambda>g. g\<lparr>g_ctx := (g_ctx g)(c := map_option f (g_ctx g c))\<rparr>)"

definition upd_metrics :: "(metrics \<Rightarrow> metrics) \<Rightarrow> (('v, 'w) gateway, unit) op" where
  "upd_metrics f = modify (\<lambda>g. g\<lparr>g_metrics := f (g_metrics g)\<rparr>)"

definition verify_key :: "clocks \<Rightarrow> string \<Rightarrow> string \<Rightarrow> (('v, 'w) gateway, string) op" where
  "verify_key K api_key model = (\<lambda>g.
     case verify (ck_steady K) api_key model (g_auth g) of (r, a) \<Rightarrow> (r, g\<lparr>g_auth := a\<rparr>))"

definition route_model :: "string \<Rightarrow> (('v, 'w) gateway, backend_node option) op" where
  "route_model model = (\<lambda>g. case route model (g_router g) of (n, r) \<Rightarrow> (Inr n, g\<lparr>g_router := r\<rparr>))"

text \<open>A pipeline of the plugin manager on the pool of thread \<open>th\<close>; an exception leaves the machine in the pool,
  so the pool is unchanged as far as a later call can see.\<close>

definition on_pool ::
  "('v vm_pool option \<Rightarrow> 'w \<Rightarrow> ('a \<times> 'v vm_pool option \<times> 'w) result) \<Rightarrow> loop \<Rightarrow> (('v, 'w) gateway, 'a) op" where
  "on_pool f th = (\<lambda>g.
     case f (g_pools g th) (g_world g) of
       Inl e \<Rightarrow> (Inl e, g)
     | Inr (a, p, w) \<Rightarrow> (Inr a, g\<lparr>g_pools := (g_pools g)(th := p), g_world := w\<rparr>))"

definition new_flag :: "(('v, 'w) gateway, nat) op" where
  "new_flag = (\<lambda>g. (Inr (g_next_flag g), g\<lparr>g_flags := (g_flags g)(g_next_flag g := False), g_next_flag := Suc (g_next_flag g)\<rparr>))"

section \<open>A gateway for the witnesses\<close>

definition demo_dump :: "jv \<Rightarrow> string result" where
  "demo_dump j =
     (case (jv_at j ''content'', jv_at j ''type'') of
        (Inr (JStr s), _) \<Rightarrow> Inr s
      | (_, Inr (JStr s)) \<Rightarrow> Inr s
      | _ \<Rightarrow> Inr ''?'')"

definition demo_V :: "(jv, lua_value, unit) environment" where
  "demo_V = \<lparr>ev_json = sample_json (\<lambda>_. Inr JNull) demo_dump, ev_rt = demo_rt, ev_libs = [], ev_gateway = LTable,
     ev_l3 = demo_env, ev_sha256 = (\<lambda>s. s)\<rparr>"

definition demo_session :: session_ctx where
  "demo_session = \<lparr>sx_session_id = ''s'', sx_api_key = [], sx_client_ip = ''ip'', sx_role = ''user'', sx_authenticated = True,
     sx_loop = 1, sx_tools = [], sx_agent_name = [], sx_capabilities = [], sx_active_requests = []\<rparr>"

definition demo_gw :: "(lua_value, unit) gateway" where
  "demo_gw = \<lparr>g_auth = empty_auth, g_router = (\<lambda>_. None)(default_group \<mapsto> add_node default_node empty_lb),
     g_plugins = \<lparr>pm_dir = ''p'', pm_pool_size = 1, pm_plugins = [], pm_watching = False\<rparr>,
     g_pools = (\<lambda>_. Some (pool_new 1 [] LTable)), g_world = (), g_tools = [], g_coord = demo_coord, g_registry = reg_empty,
     g_metrics = metrics_zero, g_submitted = [], g_stream_out = [], g_stream_closed = {}, g_next_stream = 0, g_flags = (\<lambda>_. False), g_next_flag = 2,
     g_ctx = [0 \<mapsto> demo_session], g_status = (\<lambda>_. Connected), g_sent = [], g_tasks = [], g_sessions = [(''s'', 0)],
     g_seq = 1, g_executors = [], g_exec_rr = 0, g_pending_tools = [], g_pending_agents = []\<rparr>"

definition demo_K :: clocks where
  "demo_K = \<lparr>ck_steady = 5000000, ck_system = 1000\<rparr>"

lemma demo_V_sel [simp]:
  "ev_json demo_V = sample_json (\<lambda>_. Inr JNull) demo_dump" "ev_rt demo_V = demo_rt" "ev_l3 demo_V = demo_env"
  by (simp_all add: demo_V_def)

lemma demo_gw_sel [simp]:
  "g_plugins demo_gw = \<lparr>pm_dir = ''p'', pm_pool_size = 1, pm_plugins = [], pm_watching = False\<rparr>"
  "g_pools demo_gw th = Some (pool_new 1 [] LTable)" "g_world demo_gw = ()" "g_ctx demo_gw 0 = Some demo_session"
  "g_tasks demo_gw = []" "g_sent demo_gw = []" "g_metrics demo_gw = metrics_zero" "g_submitted demo_gw = []"
  "g_flags demo_gw i = False" "g_auth demo_gw = empty_auth" "g_tools demo_gw = []"
  by (simp_all add: demo_gw_def)

text \<open>A pipeline keeps the pool as it should be, and finds a machine in every pool that has one.\<close>

lemma with_vm_reach:
  assumes "pool_reach n libs gw (p, [])" "with_vm body (Some p) w = Inr (a, pool, w')"
  shows "\<exists>p'. pool = Some p' \<and> pool_reach n libs gw (p', [])"
proof -
  obtain vm p1 g g' where b: "pool_borrow p = Inr (vm, p1)"
      "pool = Some (pool_return vm (p1\<lparr>vp_all := um_set vm g' (vp_all p1)\<rparr>))"
    using assms(2) by (auto simp: with_vm_def borrow_vm_def bindE_eq_Inr split: option.splits)
  have "pool_reach n libs gw (p1, [vm])" by (rule reach_of.step[OF assms(1) pool_step.borrow[OF b(1)]])
  then have "pool_reach n libs gw (p1\<lparr>vp_all := um_set vm g' (vp_all p1)\<rparr>, [vm])"
    by (rule reach_of.step) (simp add: pool_step.run)
  then have "pool_reach n libs gw (pool_return vm (p1\<lparr>vp_all := um_set vm g' (vp_all p1)\<rparr>), remove1 vm [vm])"
    by (rule reach_of.step) (rule pool_step.give_back, simp)
  then show ?thesis using b(2) by simp
qed

lemma with_vm_pure:
  assumes "pool_reach n libs gw (p, [])" "0 < n"
  shows "\<exists>p'. with_vm (\<lambda>m. Inr (a, m)) (Some p) w = Inr (a, Some p', w) \<and> pool_reach n libs gw (p', [])"
proof -
  have inv: "length (vp_available p) = n" "\<forall>vm \<in> set (vp_available p). um_find (vp_all p) vm \<noteq> None"
    using pool_reach_inv[OF assms(1)] by (simp_all add: pool_inv_def)
  then obtain vm rest g where "vp_available p = vm # rest" "um_find (vp_all p) vm = Some g"
    using assms(2) by (cases "vp_available p") auto
  then obtain p' where "with_vm (\<lambda>m. Inr (a, m)) (Some p) w = Inr (a, Some p', w)"
    by (simp add: with_vm_def borrow_vm_def pool_borrow_def)
  then show ?thesis using with_vm_reach[OF assms(1)] by fastforce
qed

end
