(* ===== verification/Ws_Chat.thy ===== *)
theory Ws_Chat
  imports Gateway_State
begin

text \<open>
  Chat requests over a WebSocket (\<open>WsChatController::process_chat\<close> in \<open>src/ws_chat_controller.cpp\<close>): the
  checks, the plugin pipeline, the request handed to the upstream engine, and its callbacks, which run in
  the engine's thread and reach the connection through its event loop.
\<close>

section \<open>Admission\<close>

definition ws_error :: "('j, 'v, 'w) environment \<Rightarrow> string \<Rightarrow> string \<Rightarrow> string \<Rightarrow> (string \<times> 'j) list" where
  "ws_error V request_id code message =
     [(''type'', jstr (ev_json V) ''error''), (''request_id'', jstr (ev_json V) request_id),
      (''code'', jstr (ev_json V) code), (''message'', jstr (ev_json V) message)]"

definition chat_context ::
  "clocks \<Rightarrow> session_ctx \<Rightarrow> string \<Rightarrow> string \<Rightarrow> double \<Rightarrow> int \<Rightarrow> plugin_context" where
  "chat_context K x model messages_json temperature max_tokens =
     \<lparr>pc_model = model, pc_messages_json = messages_json, pc_temperature = temperature, pc_max_tokens = max_tokens,
      pc_user_ip = sx_client_ip x, pc_api_key = sx_api_key x, pc_request_id = word_of_int (ck_steady K),
      pc_abort_status = 200, pc_abort_body = [], pc_aborted = False\<rparr>"

definition chat_request :: "backend_node \<Rightarrow> plugin_context \<Rightarrow> string \<Rightarrow> llm_request" where
  "chat_request n ctx tools =
     \<lparr>lr_id = 0, lr_provider = KIMI, lr_model = (if bn_model n = [] then pc_model ctx else bn_model n),
      lr_messages_json = pc_messages_json ctx, lr_tools_json = tools, lr_temperature = pc_temperature ctx,
      lr_max_tokens = pc_max_tokens ctx, lr_has_token = True, lr_has_tool_call = True, lr_has_done = True,
      lr_has_error = True\<rparr>"

text \<open>The second half of the function, after the plugins let the request pass.\<close>

definition submit_chat ::
  "('j, 'v, 'w) environment \<Rightarrow> clocks \<Rightarrow> conn \<Rightarrow> session_ctx \<Rightarrow> string \<Rightarrow> backend_node \<Rightarrow> plugin_context \<Rightarrow> string \<Rightarrow>
     (('v, 'w) gateway, unit) op" where
  "submit_chat V K c x request_id n ctx tools =
     bind new_flag (\<lambda>cancel.
     andthen (upd_ctx c (\<lambda>x. x\<lparr>sx_active_requests := um_set request_id cancel (sx_active_requests x)\<rparr>))
     (bind (if tools = [] then bind (getf g_tools) (\<lambda>t. lift (tools_json (ev_json V) t)) else ret tools) (\<lambda>final_tools.
      bind new_flag (\<lambda>first.
      andthen (upd_metrics (\<lambda>m. m\<lparr>m_total_requests := m_total_requests m + 1, m_active_requests := m_active_requests m + 1\<rparr>))
        (modify (\<lambda>g. g\<lparr>g_submitted := g_submitted g @
           [\<lparr>sm_req = chat_request n ctx final_tools, sm_url = bn_url n, sm_key = bn_api_key n,
             sm_cb = WsCallbacks \<lparr>cb_conn = c, cb_request_id = request_id, cb_cancel = cancel, cb_first = first,
                                  cb_loop = sx_loop x, cb_start = ck_steady K\<rparr>\<rparr>]\<rparr>))))))"

definition process_chat ::
  "('j, 'v, 'w) environment \<Rightarrow> clocks \<Rightarrow> loop \<Rightarrow> conn \<Rightarrow> string \<Rightarrow> string \<Rightarrow> string \<Rightarrow> string \<Rightarrow> double \<Rightarrow> int \<Rightarrow>
     (('v, 'w) gateway, unit) op" where
  "process_chat V K th c request_id model messages_json tools temperature max_tokens =
     andthen (ensure_thread_pool V th)
     (bind (getf (\<lambda>g. g_ctx g c)) (\<lambda>ctx.
      case ctx of
        None \<Rightarrow> ret ()
      | Some x \<Rightarrow>
          bind (verify_key K (sx_api_key x) model) (\<lambda>auth_err.
          if auth_err \<noteq> [] then
            andthen (upd_metrics (\<lambda>m. m\<lparr>m_auth_failed := m_auth_failed m + 1\<rparr>))
              (send_json V c (ws_error V request_id ''auth_failed'' auth_err))
          else bind (route_model model) (\<lambda>node.
          case node of
            None \<Rightarrow> send_json V c (ws_error V request_id ''no_backend'' ''no available backend'')
          | Some n \<Rightarrow>
              bind (getf (\<lambda>g. pm_plugins (g_plugins g))) (\<lambda>plugins.
              bind (on_pool (run_request_pipeline (ev_rt V) plugins
                      (chat_context K x model messages_json temperature max_tokens)) th) (\<lambda>pr.
              if \<not> pl_passed pr then
                andthen (send_json V c [(''type'', jstr (ev_json V) ''abort''), (''request_id'', jstr (ev_json V) request_id),
                           (''status'', jint (ev_json V) (pl_abort_status pr)), (''body'', jstr (ev_json V) (pl_abort_body pr))])
                  (upd_metrics (\<lambda>m. m\<lparr>m_rate_limited := m_rate_limited m + 1\<rparr>))
              else submit_chat V K c x request_id n (pl_ctx pr) tools))))))"

section \<open>Callbacks\<close>

definition elapsed_us :: "clocks \<Rightarrow> int \<Rightarrow> u64" where
  "elapsed_us K start = word_of_int ((ck_steady K - start) div 1000)"

definition on_tool_call :: "chat_cb \<Rightarrow> string \<Rightarrow> string \<Rightarrow> string \<Rightarrow> (('v, 'w) gateway, unit) op" where
  "on_tool_call cb call_id name arguments =
     queue_in_loop (cb_loop cb) (ToolCallTask (cb_conn cb) (cb_request_id cb) call_id name arguments)"

text \<open>\<open>first_tok->exchange(true)\<close>\<close>

definition note_first_token :: "clocks \<Rightarrow> chat_cb \<Rightarrow> (('v, 'w) gateway, unit) op" where
  "note_first_token K cb = modify (\<lambda>g.
     let g' = g\<lparr>g_flags := (g_flags g)(cb_first cb := True)\<rparr>; m = g_metrics g in
     if g_flags g (cb_first cb) then g'
     else g'\<lparr>g_metrics := m\<lparr>m_total_first_token_us := m_total_first_token_us m + elapsed_us K (cb_start cb),
                            m_first_token_count := m_first_token_count m + 1\<rparr>\<rparr>)"

definition on_token :: "('j, 'v, 'w) environment \<Rightarrow> clocks \<Rightarrow> loop \<Rightarrow> chat_cb \<Rightarrow> string \<Rightarrow> (('v, 'w) gateway, unit) op" where
  "on_token V K th cb tok =
     andthen (ensure_thread_pool V th)
     (bind (getf (\<lambda>g. g_flags g (cb_cancel cb))) (\<lambda>cancelled.
      if cancelled then ret ()
      else andthen (note_first_token K cb)
        (bind (getf (\<lambda>g. pm_plugins (g_plugins g))) (\<lambda>plugins.
         bind (on_pool (run_token_pipeline (ev_rt V) plugins tok) th) (\<lambda>processed.
         if processed = [] then ret ()
         else ws_send_json V (cb_conn cb) [(''type'', jstr (ev_json V) ''token''),
                (''request_id'', jstr (ev_json V) (cb_request_id cb)), (''content'', jstr (ev_json V) processed)])))))"

definition on_done :: "('j, 'v, 'w) environment \<Rightarrow> clocks \<Rightarrow> loop \<Rightarrow> chat_cb \<Rightarrow> (('v, 'w) gateway, unit) op" where
  "on_done V K th cb =
     andthen (ensure_thread_pool V th)
     (bind (getf (\<lambda>g. g_flags g (cb_cancel cb))) (\<lambda>cancelled.
      andthen (if cancelled then ret ()
               else bind (getf (\<lambda>g. pm_plugins (g_plugins g))) (\<lambda>plugins. on_pool (run_done_pipeline (ev_rt V) plugins) th))
      (andthen (upd_metrics (\<lambda>m. m\<lparr>m_total_latency_us := m_total_latency_us m + elapsed_us K (cb_start cb),
                                  m_max_latency_us := metric_max (m_max_latency_us m) (elapsed_us K (cb_start cb))\<rparr>))
      (andthen (ws_send_json V (cb_conn cb) [(''type'', jstr (ev_json V) ''done''), (''request_id'', jstr (ev_json V) (cb_request_id cb))])
      (andthen (upd_metrics (\<lambda>m. m\<lparr>m_success_count := m_success_count m + 1, m_active_requests := m_active_requests m - 1\<rparr>))
        (queue_in_loop (cb_loop cb) (EraseTask (cb_conn cb) (cb_request_id cb))))))))"

definition on_error :: "('j, 'v, 'w) environment \<Rightarrow> loop \<Rightarrow> chat_cb \<Rightarrow> string \<Rightarrow> (('v, 'w) gateway, unit) op" where
  "on_error V th cb err =
     andthen (ensure_thread_pool V th)
     (bind (getf (\<lambda>g. g_flags g (cb_cancel cb))) (\<lambda>cancelled.
      andthen (if cancelled then ret () else ws_send_json V (cb_conn cb) (ws_error V (cb_request_id cb) ''upstream_error'' err))
      (andthen (upd_metrics (\<lambda>m. m\<lparr>m_errors := m_errors m + 1, m_active_requests := m_active_requests m - 1\<rparr>))
        (queue_in_loop (cb_loop cb) (EraseTask (cb_conn cb) (cb_request_id cb))))))"

text \<open>What the parser of the upstream stream calls.\<close>

definition deliver :: "('j, 'v, 'w) environment \<Rightarrow> clocks \<Rightarrow> loop \<Rightarrow> chat_cb \<Rightarrow> sse_event \<Rightarrow> (('v, 'w) gateway, unit) op" where
  "deliver V K th cb ev =
     (case ev of
        Token tok \<Rightarrow> on_token V K th cb tok
      | ToolCall call_id name arguments \<Rightarrow> on_tool_call cb call_id name arguments
      | Done \<Rightarrow> on_done V K th cb)"

fun deliver_all :: "('j, 'v, 'w) environment \<Rightarrow> clocks \<Rightarrow> loop \<Rightarrow> chat_cb \<Rightarrow> sse_event list \<Rightarrow> (('v, 'w) gateway, unit) op" where
  "deliver_all V K th cb [] = ret ()"
| "deliver_all V K th cb (ev # evs) = andthen (deliver V K th cb ev) (deliver_all V K th cb evs)"

section \<open>One outcome per request\<close>

lemma ensure_pool_frame:
  assumes "ensure_thread_pool V th g = (r, g')"
  shows "r = Inr () \<and> (\<exists>ps. g' = g\<lparr>g_pools := ps\<rparr>)"
proof (cases "g_pools g th")
  case None
  then show ?thesis using assms by (auto simp: ensure_thread_pool_def)
next
  case (Some p)
  then have "g' = g\<lparr>g_pools := g_pools g\<rparr>" "r = Inr ()" using assms by (auto simp: ensure_thread_pool_def)
  then show ?thesis by blast
qed

lemma ensure_pool_run: "\<exists>ps. ensure_thread_pool V th g = (Inr (), g\<lparr>g_pools := ps\<rparr>)"
  using ensure_pool_frame by (metis prod.exhaust)

lemma send_json_cases:
  obtains (sent) out where "jdump (ev_json V) (jobj (ev_json V) fs) = Inr out"
      "send_json V c fs g = (Inr (), g\<lparr>g_sent := g_sent g @ [(c, out)]\<rparr>)"
  | (failed) e where "send_json V c fs g = (Inl e, g)"
proof (cases "jdump (ev_json V) (jobj (ev_json V) fs)")
  case (Inl e)
  then have "send_json V c fs g = (Inl e, g)" by (simp add: send_json_def)
  then show ?thesis by (rule failed)
next
  case (Inr out)
  then have "send_json V c fs g = (Inr (), g\<lparr>g_sent := g_sent g @ [(c, out)]\<rparr>)" by (simp add: send_json_def conn_send_def)
  with Inr show ?thesis by (rule sent)
qed

text \<open>The part of the state that decides what a client and the engine see.\<close>

definition quiet :: "('v, 'w) gateway \<Rightarrow> ('v, 'w) gateway \<Rightarrow> bool" where
  "quiet g g' \<longleftrightarrow> g_sent g' = g_sent g \<and> g_submitted g' = g_submitted g \<and> g_tasks g' = g_tasks g \<and>
     m_active_requests (g_metrics g') = m_active_requests (g_metrics g)"

definition answered :: "conn \<Rightarrow> ('v, 'w) gateway \<Rightarrow> ('v, 'w) gateway \<Rightarrow> bool" where
  "answered c g g' \<longleftrightarrow> (\<exists>text. g_sent g' = g_sent g @ [(c, text)]) \<and> g_submitted g' = g_submitted g \<and>
     g_tasks g' = g_tasks g \<and> m_active_requests (g_metrics g') = m_active_requests (g_metrics g)"

definition accepted :: "conn \<Rightarrow> string \<Rightarrow> backend_node \<Rightarrow> plugin_context \<Rightarrow> ('v, 'w) gateway \<Rightarrow> ('v, 'w) gateway \<Rightarrow> bool" where
  "accepted c request_id n ctx g g' \<longleftrightarrow>
     (\<exists>cb tools x. g_submitted g' = g_submitted g @ [\<lparr>sm_req = chat_request n ctx tools, sm_url = bn_url n,
          sm_key = bn_api_key n, sm_cb = WsCallbacks cb\<rparr>] \<and>
        cb_conn cb = c \<and> cb_request_id cb = request_id \<and> \<not> g_flags g' (cb_cancel cb) \<and> \<not> g_flags g' (cb_first cb) \<and>
        cb_cancel cb \<noteq> cb_first cb \<and> g_ctx g' c = Some x \<and> um_find (sx_active_requests x) request_id = Some (cb_cancel cb)) \<and>
     g_sent g' = g_sent g \<and> g_tasks g' = g_tasks g \<and>
     m_active_requests (g_metrics g') = m_active_requests (g_metrics g) + 1"

lemma submit_chat_cases:
  assumes "g_ctx g c = Some x0"
  shows "(\<exists>g'. submit_chat V K c x request_id n ctx tools g = (Inr (), g') \<and> accepted c request_id n ctx g g') \<or>
    (\<exists>e g'. submit_chat V K c x request_id n ctx tools g = (Inl e, g') \<and> quiet g g')"
proof (cases "if tools = [] then tools_json (ev_json V) (g_tools g) else Inr tools")
  case (Inl e)
  then show ?thesis
    by (auto simp: submit_chat_def bind_def andthen_def new_flag_def upd_ctx_def quiet_def split: if_splits)
next
  case (Inr ts)
  let ?cb = "\<lparr>cb_conn = c, cb_request_id = request_id, cb_cancel = g_next_flag g, cb_first = Suc (g_next_flag g),
      cb_loop = sx_loop x, cb_start = ck_steady K\<rparr>"
  obtain g' where g': "submit_chat V K c x request_id n ctx tools g = (Inr (), g')"
      "g_submitted g' = g_submitted g @ [\<lparr>sm_req = chat_request n ctx ts, sm_url = bn_url n, sm_key = bn_api_key n,
          sm_cb = WsCallbacks ?cb\<rparr>]"
      "\<not> g_flags g' (g_next_flag g)" "\<not> g_flags g' (Suc (g_next_flag g))"
      "g_ctx g' c = Some (x0\<lparr>sx_active_requests := um_set request_id (g_next_flag g) (sx_active_requests x0)\<rparr>)"
      "g_sent g' = g_sent g" "g_tasks g' = g_tasks g"
      "m_active_requests (g_metrics g') = m_active_requests (g_metrics g) + 1"
    using assms Inr by (auto simp: submit_chat_def bind_def andthen_def new_flag_def upd_ctx_def upd_metrics_def split: if_splits)
  then have "accepted c request_id n ctx g g'"
    unfolding accepted_def by (intro conjI exI[of _ ?cb] exI[of _ ts]) simp_all
  then show ?thesis using g'(1) by blast
qed

lemma settled_send:
  assumes "quiet g h" "send_json V c fs h = (r, g')"
  shows "(r = Inr () \<and> answered c g g') \<or> (\<exists>e. r = Inl e \<and> quiet g g')"
  using assms by (cases rule: send_json_cases[of V fs c h]) (auto simp: answered_def quiet_def)

lemma settled_abort:
  assumes "quiet g h" "andthen (send_json V c fs) (upd_metrics (\<lambda>m. m\<lparr>m_rate_limited := m_rate_limited m + 1\<rparr>)) h = (r, g')"
  shows "(r = Inr () \<and> answered c g g') \<or> (\<exists>e. r = Inl e \<and> quiet g g')"
  using assms by (cases rule: send_json_cases[of V fs c h])
    (auto simp: answered_def quiet_def andthen_run upd_metrics_def)

text \<open>The stages of the handler as one case distinction over what verification, routing and the plugins return.\<close>

lemma process_chat_run:
  assumes "g_ctx g c = Some x" "ensure_thread_pool V th g = (Inr (), g\<lparr>g_pools := ps\<rparr>)"
    "verify (ck_steady K) (sx_api_key x) model (g_auth g) = (ra, a)" "route model (g_router g) = (node, rt)"
    "run_request_pipeline (ev_rt V) (pm_plugins (g_plugins g)) (chat_context K x model messages_json temperature max_tokens)
       (ps th) (g_world g) = pipe"
  shows "process_chat V K th c request_id model messages_json tools temperature max_tokens g =
    (case ra of
       Inl e \<Rightarrow> (Inl e, g\<lparr>g_pools := ps, g_auth := a\<rparr>)
     | Inr err \<Rightarrow>
         if err \<noteq> [] then send_json V c (ws_error V request_id ''auth_failed'' err)
           (g\<lparr>g_pools := ps, g_auth := a, g_metrics := (g_metrics g)\<lparr>m_auth_failed := m_auth_failed (g_metrics g) + 1\<rparr>\<rparr>)
         else (case node of
           None \<Rightarrow> send_json V c (ws_error V request_id ''no_backend'' ''no available backend'')
                     (g\<lparr>g_pools := ps, g_auth := a, g_router := rt\<rparr>)
         | Some n \<Rightarrow> (case pipe of
             Inl e \<Rightarrow> (Inl e, g\<lparr>g_pools := ps, g_auth := a, g_router := rt\<rparr>)
           | Inr (pr, p, w) \<Rightarrow>
               let h = g\<lparr>g_auth := a, g_router := rt, g_pools := ps(th := p), g_world := w\<rparr> in
               if \<not> pl_passed pr then
                 andthen (send_json V c [(''type'', jstr (ev_json V) ''abort''), (''request_id'', jstr (ev_json V) request_id),
                     (''status'', jint (ev_json V) (pl_abort_status pr)), (''body'', jstr (ev_json V) (pl_abort_body pr))])
                   (upd_metrics (\<lambda>m. m\<lparr>m_rate_limited := m_rate_limited m + 1\<rparr>)) h
               else submit_chat V K c x request_id n (pl_ctx pr) tools h)))"
proof -
  have pool: "andthen (ensure_thread_pool V th) k g = k (g\<lparr>g_pools := ps\<rparr>)" for k
    using assms(2) by (simp add: andthen_def bind_def)
  show ?thesis
    unfolding process_chat_def pool using assms(1,3-5)
    by (simp add: verify_key_def route_model_def on_pool_def upd_metrics_def bind_def andthen_def
      split: sum.split option.split prod.split)
qed

lemma chat_stages:
  fixes ra :: "'e + 'a list" and node :: "'n option" and pipe :: "'f + 'p \<times> 'q \<times> 's"
  obtains (raised) e where "ra = Inl e" | (refused) err where "ra = Inr err" "err \<noteq> []"
    | (nowhere) "ra = Inr []" "node = None"
    | (failed) b e where "ra = Inr []" "node = Some b" "pipe = Inl e"
    | (piped) b pr p w where "ra = Inr []" "node = Some b" "pipe = Inr (pr, p, w)"
proof (cases ra)
  case (Inr err)
  then show ?thesis using that by (cases err; cases node; cases pipe) (auto intro: prod_cases3)
qed (rule raised)

lemma piped_outcome:
  assumes "g_ctx g c = Some x"
    "(let h = g\<lparr>g_auth := a, g_router := rt, g_pools := ps(th := p), g_world := w\<rparr> in
      if \<not> pl_passed pr then
        andthen (send_json V c [(''type'', jstr (ev_json V) ''abort''), (''request_id'', jstr (ev_json V) request_id),
            (''status'', jint (ev_json V) (pl_abort_status pr)), (''body'', jstr (ev_json V) (pl_abort_body pr))])
          (upd_metrics (\<lambda>m. m\<lparr>m_rate_limited := m_rate_limited m + 1\<rparr>)) h
      else submit_chat V K c x request_id b (pl_ctx pr) tools h) = (r, g')"
  shows "(r = Inr () \<and> answered c g g') \<or> (\<exists>e. r = Inl e \<and> quiet g g') \<or>
    (pl_passed pr \<and> r = Inr () \<and> accepted c request_id b (pl_ctx pr) g g')"
proof -
  let ?h = "g\<lparr>g_auth := a, g_router := rt, g_pools := ps(th := p), g_world := w\<rparr>"
  have frame: "quiet g ?h" "accepted c request_id b (pl_ctx pr) ?h h' \<Longrightarrow> accepted c request_id b (pl_ctx pr) g h'"
      "quiet ?h h' \<Longrightarrow> quiet g h'" for h' by (simp_all add: accepted_def quiet_def)
  have ctx: "g_ctx ?h c = Some x" using assms(1) by simp
  show ?thesis
  proof (cases "pl_passed pr")
    case False
    then have "(r = Inr () \<and> answered c g g') \<or> (\<exists>e. r = Inl e \<and> quiet g g')"
      using assms(2) by (intro settled_abort[OF frame(1)]) (simp add: Let_def)
    then show ?thesis by blast
  next
    case True
    then have "submit_chat V K c x request_id b (pl_ctx pr) tools ?h = (r, g')" using assms(2) by (simp add: Let_def)
    with submit_chat_cases[OF ctx, of V K x request_id b "pl_ctx pr" tools] frame(2,3) True show ?thesis by auto
  qed
qed



section \<open>Delivery of a stream\<close>

text \<open>What the plugins make of a sequence of tokens.\<close>

fun filter_tokens ::
  "('v, 'w) lua_rt \<Rightarrow> plugin_runtime list \<Rightarrow> string list \<Rightarrow> 'v vm_pool option \<Rightarrow> 'w \<Rightarrow>
     (string list \<times> 'v vm_pool option \<times> 'w) result" where
  "filter_tokens R ps [] pool w = Inr ([], pool, w)"
| "filter_tokens R ps (t # ts) pool w =
     bindE (run_token_pipeline R ps t pool w) (\<lambda>(u, pool, w).
       bindE (filter_tokens R ps ts pool w) (\<lambda>(us, pool, w). Inr (u # us, pool, w)))"

definition token_json :: "('j, 'v, 'w) environment \<Rightarrow> string \<Rightarrow> string \<Rightarrow> 'j" where
  "token_json V rid tok = jobj (ev_json V) [(''type'', jstr (ev_json V) ''token''), (''request_id'', jstr (ev_json V) rid),
     (''content'', jstr (ev_json V) tok)]"

definition done_json :: "('j, 'v, 'w) environment \<Rightarrow> string \<Rightarrow> 'j" where
  "done_json V rid = jobj (ev_json V) [(''type'', jstr (ev_json V) ''done''), (''request_id'', jstr (ev_json V) rid)]"

text \<open>What the callbacks need of the state, and what they leave alone.\<close>

definition callback_ready :: "loop \<Rightarrow> chat_cb \<Rightarrow> session_ctx \<Rightarrow> ('v, 'w) gateway \<Rightarrow> bool" where
  "callback_ready th cb x g \<longleftrightarrow> g_pools g th \<noteq> None \<and> g_ctx g (cb_conn cb) = Some x \<and> cb_cancel cb \<noteq> cb_first cb"

definition callback_frame :: "chat_cb \<Rightarrow> ('v, 'w) gateway \<Rightarrow> ('v, 'w) gateway \<Rightarrow> bool" where
  "callback_frame cb g g' \<longleftrightarrow> g_flags g' (cb_cancel cb) = g_flags g (cb_cancel cb) \<and> g_ctx g' = g_ctx g \<and>
     g_plugins g' = g_plugins g \<and> g_sent g' = g_sent g \<and> g_submitted g' = g_submitted g"

lemma with_vm_some: "with_vm body pool w = Inr (a, pool', w') \<Longrightarrow> pool' \<noteq> None"
  by (auto simp: with_vm_def bindE_eq_Inr split: option.splits)

lemma on_token_step:
  assumes "callback_ready th cb x g" "\<not> g_flags g (cb_cancel cb)"
    "run_token_pipeline (ev_rt V) (pm_plugins (g_plugins g)) tok (g_pools g th) (g_world g) = Inr (u, pool, w)"
    "u \<noteq> [] \<Longrightarrow> jdump (ev_json V) (token_json V (cb_request_id cb) u) = Inr (enc u)"
  shows "\<exists>g'. on_token V K th cb tok g = (Inr (), g') \<and> callback_ready th cb x g' \<and> callback_frame cb g g' \<and>
    g_pools g' th = pool \<and> g_world g' = w \<and> g_flags g' (cb_first cb) \<and>
    g_tasks g' = g_tasks g @ (if u = [] then [] else [(sx_loop x, SendTask (cb_conn cb) (enc u))]) \<and>
    m_active_requests (g_metrics g') = m_active_requests (g_metrics g) \<and>
    m_success_count (g_metrics g') = m_success_count (g_metrics g) \<and>
    m_first_token_count (g_metrics g') = m_first_token_count (g_metrics g) + (if g_flags g (cb_first cb) then 0 else 1)"
proof -
  have pool: "pool \<noteq> None" using assms(3) with_vm_some by (auto simp: run_token_pipeline_def)
  obtain p where p: "g_pools g th = Some p" using assms(1) by (auto simp: callback_ready_def)
  show ?thesis
    using assms p pool
    by (cases "u = []"; cases "g_flags g (cb_first cb)")
      (simp_all add: on_token_def ensure_thread_pool_def note_first_token_def on_pool_def bind_def andthen_def
        Let_def ws_send_json_def ws_send_def queue_in_loop_def token_json_def[symmetric] callback_ready_def callback_frame_def)
qed

lemma on_token_cancelled:
  "callback_ready th cb x g \<Longrightarrow> g_flags g (cb_cancel cb) \<Longrightarrow> on_token V K th cb tok g = (Inr (), g)"
  by (auto simp: on_token_def ensure_thread_pool_def bind_def andthen_def callback_ready_def)

lemma on_done_step:
  assumes "callback_ready th cb x g"
    "\<not> g_flags g (cb_cancel cb) \<Longrightarrow>
       run_done_pipeline (ev_rt V) (pm_plugins (g_plugins g)) (g_pools g th) (g_world g) = Inr ((), pool, w)"
    "jdump (ev_json V) (done_json V (cb_request_id cb)) = Inr fin"
  shows "\<exists>g'. on_done V K th cb g = (Inr (), g') \<and> callback_frame cb g g' \<and>
    g_tasks g' = g_tasks g @ [(sx_loop x, SendTask (cb_conn cb) fin), (cb_loop cb, EraseTask (cb_conn cb) (cb_request_id cb))] \<and>
    m_active_requests (g_metrics g') = m_active_requests (g_metrics g) - 1 \<and>
    m_success_count (g_metrics g') = m_success_count (g_metrics g) + 1 \<and>
    m_first_token_count (g_metrics g') = m_first_token_count (g_metrics g)"
proof -
  obtain p where p: "g_pools g th = Some p" using assms(1) by (auto simp: callback_ready_def)
  show ?thesis
    using assms p
    by (cases "g_flags g (cb_cancel cb)")
      (simp_all add: on_done_def ensure_thread_pool_def on_pool_def bind_def andthen_def upd_metrics_def
        ws_send_json_def ws_send_def queue_in_loop_def done_json_def[symmetric] callback_ready_def callback_frame_def)
qed

lemma filter_tokens_pool:
  "filter_tokens R ps ts pool w = Inr (us, pool', w') \<Longrightarrow> pool \<noteq> None \<Longrightarrow> pool' \<noteq> None"
proof (induction ts arbitrary: pool w us)
  case (Cons t ts)
  then obtain u p1 w1 us' where "run_token_pipeline R ps t pool w = Inr (u, p1, w1)"
      "filter_tokens R ps ts p1 w1 = Inr (us', pool', w')"
    by (auto simp: bindE_eq_Inr)
  then show ?case using Cons.IH with_vm_some by (metis run_token_pipeline_def)
qed simp

lemma deliver_tokens:
  assumes "callback_ready th cb x g" "\<not> g_flags g (cb_cancel cb)"
    "filter_tokens (ev_rt V) (pm_plugins (g_plugins g)) toks (g_pools g th) (g_world g) = Inr (us, pool, w)"
    "\<And>u. u \<in> set us \<Longrightarrow> u \<noteq> [] \<Longrightarrow> jdump (ev_json V) (token_json V (cb_request_id cb) u) = Inr (enc u)"
  shows "\<exists>g'. deliver_all V K th cb (map Token toks @ evs) g = deliver_all V K th cb evs g' \<and>
    callback_ready th cb x g' \<and> callback_frame cb g g' \<and> g_pools g' th = pool \<and> g_world g' = w \<and>
    g_tasks g' = g_tasks g @ map (\<lambda>u. (sx_loop x, SendTask (cb_conn cb) (enc u))) (filter (\<lambda>u. u \<noteq> []) us) \<and>
    m_active_requests (g_metrics g') = m_active_requests (g_metrics g) \<and>
    m_success_count (g_metrics g') = m_success_count (g_metrics g) \<and>
    m_first_token_count (g_metrics g') =
      m_first_token_count (g_metrics g) + (if toks = [] \<or> g_flags g (cb_first cb) then 0 else 1)"
  using assms
proof (induction toks arbitrary: g us)
  case Nil
  then show ?case by (intro exI[of _ g]) (simp add: callback_frame_def)
next
  case (Cons t ts)
  obtain u p1 w1 us' where t: "run_token_pipeline (ev_rt V) (pm_plugins (g_plugins g)) t (g_pools g th) (g_world g) = Inr (u, p1, w1)"
      and ts: "filter_tokens (ev_rt V) (pm_plugins (g_plugins g)) ts p1 w1 = Inr (us', pool, w)" and us: "us = u # us'"
    using Cons.prems(3) by (auto simp: bindE_eq_Inr)
  obtain g1 where g1: "on_token V K th cb t g = (Inr (), g1)" "callback_ready th cb x g1" "callback_frame cb g g1"
      "g_pools g1 th = p1" "g_world g1 = w1" "g_flags g1 (cb_first cb)"
      "g_tasks g1 = g_tasks g @ (if u = [] then [] else [(sx_loop x, SendTask (cb_conn cb) (enc u))])"
      "m_active_requests (g_metrics g1) = m_active_requests (g_metrics g)"
      "m_success_count (g_metrics g1) = m_success_count (g_metrics g)"
      "m_first_token_count (g_metrics g1) = m_first_token_count (g_metrics g) + (if g_flags g (cb_first cb) then 0 else 1)"
    using on_token_step[OF Cons.prems(1,2) t, of enc] Cons.prems(4) us by auto
  have f: "\<not> g_flags g1 (cb_cancel cb)" "pm_plugins (g_plugins g1) = pm_plugins (g_plugins g)"
    using g1(3) Cons.prems(2) by (simp_all add: callback_frame_def)
  obtain g' where g': "deliver_all V K th cb (map Token ts @ evs) g1 = deliver_all V K th cb evs g'"
      "callback_ready th cb x g'" "callback_frame cb g1 g'" "g_pools g' th = pool" "g_world g' = w"
      "g_tasks g' = g_tasks g1 @ map (\<lambda>u. (sx_loop x, SendTask (cb_conn cb) (enc u))) (filter (\<lambda>u. u \<noteq> []) us')"
      "m_active_requests (g_metrics g') = m_active_requests (g_metrics g1)"
      "m_success_count (g_metrics g') = m_success_count (g_metrics g1)"
      "m_first_token_count (g_metrics g') = m_first_token_count (g_metrics g1) + (if ts = [] \<or> g_flags g1 (cb_first cb) then 0 else 1)"
    using Cons.IH[OF g1(2) f(1), of us'] ts f(2) g1(4,5) us Cons.prems(4) by auto
  have "deliver_all V K th cb (map Token (t # ts) @ evs) g = deliver_all V K th cb evs g'"
    using g1(1) g'(1) by (simp add: deliver_def andthen_def bind_def)
  moreover have "callback_frame cb g g'" using g1(3) g'(3) by (simp add: callback_frame_def)
  ultimately show ?case using g' g1 us by (intro exI[of _ g']) simp
qed

lemma deliver_cancelled:
  "callback_ready th cb x g \<Longrightarrow> g_flags g (cb_cancel cb) \<Longrightarrow>
     deliver_all V K th cb (map Token toks @ evs) g = deliver_all V K th cb evs g"
  by (induction toks) (simp_all add: deliver_def on_token_cancelled andthen_def bind_def)

text \<open>C6. A finished stream reaches its client in order and once: for the events of a stream of content
  tokens and its end, the connection's event loop gets one message for each token that the plugins do not
  suppress, as they rewrote it and in order, then the completion message and then the removal of the
  request; the active gauge goes down by one, the successes up by one, and the first token is timed once.
  After a cancellation no token is sent any more, only the completion.\<close>

theorem stream_delivery:
  assumes "callback_ready th cb x g" "jdump (ev_json V) (done_json V (cb_request_id cb)) = Inr fin"
    "filter_tokens (ev_rt V) (pm_plugins (g_plugins g)) toks (g_pools g th) (g_world g) = Inr (us, pool, w)"
    "\<And>u. u \<in> set us \<Longrightarrow> u \<noteq> [] \<Longrightarrow> jdump (ev_json V) (token_json V (cb_request_id cb) u) = Inr (enc u)"
    "run_done_pipeline (ev_rt V) (pm_plugins (g_plugins g)) pool w = Inr ((), pool', w')"
  shows "\<exists>g'. deliver_all V K th cb (map Token toks @ [Done]) g = (Inr (), g') \<and>
    g_tasks g' = g_tasks g @
      (if g_flags g (cb_cancel cb) then []
       else map (\<lambda>u. (sx_loop x, SendTask (cb_conn cb) (enc u))) (filter (\<lambda>u. u \<noteq> []) us)) @
      [(sx_loop x, SendTask (cb_conn cb) fin), (cb_loop cb, EraseTask (cb_conn cb) (cb_request_id cb))] \<and>
    m_active_requests (g_metrics g') = m_active_requests (g_metrics g) - 1 \<and>
    m_success_count (g_metrics g') = m_success_count (g_metrics g) + 1 \<and>
    m_first_token_count (g_metrics g') = m_first_token_count (g_metrics g) +
      (if toks = [] \<or> g_flags g (cb_first cb) \<or> g_flags g (cb_cancel cb) then 0 else 1)"
proof (cases "g_flags g (cb_cancel cb)")
  case True
  obtain g' where "on_done V K th cb g = (Inr (), g')"
      "g_tasks g' = g_tasks g @ [(sx_loop x, SendTask (cb_conn cb) fin), (cb_loop cb, EraseTask (cb_conn cb) (cb_request_id cb))]"
      "m_active_requests (g_metrics g') = m_active_requests (g_metrics g) - 1"
      "m_success_count (g_metrics g') = m_success_count (g_metrics g) + 1"
      "m_first_token_count (g_metrics g') = m_first_token_count (g_metrics g)"
    using on_done_step[OF assms(1) _ assms(2), where K = K and pool = pool and w = w] True by auto
  then show ?thesis using True deliver_cancelled[OF assms(1) True, of V K toks "[Done]"]
    by (simp add: deliver_def andthen_def bind_def)
next
  case False
  obtain g1 where g1: "deliver_all V K th cb (map Token toks @ [Done]) g = deliver_all V K th cb [Done] g1"
      "callback_ready th cb x g1" "callback_frame cb g g1" "g_pools g1 th = pool" "g_world g1 = w"
      "g_tasks g1 = g_tasks g @ map (\<lambda>u. (sx_loop x, SendTask (cb_conn cb) (enc u))) (filter (\<lambda>u. u \<noteq> []) us)"
      "m_active_requests (g_metrics g1) = m_active_requests (g_metrics g)"
      "m_success_count (g_metrics g1) = m_success_count (g_metrics g)"
      "m_first_token_count (g_metrics g1) = m_first_token_count (g_metrics g) + (if toks = [] \<or> g_flags g (cb_first cb) then 0 else 1)"
    using deliver_tokens[OF assms(1) False assms(3,4), of K "[Done]"] by auto
  have "run_done_pipeline (ev_rt V) (pm_plugins (g_plugins g1)) (g_pools g1 th) (g_world g1) = Inr ((), pool', w')"
    using assms(5) g1(3,4,5) by (simp add: callback_frame_def)
  from on_done_step[OF g1(2) this assms(2), where K = K]
  obtain g' where "on_done V K th cb g1 = (Inr (), g')"
      "g_tasks g' = g_tasks g1 @ [(sx_loop x, SendTask (cb_conn cb) fin), (cb_loop cb, EraseTask (cb_conn cb) (cb_request_id cb))]"
      "m_active_requests (g_metrics g') = m_active_requests (g_metrics g1) - 1"
      "m_success_count (g_metrics g') = m_success_count (g_metrics g1) + 1"
      "m_first_token_count (g_metrics g') = m_first_token_count (g_metrics g1)"
    by blast
  then show ?thesis using g1 False by (simp add: deliver_def andthen_def bind_def)
qed

theorem stream_delivery_witness:
  "\<exists>g'. deliver_all demo_V demo_K 1 \<lparr>cb_conn = 0, cb_request_id = ''r'', cb_cancel = 0, cb_first = 1, cb_loop = 1, cb_start = 0\<rparr>
       (map Token [''Hi'', '' you''] @ [Done]) demo_gw = (Inr (), g') \<and>
     g_tasks g' = [(1, SendTask 0 ''Hi''), (1, SendTask 0 '' you''), (1, SendTask 0 ''done''), (1, EraseTask 0 ''r'')]"
proof -
  let ?cb = "\<lparr>cb_conn = 0, cb_request_id = ''r'', cb_cancel = 0, cb_first = 1, cb_loop = 1, cb_start = 0\<rparr>"
  have start: "pool_reach 1 [] LTable (pool_new 1 [] LTable, [])" by (rule pool_reach_start)
  obtain p1 where p1: "with_vm (\<lambda>m. Inr (''Hi'', m)) (Some (pool_new 1 [] LTable)) () = Inr (''Hi'', Some p1, ())"
      "pool_reach 1 [] LTable (p1, [])" using with_vm_pure[OF start zero_less_one, where a = "''Hi''" and w = "()"] by blast
  obtain p2 where p2: "with_vm (\<lambda>m. Inr ('' you'', m)) (Some p1) () = Inr ('' you'', Some p2, ())"
      "pool_reach 1 [] LTable (p2, [])" using with_vm_pure[OF p1(2) zero_less_one, where a = "'' you''" and w = "()"] by blast
  obtain p3 where p3: "with_vm (\<lambda>m. Inr ((), m)) (Some p2) () = Inr ((), Some p3, ())"
    using with_vm_pure[OF p2(2) zero_less_one, where a = "()" and w = "()"] by blast
  have "callback_ready 1 ?cb demo_session demo_gw" by (simp add: callback_ready_def)
  moreover have "jdump (ev_json demo_V) (done_json demo_V (cb_request_id ?cb)) = Inr ''done''"
    by (simp add: done_json_def demo_dump_def)
  moreover have "filter_tokens (ev_rt demo_V) (pm_plugins (g_plugins demo_gw)) [''Hi'', '' you''] (g_pools demo_gw 1) (g_world demo_gw) =
      Inr ([''Hi'', '' you''], Some p2, ())"
    using p1 p2 by (simp add: run_token_pipeline_def)
  moreover have "jdump (ev_json demo_V) (token_json demo_V (cb_request_id ?cb) u) = Inr u" for u
    by (simp add: token_json_def demo_dump_def)
  moreover have "run_done_pipeline (ev_rt demo_V) (pm_plugins (g_plugins demo_gw)) (Some p2) () = Inr ((), Some p3, ())"
    using p3 by (simp add: run_done_pipeline_def)
  ultimately show ?thesis
    using stream_delivery[of 1 ?cb demo_session demo_gw demo_V "''done''" "[''Hi'', '' you'']" "[''Hi'', '' you'']" "Some p2" "()"
        "\<lambda>u. u" "Some p3" "()" demo_K]
    by (auto simp: demo_session_def)
qed

end
