(* ===== verification/Ws_Routing.thy ===== *)
theory Ws_Routing
  imports Ws_Chat
begin

text \<open>
  Routing between WebSocket connections (\<open>src/ws_chat_controller.cpp\<close>): tool calls to executors and their
  results back, calls between agents through the cache and the agent registry, cache invalidation and
  context expansion.
\<close>

section \<open>Tools\<close>

definition live_executors :: "('v, 'w) gateway \<Rightarrow> conn list" where
  "live_executors g = filter (\<lambda>e. g_status g e \<noteq> Disconnected) (g_executors g)"

definition offers :: "('v, 'w) gateway \<Rightarrow> string \<Rightarrow> conn \<Rightarrow> bool" where
  "offers g name e \<longleftrightarrow> (case g_ctx g e of None \<Rightarrow> False | Some x \<Rightarrow> name \<in> set (sx_tools x))"

definition executor_pool :: "('v, 'w) gateway \<Rightarrow> string \<Rightarrow> conn list" where
  "executor_pool g name =
     (let capable = filter (offers g name) (live_executors g) in if capable = [] then live_executors g else capable)"

definition pending_key :: "string \<Rightarrow> string \<Rightarrow> string" where
  "pending_key request_id call_id = request_id @ '':'' @ call_id"

definition tool_call_fields ::
  "('j, 'v, 'w) environment \<Rightarrow> string \<Rightarrow> string \<Rightarrow> string \<Rightarrow> 'j \<Rightarrow> (string \<times> 'j) list" where
  "tool_call_fields V request_id call_id name args =
     [(''type'', jstr (ev_json V) ''tool_call''), (''request_id'', jstr (ev_json V) request_id),
      (''call_id'', jstr (ev_json V) call_id), (''name'', jstr (ev_json V) name), (''arguments'', args)]"

definition route_tool_call ::
  "('j, 'v, 'w) environment \<Rightarrow> conn \<Rightarrow> string \<Rightarrow> string \<Rightarrow> string \<Rightarrow> string \<Rightarrow> (('v, 'w) gateway, unit) op" where
  "route_tool_call V sender request_id call_id name arguments =
     andthen (modify (\<lambda>g. g\<lparr>g_executors := live_executors g\<rparr>))
     (bind (getf (\<lambda>g. executor_pool g name)) (\<lambda>pool.
      if pool = [] then
        ws_send_json V sender [(''type'', jstr (ev_json V) ''error''), (''request_id'', jstr (ev_json V) request_id),
          (''code'', jstr (ev_json V) ''no_executor'')]
      else
        andthen (modify (\<lambda>g. g\<lparr>g_exec_rr := (g_exec_rr g + 1) mod length pool\<rparr>))
        (bind (getf (\<lambda>g. pool ! g_exec_rr g)) (\<lambda>executor.
         andthen (modify (\<lambda>g. g\<lparr>g_pending_tools := um_set (pending_key request_id call_id) sender (g_pending_tools g)\<rparr>))
         (bind (lift (jparse (ev_json V) arguments)) (\<lambda>args.
          ws_send_json V executor (tool_call_fields V request_id call_id name args)))))))"

definition tool_error :: "('j, 'v, 'w) environment \<Rightarrow> string \<Rightarrow> string \<Rightarrow> (string \<times> 'j) list" where
  "tool_error V request_id code =
     [(''type'', jstr (ev_json V) ''error''), (''request_id'', jstr (ev_json V) request_id), (''code'', jstr (ev_json V) code)]"

definition tool_result_fields :: "('j, 'v, 'w) environment \<Rightarrow> string \<Rightarrow> string \<Rightarrow> string \<Rightarrow> (string \<times> 'j) list" where
  "tool_result_fields V request_id call_id content =
     [(''type'', jstr (ev_json V) ''tool_result''), (''request_id'', jstr (ev_json V) request_id),
      (''call_id'', jstr (ev_json V) call_id), (''content'', jstr (ev_json V) content)]"

definition route_tool_result ::
  "('j, 'v, 'w) environment \<Rightarrow> conn \<Rightarrow> string \<Rightarrow> string \<Rightarrow> string \<Rightarrow> (('v, 'w) gateway, unit) op" where
  "route_tool_result V executor request_id call_id content =
     bind (getf (\<lambda>g. um_find (g_pending_tools g) (pending_key request_id call_id))) (\<lambda>target.
     case target of
       None \<Rightarrow> send_json V executor (tool_error V request_id ''no_pending'')
     | Some t \<Rightarrow>
         andthen (modify (\<lambda>g. g\<lparr>g_pending_tools := um_erase (pending_key request_id call_id) (g_pending_tools g)\<rparr>))
         (bind (getf (\<lambda>g. g_status g t)) (\<lambda>status.
          if status = Disconnected then send_json V executor (tool_error V request_id ''client_gone'')
          else send_json V t (tool_result_fields V request_id call_id content))))"

section \<open>Agents\<close>

definition on_coord :: "(coord \<Rightarrow> exn option \<times> coord) \<Rightarrow> (('v, 'w) gateway, unit) op" where
  "on_coord f = raising (\<lambda>g. case f (g_coord g) of (e, co) \<Rightarrow> (e, g\<lparr>g_coord := co\<rparr>))"

definition cached_turn :: "clocks \<Rightarrow> string \<Rightarrow> string \<Rightarrow> string \<Rightarrow> cache_entry \<Rightarrow> session_turn" where
  "cached_turn K call_id capability input e =
     \<lparr>t_call_id = call_id, t_agent_id = e_agent_id e, t_capability = capability, t_input_summary = take 200 input,
      t_output_summary = e_output_summary e, t_cache_key = e_key e, t_timestamp_ms = ck_system K,
      t_confidence = e_confidence e\<rparr>"

definition cached_fields :: "('j, 'v, 'w) environment \<Rightarrow> string \<Rightarrow> query_result \<Rightarrow> (string \<times> 'j) list" where
  "cached_fields V call_id q =
     (let J = ev_json V; e = qr_entry q in
      [(''type'', jstr J ''agent_result''), (''call_id'', jstr J call_id), (''agent_id'', jstr J (e_agent_id e)),
       (''output'', jstr J (e_output_summary e)), (''confidence'', jnum J (e_confidence e)),
       (''cache_status'', jstr J (if qr_stale q then ''stale'' else ''fresh'')),
       (''cache_layer'', jint J (case qr_layer q of None \<Rightarrow> 0 | Some l \<Rightarrow> layer_code l)),
       (''context_ref'', jstr J (e_full_ref e))])"

text \<open>The cache stage: \<open>True\<close> means the call was answered.\<close>

definition agent_cache_stage ::
  "('j, 'v, 'w) environment \<Rightarrow> clocks \<Rightarrow> conn \<Rightarrow> string \<Rightarrow> string \<Rightarrow> string \<Rightarrow> string \<Rightarrow> string \<Rightarrow> (('v, 'w) gateway, bool) op" where
  "agent_cache_stage V K caller call_id target_agent_id capability input session_id =
     bind (\<lambda>g. case co_query (ck_steady K div 1000000) (ck_system K)
                    (if target_agent_id = [] then ''any'' else target_agent_id) capability (ev_sha256 V input) session_id (g_coord g) of
                 Inl e \<Rightarrow> (Inl e, g) | Inr (q, co) \<Rightarrow> (Inr q, g\<lparr>g_coord := co\<rparr>)) (\<lambda>q.
     if \<not> qr_hit q then ret False
     else andthen (ws_send_json V caller (cached_fields V call_id q))
       (andthen (modify (\<lambda>g. g\<lparr>g_coord := co_append_turn session_id (cached_turn K call_id capability input (qr_entry q)) (g_coord g)\<rparr>))
         (ret True)))"

definition find_agent :: "string \<Rightarrow> string \<Rightarrow> agent_registry \<Rightarrow> agent_record option" where
  "find_agent target_agent_id capability reg =
     (case (if target_agent_id = [] then None else agent_find target_agent_id reg) of
        Some r \<Rightarrow> Some r
      | None \<Rightarrow> agent_route capability reg)"

definition route_agent_call ::
  "('j, 'v, 'w) environment \<Rightarrow> clocks \<Rightarrow> conn \<Rightarrow> string \<Rightarrow> string \<Rightarrow> string \<Rightarrow> string \<Rightarrow> string \<Rightarrow> bool \<Rightarrow> (('v, 'w) gateway, unit) op" where
  "route_agent_call V K caller call_id target_agent_id capability input session_id bypass_cache =
     (let J = ev_json V in
     bind (if bypass_cache then ret False
           else agent_cache_stage V K caller call_id target_agent_id capability input session_id) (\<lambda>answered.
     if answered then ret ()
     else bind (getf (\<lambda>g. find_agent target_agent_id capability (g_registry g))) (\<lambda>target.
     case target of
       None \<Rightarrow> ws_send_json V caller [(''type'', jstr J ''error''), (''call_id'', jstr J call_id), (''code'', jstr J ''no_agent''),
                 (''message'', jstr J (''no agent available for capability: '' @ capability))]
     | Some r \<Rightarrow>
         andthen (modify (\<lambda>g. g\<lparr>g_pending_agents := um_set call_id caller (g_pending_agents g)\<rparr>))
         (bind (lift (jparse J (if input = [] then ''{}'' else input))) (\<lambda>input_json.
          bind (lift (jdump J (jobj J [(''type'', jstr J ''agent_call''), (''call_id'', jstr J call_id),
                  (''caller_session'', jstr J session_id), (''capability'', jstr J capability), (''input'', input_json),
                  (''timeout_ms'', jint J 30000)]))) (ws_send_to_session (ar_session_id r)))))))"

definition result_entry :: "('j, 'v, 'w) environment \<Rightarrow> session_ctx option \<Rightarrow> string \<Rightarrow> string \<Rightarrow> double \<Rightarrow> cache_entry" where
  "result_entry V callee call_id output confidence =
     default_entry\<lparr>e_key := ''agent:'' @ (case callee of None \<Rightarrow> ''unknown'' | Some x \<Rightarrow> sx_agent_name x) @ '':agent_call:'' @ ev_sha256 V output,
       e_agent_id := (case callee of None \<Rightarrow> [] | Some x \<Rightarrow> sx_session_id x), e_capability := ''agent_call'',
       e_input_hash := call_id, e_output := output, e_output_summary := take 200 output, e_confidence := confidence,
       e_confidence_decay := 2 / 100, e_base_ttl_seconds := 600, e_status := (if confidence > 3 / 10 then FRESH else STALE)\<rparr>"

definition result_turn :: "clocks \<Rightarrow> session_ctx option \<Rightarrow> string \<Rightarrow> cache_entry \<Rightarrow> session_turn" where
  "result_turn K callee call_id e =
     \<lparr>t_call_id = call_id, t_agent_id = (case callee of None \<Rightarrow> [] | Some x \<Rightarrow> sx_agent_name x), t_capability = ''agent_call'',
      t_input_summary = [], t_output_summary = e_output_summary e, t_cache_key = e_key e, t_timestamp_ms = ck_system K,
      t_confidence = e_confidence e\<rparr>"

definition agent_error :: "('j, 'v, 'w) environment \<Rightarrow> string \<Rightarrow> string \<Rightarrow> (string \<times> 'j) list" where
  "agent_error V call_id code =
     [(''type'', jstr (ev_json V) ''error''), (''call_id'', jstr (ev_json V) call_id), (''code'', jstr (ev_json V) code)]"

definition agent_result_fields ::
  "('j, 'v, 'w) environment \<Rightarrow> session_ctx option \<Rightarrow> string \<Rightarrow> 'j \<Rightarrow> double \<Rightarrow> cache_entry \<Rightarrow> (string \<times> 'j) list" where
  "agent_result_fields V callee call_id out confidence e =
     (let J = ev_json V in
      [(''type'', jstr J ''agent_result''), (''call_id'', jstr J call_id),
       (''agent_id'', jstr J (case callee of None \<Rightarrow> [] | Some x \<Rightarrow> sx_agent_name x)), (''output'', out),
       (''confidence'', jnum J confidence), (''cache_status'', jstr J ''fresh''), (''context_ref'', jstr J (e_full_ref e))])"

definition route_agent_result ::
  "('j, 'v, 'w) environment \<Rightarrow> clocks \<Rightarrow> conn \<Rightarrow> string \<Rightarrow> string \<Rightarrow> double \<Rightarrow> (('v, 'w) gateway, unit) op" where
  "route_agent_result V K callee call_id output confidence =
     bind (getf (\<lambda>g. um_find (g_pending_agents g) call_id)) (\<lambda>pending.
     case pending of
       None \<Rightarrow> ws_send_json V callee (agent_error V call_id ''no_pending'' @
                 [(''message'', jstr (ev_json V) ''no pending agent call for this call_id'')])
     | Some caller \<Rightarrow>
         andthen (modify (\<lambda>g. g\<lparr>g_pending_agents := um_erase call_id (g_pending_agents g)\<rparr>))
         (bind (getf (\<lambda>g. (g_status g caller, g_ctx g caller, g_ctx g callee))) (\<lambda>(status, caller_ctx, callee_ctx).
          if status = Disconnected then ws_send_json V callee (agent_error V call_id ''caller_gone'')
          else
            let e = result_entry V callee_ctx call_id output confidence in
            andthen (on_coord (co_write (ev_json V) (ev_l3 V) (ck_system K) (ck_system K) e))
            (andthen (case caller_ctx of
                        None \<Rightarrow> ret ()
                      | Some x \<Rightarrow> modify (\<lambda>g. g\<lparr>g_coord :=
                          co_append_turn (sx_session_id x) (result_turn K callee_ctx call_id e) (g_coord g)\<rparr>))
             (bind (lift (jparse (ev_json V) (if output = [] then ''{}'' else output))) (\<lambda>out.
              ws_send_json V caller (agent_result_fields V callee_ctx call_id out confidence e)))))))"

section \<open>Cache commands\<close>

definition handle_cache_invalidate ::
  "('j, 'v, 'w) environment \<Rightarrow> conn \<Rightarrow> string \<Rightarrow> string \<Rightarrow> bool \<Rightarrow> (('v, 'w) gateway, unit) op" where
  "handle_cache_invalidate V sender key reason cascade =
     andthen (on_coord (co_invalidate (ev_json V) key reason cascade))
       (ws_send_json V sender [(''type'', jstr (ev_json V) ''cache_invalidated''), (''key'', jstr (ev_json V) key),
          (''cascade'', jbool (ev_json V) cascade)])"

definition handle_context_expand ::
  "('j, 'v, 'w) environment \<Rightarrow> conn \<Rightarrow> string \<Rightarrow> string \<Rightarrow> u64 \<Rightarrow> (('v, 'w) gateway, unit) op" where
  "handle_context_expand V requester call_id ref max_tokens =
     (let J = ev_json V in
     bind (getf (\<lambda>g. co_expand_context ref max_tokens (g_coord g))) (\<lambda>expanded.
     case expanded of
       Some x \<Rightarrow> ws_send_json V requester [(''type'', jstr J ''context_expand_result''), (''call_id'', jstr J call_id), (''ref'', jstr J ref),
                   (''full_text'', jstr J (x_full_text x)), (''total_tokens'', jint J (int (x_total_tokens x))),
                   (''truncated'', jbool J (x_truncated x))]
     | None \<Rightarrow> ws_send_json V requester (agent_error V call_id ''not_found'' @
                 [(''message'', jstr J (''context ref not found: '' @ ref))])))"

end
