(* ===== verification/Tool_Trip.thy ===== *)
theory Tool_Trip
  imports Ws_Routing
begin

text \<open>
  The way of a tool call through the gateway (\<open>route_tool_call\<close> and \<open>route_tool_result\<close> of
  \<open>src/ws_chat_controller.cpp\<close>): to an executor that can serve it, and its result back to the client
  that asked, once.
\<close>

lemma executor_pool_live: "e \<in> set (executor_pool g name) \<Longrightarrow> e \<in> set (g_executors g) \<and> g_status g e \<noteq> Disconnected"
  by (auto simp: executor_pool_def live_executors_def Let_def split: if_splits)

lemma executor_pool_offers:
  "e \<in> set (executor_pool g name) \<Longrightarrow> e' \<in> set (g_executors g) \<Longrightarrow> g_status g e' \<noteq> Disconnected \<Longrightarrow> offers g name e' \<Longrightarrow>
     offers g name e"
  by (auto simp: executor_pool_def live_executors_def Let_def filter_empty_conv split: if_splits)

lemma executor_pool_empty: "executor_pool g name = [] \<longleftrightarrow> live_executors g = []"
  by (auto simp: executor_pool_def Let_def)

lemma live_twice [simp]: "live_executors (g\<lparr>g_executors := live_executors g\<rparr>) = live_executors g"
  by (simp add: live_executors_def)

lemma executor_pool_live_eq [simp]: "executor_pool (g\<lparr>g_executors := live_executors g\<rparr>) name = executor_pool g name"
proof -
  have "offers (g\<lparr>g_executors := live_executors g\<rparr>) name = offers g name" by (simp add: offers_def fun_eq_iff)
  then show ?thesis by (simp only: executor_pool_def live_twice)
qed

text \<open>What the call does once an executor is chosen.\<close>

lemma route_tool_call_to:
  assumes "executor_pool g name \<noteq> []" "jparse (ev_json V) arguments = Inr args"
    "jdump (ev_json V) (jobj (ev_json V) (tool_call_fields V request_id call_id name args)) = Inr call"
    "e = executor_pool g name ! ((g_exec_rr g + 1) mod length (executor_pool g name))" "g_ctx g e = Some x"
  shows "\<exists>g1. route_tool_call V sender request_id call_id name arguments g = (Inr (), g1) \<and>
    g_tasks g1 = g_tasks g @ [(sx_loop x, SendTask e call)] \<and> g_sent g1 = g_sent g \<and>
    g_executors g1 = live_executors g \<and> g_status g1 = g_status g \<and>
    g_exec_rr g1 = (g_exec_rr g + 1) mod length (executor_pool g name) \<and>
    g_pending_tools g1 = um_set (pending_key request_id call_id) sender (g_pending_tools g)"
  using assms
  by (simp add: route_tool_call_def andthen_def ws_send_json_def ws_send_def queue_in_loop_def bind_def)

lemma route_tool_result_none:
  "um_find (g_pending_tools g) (pending_key request_id call_id) = None \<Longrightarrow>
     route_tool_result V w request_id call_id content g = send_json V w (tool_error V request_id ''no_pending'') g"
  by (simp add: route_tool_result_def)

lemma route_tool_result_to:
  assumes "um_find (g_pending_tools g) (pending_key request_id call_id) = Some t" "g_status g t \<noteq> Disconnected"
    "jdump (ev_json V) (jobj (ev_json V) (tool_result_fields V request_id call_id content)) = Inr reply"
  shows "\<exists>g'. route_tool_result V w request_id call_id content g = (Inr (), g') \<and>
    g_sent g' = g_sent g @ [(t, reply)] \<and> g_tasks g' = g_tasks g \<and>
    g_pending_tools g' = um_erase (pending_key request_id call_id) (g_pending_tools g)"
  using assms by (simp add: route_tool_result_def send_json_def conn_send_def)



end
