(* ===== verification/Agent_Trip.thy ===== *)
theory Agent_Trip
  imports Ws_Routing
begin

text \<open>
  The way of a call between agents through the gateway (\<open>route_agent_call\<close> and \<open>route_agent_result\<close> of
  \<open>src/ws_chat_controller.cpp\<close>): past the cache to the agent the registry chooses, and its result into the
  cache and back to the caller, once.
\<close>

lemma agent_cache_miss:
  assumes "agent_cache_stage V K caller call_id target cap input sid g = (Inr False, h)"
  shows "\<exists>co. h = g\<lparr>g_coord := co\<rparr>"
  using assms
  by (auto simp: agent_cache_stage_def bind_def andthen_def split: sum.splits prod.splits if_splits)

text \<open>The agent for a call: the one asked for, else the least loaded of those that offer the capability.\<close>

definition right_agent :: "string \<Rightarrow> string \<Rightarrow> agent_registry \<Rightarrow> agent_record \<Rightarrow> bool" where
  "right_agent target cap reg r \<longleftrightarrow>
     target \<noteq> [] \<and> agent_find target reg = Some r \<or>
     (target = [] \<or> agent_find target reg = None) \<and> ar_healthy r \<and> cap \<in> set (cap_names r) \<and>
       (\<exists>sid. agent_find sid reg = Some r) \<and>
       (\<forall>sid r'. agent_find sid reg = Some r' \<and> ar_healthy r' \<and> cap \<in> set (cap_names r') \<longrightarrow>
          ar_active_calls r \<le> ar_active_calls r')"

lemma find_agent_right:
  assumes "reg_ok reg" "find_agent target cap reg = Some r"
  shows "right_agent target cap reg r"
proof (cases "target \<noteq> [] \<and> agent_find target reg \<noteq> None")
  case True
  then show ?thesis using assms(2) by (auto simp: find_agent_def right_agent_def)
next
  case False
  then have "agent_route cap reg = Some r" using assms(2) by (auto simp: find_agent_def split: if_splits)
  then show ?thesis using agent_route_min_load[OF assms(1), of cap r] False by (auto simp: right_agent_def)
qed

definition agent_call_fields ::
  "('j, 'v, 'w) environment \<Rightarrow> string \<Rightarrow> string \<Rightarrow> string \<Rightarrow> 'j \<Rightarrow> (string \<times> 'j) list" where
  "agent_call_fields V call_id sid cap input =
     (let J = ev_json V in
      [(''type'', jstr J ''agent_call''), (''call_id'', jstr J call_id), (''caller_session'', jstr J sid),
       (''capability'', jstr J cap), (''input'', input), (''timeout_ms'', jint J 30000)])"

lemma route_agent_call_to:
  assumes "(if bypass then ret False else agent_cache_stage V K caller call_id target cap input sid) g = (Inr False, h)"
    "find_agent target cap (g_registry g) = Some r" "um_find (g_sessions g) (ar_session_id r) = Some e" "g_ctx g e = Some x"
    "jparse (ev_json V) (if input = [] then ''{}'' else input) = Inr arg"
    "jdump (ev_json V) (jobj (ev_json V) (agent_call_fields V call_id sid cap arg)) = Inr call"
  shows "\<exists>g1. route_agent_call V K caller call_id target cap input sid bypass g = (Inr (), g1) \<and>
    g_tasks g1 = g_tasks g @ [(sx_loop x, SendTask e call)] \<and> g_sent g1 = g_sent g \<and> g_status g1 = g_status g \<and>
    g_pending_agents g1 = um_set call_id caller (g_pending_agents g)"
proof -
  have "\<exists>co. h = g\<lparr>g_coord := co\<rparr>"
  proof (cases bypass)
    case True
    then have "h = g\<lparr>g_coord := g_coord g\<rparr>" using assms(1) by simp
    then show ?thesis by blast
  next
    case False
    then show ?thesis using assms(1) agent_cache_miss by metis
  qed
  then obtain co where h: "h = g\<lparr>g_coord := co\<rparr>" ..
  note stage = bind_run(1)[where m = "if bypass then ret False else agent_cache_stage V K caller call_id target cap input sid", OF assms(1)]
  show ?thesis
    using assms(2-6) unfolding route_agent_call_def Let_def stage
    by (simp add: h bind_def andthen_def agent_call_fields_def ws_send_to_session_def ws_send_def queue_in_loop_def Let_def)
qed

lemma route_agent_result_to:
  assumes "um_find (g_pending_agents g) call_id = Some caller" "g_status g caller \<noteq> Disconnected" "g_ctx g caller = Some y"
    "ent = result_entry V (g_ctx g w) call_id output confidence"
    "co_write (ev_json V) (ev_l3 V) (ck_system K) (ck_system K) ent (g_coord g) = (None, co)"
    "jparse (ev_json V) (if output = [] then ''{}'' else output) = Inr out"
    "jdump (ev_json V) (jobj (ev_json V) (agent_result_fields V (g_ctx g w) call_id out confidence ent)) = Inr reply"
  shows "\<exists>g'. route_agent_result V K w call_id output confidence g = (Inr (), g') \<and>
    g_tasks g' = g_tasks g @ [(sx_loop y, SendTask caller reply)] \<and> g_sent g' = g_sent g \<and>
    g_pending_agents g' = um_erase call_id (g_pending_agents g) \<and>
    g_coord g' = co_append_turn (sx_session_id y) (result_turn K (g_ctx g w) call_id ent) co"
  using assms
  by (simp add: route_agent_result_def Let_def bind_def andthen_def on_coord_def raising_def ws_send_json_def ws_send_def queue_in_loop_def)

lemma co_write_stored:
  assumes "co_write L E now put ent co = (ex, co')" "ex = None"
  shows "\<exists>en. um_find (l2_entries (co_l2 co')) (e_key ent) = Some en \<and> e_agent_id en = e_agent_id ent \<and>
    e_output_summary en = e_output_summary ent \<and> e_confidence en = e_confidence ent"
proof -
  have stamp: "e_key (stamped now ent) = e_key ent" "e_agent_id (stamped now ent) = e_agent_id ent"
      "e_output_summary (stamped now ent) = e_output_summary ent" "e_confidence (stamped now ent) = e_confidence ent"
    by (simp_all add: stamped_def)
  show ?thesis
    using assms
    by (auto simp: co_write_def l2_set_def l2_set_mem_def Let_def stamp split: sum.splits prod.splits if_splits)
qed

lemma co_append_turn_l2 [simp]: "co_l2 (co_append_turn sid turn co) = co_l2 co"
  by (auto simp: co_append_turn_def co_session_buffer_def split: option.split prod.split)


definition demo_agents :: "(lua_value, unit) gateway" where
  "demo_agents = demo_gw\<lparr>g_registry := register_agent ''s'' (demo_agent 0 ''c'') reg_empty,
     g_ctx := [0 \<mapsto> demo_session, 5 \<mapsto> demo_session\<lparr>sx_session_id := ''t''\<rparr>]\<rparr>"


end
