(* ===== verification/Ws_Controller.thy ===== *)
theory Ws_Controller
  imports Tool_Trip
begin

text \<open>
  The three entry points of \<open>WsChatController\<close> (\<open>src/ws_chat_controller.cpp\<close>): a new connection, a message
  and a closed connection, and the tasks that run in a connection's event loop.
\<close>

section \<open>New connections\<close>

text \<open>What the handlers read of an HTTP request; an absent header or parameter is empty.\<close>

record http_request =
  hr_peer :: string
  hr_header :: "string \<Rightarrow> string"
  hr_param :: "string \<Rightarrow> string"
  hr_body :: string

definition client_ip_of :: "http_request \<Rightarrow> string" where
  "client_ip_of req =
     (let fwd = hr_header req ''X-Forwarded-For'' in if fwd \<noteq> [] then fwd else hr_peer req)"

text \<open>\<open>Authorization: Bearer <key>\<close>, with a key of at least one byte.\<close>

definition bearer_key :: "http_request \<Rightarrow> string" where
  "bearer_key req =
     (let ah = hr_header req ''Authorization'' in
      if length ah > 7 \<and> take 7 ah = ''Bearer '' then drop 7 ah else [])"

definition new_session :: "loop \<Rightarrow> http_request \<Rightarrow> session_ctx" where
  "new_session th req =
     \<lparr>sx_session_id = [], sx_api_key = (let k = hr_param req ''key'' in if k \<noteq> [] then k else bearer_key req),
      sx_client_ip = client_ip_of req,
      sx_role = (let r = hr_param req ''role'' in if r \<noteq> [] then r else ''user''),
      sx_authenticated = False, sx_loop = th, sx_tools = [], sx_agent_name = [], sx_capabilities = [],
      sx_active_requests = []\<rparr>"

definition make_session_id :: "clocks \<Rightarrow> nat \<Rightarrow> string" where
  "make_session_id K n = int_to_string (ck_steady K) @ ''-'' @ nat_to_string n"

definition handle_new_connection ::
  "('j, 'v, 'w) environment \<Rightarrow> clocks \<Rightarrow> loop \<Rightarrow> http_request \<Rightarrow> conn \<Rightarrow> (('v, 'w) gateway, unit) op" where
  "handle_new_connection V K th req c =
     (let J = ev_json V; x = new_session th req in
     andthen (ensure_thread_pool V th)
     (bind (verify_key K (sx_api_key x) ''*'') (\<lambda>err.
      if err \<noteq> [] then
        andthen (send_json V c [(''type'', jstr J ''error''), (''code'', jstr J ''auth_failed''), (''message'', jstr J err)])
          (modify (\<lambda>g. g\<lparr>g_status := (g_status g)(c := Disconnected)\<rparr>))
      else
        bind (getf (\<lambda>g. make_session_id K (g_seq g))) (\<lambda>sid.
        andthen (modify (\<lambda>g. g\<lparr>g_seq := Suc (g_seq g),
            g_ctx := (g_ctx g)(c := Some (x\<lparr>sx_authenticated := True, sx_session_id := sid\<rparr>)),
            g_sessions := um_set sid c (g_sessions g)\<rparr>))
          (send_json V c [(''type'', jstr J ''connected''), (''session_id'', jstr J sid)])))))"

section \<open>Registration\<close>

text \<open>The schema of a tool: taken as it is when it has a type, otherwise a map from argument names to types.\<close>

definition schema_prop :: "'j jlib \<Rightarrow> string \<times> 'j \<Rightarrow> 'j \<Rightarrow> 'j result" where
  "schema_prop J kv props =
     (if jis_str J (snd kv)
      then bindE (jget_str J (snd kv)) (\<lambda>s. jput J (fst kv) (jobj J [(''type'', jstr J s)]) props)
      else jput J (fst kv) (snd kv) props)"

definition tool_schema :: "'j jlib \<Rightarrow> 'j \<Rightarrow> string result" where
  "tool_schema J t =
     (if \<not> jcontains J t ''parameters'' then Inr ''{}''
      else bindE (jat J t ''parameters'') (\<lambda>p.
        if \<not> jis_obj J p then Inr ''{}''
        else if jcontains J p ''type'' then jdump J p
        else bindE (foldE (schema_prop J) (jitems J p) (jobj J [])) (\<lambda>props.
             bindE (jput J ''properties'' props (jobj J [(''type'', jstr J ''object'')])) (jdump J))))"

text \<open>One element of the \<open>tools\<close> array.\<close>

definition register_tool :: "('j, 'v, 'w) environment \<Rightarrow> conn \<Rightarrow> string \<Rightarrow> 'j \<Rightarrow> (('v, 'w) gateway, unit) op" where
  "register_tool V c sid t =
     (let J = ev_json V in
     bind (lift (bindE (if jis_str J t then jget_str J t else Inr []) (jvalue_str J t ''name''))) (\<lambda>name.
     if name = [] then ret ()
     else andthen (upd_ctx c (\<lambda>x. x\<lparr>sx_tools := sx_tools x @ [name]\<rparr>))
       (bind (lift (jvalue_str J t ''description'' [])) (\<lambda>desc.
        bind (lift (tool_schema J t)) (\<lambda>params.
        modify (\<lambda>g. g\<lparr>g_tools := tr_add name desc params sid (g_tools g)\<rparr>))))))"

fun each :: "('a \<Rightarrow> ('s, unit) op) \<Rightarrow> 'a list \<Rightarrow> ('s, unit) op" where
  "each f [] = ret ()"
| "each f (x # xs) = andthen (f x) (each f xs)"

text \<open>\<open>msg.contains(k) && msg[k].is_array()\<close>, then the elements.\<close>

definition array_field :: "'j jlib \<Rightarrow> 'j \<Rightarrow> string \<Rightarrow> 'j list result" where
  "array_field J msg k =
     (if \<not> jcontains J msg k then Inr []
      else bindE (jat J msg k) (\<lambda>a. Inr (if jis_arr J a then jelems J a else [])))"

definition register_executor ::
  "('j, 'v, 'w) environment \<Rightarrow> conn \<Rightarrow> string \<Rightarrow> 'j \<Rightarrow> (('v, 'w) gateway, unit) op" where
  "register_executor V c sid msg =
     (let J = ev_json V in
     andthen (upd_ctx c (\<lambda>x. x\<lparr>sx_role := ''executor''\<rparr>))
     (bind (lift (array_field J msg ''tools'')) (\<lambda>ts.
      andthen (each (register_tool V c sid) ts)
      (andthen (modify (\<lambda>g. g\<lparr>g_executors := g_executors g @ [c]\<rparr>))
      (bind (getf (\<lambda>g. tr_names (g_tools g))) (\<lambda>names.
       bind (lift (bindE (jput J ''tools'' (jstrs J names)
                     (jobj J [(''type'', jstr J ''registered''), (''role'', jstr J ''executor'')])) (jdump J)))
         (conn_send c)))))))"

definition capability_of_json :: "'j jlib \<Rightarrow> 'j \<Rightarrow> agent_capability result" where
  "capability_of_json J cap =
     bindE (jvalue_str J cap ''name'' []) (\<lambda>name.
     bindE (jvalue_str J cap ''description'' []) (\<lambda>desc.
     bindE (jvalue_str J cap ''input_schema'' ''{}'') (\<lambda>ins.
     bindE (jvalue_str J cap ''output_schema'' ''{}'') (\<lambda>outs.
     bindE (if jcontains J cap ''weight'' then bindE (jat J cap ''weight'') (jget_int J) else Inr 1) (\<lambda>weight.
     Inr (default_capability\<lparr>ac_name := name, ac_description := desc, ac_input_schema_json := ins,
            ac_output_schema_json := outs, ac_weight := weight\<rparr>))))))"

definition register_capability :: "('j, 'v, 'w) environment \<Rightarrow> conn \<Rightarrow> 'j \<Rightarrow> (('v, 'w) gateway, unit) op" where
  "register_capability V c cap =
     bind (lift (capability_of_json (ev_json V) cap)) (\<lambda>ac.
     if ac_name ac = [] then ret ()
     else upd_ctx c (\<lambda>x. x\<lparr>sx_capabilities := sx_capabilities x @ [ac]\<rparr>))"

definition agent_record_of :: "clocks \<Rightarrow> session_ctx \<Rightarrow> agent_record" where
  "agent_record_of K x =
     \<lparr>ar_session_id = sx_session_id x, ar_agent_name = sx_agent_name x, ar_capabilities = sx_capabilities x,
      ar_peer_addr = sx_client_ip x, ar_registered_at_ms = ck_system K, ar_last_heartbeat_ms = ck_system K,
      ar_active_calls = 0, ar_healthy = True\<rparr>"

definition registered_agent_fields :: "'j jlib \<Rightarrow> session_ctx \<Rightarrow> nat \<Rightarrow> (string \<times> 'j) list" where
  "registered_agent_fields J x n_caps =
     [(''type'', jstr J ''registered''), (''role'', jstr J ''agent''), (''agent_name'', jstr J (sx_agent_name x)),
      (''capabilities'', jarr J (map (\<lambda>c. jobj J [(''name'', jstr J (ac_name c)), (''description'', jstr J (ac_description c))])
         (sx_capabilities x))),
      (''all_caps'', jint J (int n_caps))]"

definition register_agent_conn ::
  "('j, 'v, 'w) environment \<Rightarrow> clocks \<Rightarrow> conn \<Rightarrow> string \<Rightarrow> 'j \<Rightarrow> (('v, 'w) gateway, unit) op" where
  "register_agent_conn V K c sid msg =
     (let J = ev_json V in
     andthen (upd_ctx c (\<lambda>x. x\<lparr>sx_role := ''agent''\<rparr>))
     (bind (lift (jvalue_str J msg ''agent_name'' (''agent-'' @ sid))) (\<lambda>name.
      andthen (upd_ctx c (\<lambda>x. x\<lparr>sx_agent_name := name\<rparr>))
      (bind (lift (array_field J msg ''capabilities'')) (\<lambda>caps.
       andthen (each (register_capability V c) caps)
       (bind (getf (\<lambda>g. g_ctx g c)) (\<lambda>ctx.
        case ctx of
          None \<Rightarrow> throw UB
        | Some x \<Rightarrow>
            andthen (modify (\<lambda>g. g\<lparr>g_registry := register_agent (sx_session_id x) (agent_record_of K x) (g_registry g)\<rparr>))
            (bind (getf (\<lambda>g. length (all_capabilities (g_registry g)))) (\<lambda>n.
             send_json V c (registered_agent_fields J x n))))))))))"

section \<open>Messages\<close>

text \<open>\<open>msg.contains(k) ? msg[k].dump() : d\<close>\<close>

definition dump_field :: "'j jlib \<Rightarrow> 'j \<Rightarrow> string \<Rightarrow> string \<Rightarrow> string result" where
  "dump_field J msg k d = (if jcontains J msg k then bindE (jat J msg k) (jdump J) else Inr d)"

definition lacks_messages :: "'j jlib \<Rightarrow> 'j \<Rightarrow> bool result" where
  "lacks_messages J msg = (if \<not> jcontains J msg ''messages'' then Inr True
     else bindE (jat J msg ''messages'') (\<lambda>m. Inr (jempty J m)))"

definition on_chat ::
  "('j, 'v, 'w) environment \<Rightarrow> clocks \<Rightarrow> loop \<Rightarrow> conn \<Rightarrow> string \<Rightarrow> 'j \<Rightarrow> (('v, 'w) gateway, unit) op" where
  "on_chat V K th c request_id msg =
     (let J = ev_json V in
     bind (lift (jvalue_str J msg ''model'' ''local-model'')) (\<lambda>model.
     bind (lift (lacks_messages J msg)) (\<lambda>lacks.
     if lacks then send_json V c (ws_error V request_id ''bad_request'' ''messages required'')
     else bind (lift (dump_field J msg ''messages'' [])) (\<lambda>messages_json.
     bind (lift (dump_field J msg ''tools'' [])) (\<lambda>tools.
     bind (lift (jvalue_num J msg ''temperature'' (7 / 10))) (\<lambda>temp.
     bind (lift (jvalue_int J msg ''max_tokens'' 2048)) (\<lambda>max_tok.
     process_chat V K th c request_id model messages_json tools temp max_tok)))))))"

definition on_cancel :: "('j, 'v, 'w) environment \<Rightarrow> conn \<Rightarrow> session_ctx \<Rightarrow> string \<Rightarrow> (('v, 'w) gateway, unit) op" where
  "on_cancel V c x request_id =
     (case um_find (sx_active_requests x) request_id of
        None \<Rightarrow> ret ()
      | Some flag \<Rightarrow>
          andthen (modify (\<lambda>g. g\<lparr>g_flags := (g_flags g)(flag := True)\<rparr>))
            (send_json V c [(''type'', jstr (ev_json V) ''cancelled''), (''request_id'', jstr (ev_json V) request_id)]))"

definition on_register ::
  "('j, 'v, 'w) environment \<Rightarrow> clocks \<Rightarrow> conn \<Rightarrow> session_ctx \<Rightarrow> 'j \<Rightarrow> (('v, 'w) gateway, unit) op" where
  "on_register V K c x msg =
     bind (lift (jvalue_str (ev_json V) msg ''role'' [])) (\<lambda>role.
     if role = ''executor'' then register_executor V c (sx_session_id x) msg
     else if role = ''agent'' then register_agent_conn V K c (sx_session_id x) msg
     else ret ())"

definition on_agent_call ::
  "('j, 'v, 'w) environment \<Rightarrow> clocks \<Rightarrow> conn \<Rightarrow> session_ctx \<Rightarrow> 'j \<Rightarrow> (('v, 'w) gateway, unit) op" where
  "on_agent_call V K c x msg =
     (let J = ev_json V in
     bind (lift (jvalue_str J msg ''call_id'' (''acall-'' @ int_to_string (ck_steady K)))) (\<lambda>call_id.
     bind (lift (jvalue_str J msg ''target_agent'' [])) (\<lambda>target_agent.
     bind (lift (jvalue_str J msg ''capability'' [])) (\<lambda>capability.
     bind (lift (bindE (dump_field J msg ''payload'' ''{}'') (jvalue_str J msg ''input''))) (\<lambda>input.
     bind (lift (jvalue_bool J msg ''bypass_cache'' False)) (\<lambda>bypass_cache.
     route_agent_call V K c call_id target_agent capability input (sx_session_id x) bypass_cache))))))"

definition handle_text ::
  "('j, 'v, 'w) environment \<Rightarrow> clocks \<Rightarrow> loop \<Rightarrow> conn \<Rightarrow> session_ctx \<Rightarrow> 'j \<Rightarrow> (('v, 'w) gateway, unit) op" where
  "handle_text V K th c x msg =
     (let J = ev_json V in
     bind (lift (jvalue_str J msg ''type'' [])) (\<lambda>msg_type.
     bind (lift (jvalue_str J msg ''request_id'' [])) (\<lambda>request_id.
     if msg_type = ''chat'' then on_chat V K th c request_id msg
     else if msg_type = ''cancel'' then on_cancel V c x request_id
     else if msg_type = ''ping'' then send_json V c [(''type'', jstr J ''pong'')]
     else if msg_type = ''register'' then on_register V K c x msg
     else if msg_type = ''tool_call'' then
       bind (lift (jvalue_str J msg ''call_id'' [])) (\<lambda>call_id.
       bind (lift (jvalue_str J msg ''name'' [])) (\<lambda>name.
       bind (lift (dump_field J msg ''arguments'' ''{}'')) (route_tool_call V c request_id call_id name)))
     else if msg_type = ''tool_result'' then
       bind (lift (jvalue_str J msg ''call_id'' [])) (\<lambda>call_id.
       bind (lift (jvalue_str J msg ''content'' [])) (route_tool_result V c request_id call_id))
     else if msg_type = ''agent_call'' then on_agent_call V K c x msg
     else if msg_type = ''agent_result'' then
       bind (lift (jvalue_str J msg ''call_id'' [])) (\<lambda>call_id.
       bind (lift (bindE (dump_field J msg ''payload'' ''{}'') (jvalue_str J msg ''output''))) (\<lambda>output.
       bind (lift (jvalue_num J msg ''confidence'' (8 / 10))) (route_agent_result V K c call_id output)))
     else if msg_type = ''cache_invalidate'' then
       bind (lift (jvalue_str J msg ''key'' [])) (\<lambda>key.
       bind (lift (jvalue_str J msg ''reason'' [])) (\<lambda>reason.
       bind (lift (jvalue_bool J msg ''cascade'' True)) (handle_cache_invalidate V c key reason)))
     else if msg_type = ''context_expand'' then
       bind (lift (jvalue_str J msg ''call_id'' [])) (\<lambda>call_id.
       bind (lift (jvalue_str J msg ''ref'' [])) (\<lambda>ref.
       bind (lift (jvalue_int J msg ''max_tokens'' 4096)) (\<lambda>max_tok.
       handle_context_expand V c call_id ref (word_of_int max_tok))))
     else ret ())))"

definition handle_new_message ::
  "('j, 'v, 'w) environment \<Rightarrow> clocks \<Rightarrow> loop \<Rightarrow> conn \<Rightarrow> bool \<Rightarrow> string \<Rightarrow> (('v, 'w) gateway, unit) op" where
  "handle_new_message V K th c is_text message =
     (if \<not> is_text then ret ()
      else bind (getf (\<lambda>g. g_ctx g c)) (\<lambda>ctx.
      case ctx of
        None \<Rightarrow> ret ()
      | Some x \<Rightarrow>
          (case jparse (ev_json V) message of
             Inl _ \<Rightarrow> send_json V c [(''type'', jstr (ev_json V) ''error''), (''code'', jstr (ev_json V) ''invalid_json'')]
           | Inr msg \<Rightarrow> handle_text V K th c x msg)))"

section \<open>Closing\<close>

definition cancel_all :: "session_ctx \<Rightarrow> (nat \<Rightarrow> bool) \<Rightarrow> nat \<Rightarrow> bool" where
  "cancel_all x flags = fold (\<lambda>f fl. fl(f := True)) (map snd (sx_active_requests x)) flags"

definition handle_connection_closed ::
  "('j, 'v, 'w) environment \<Rightarrow> clocks \<Rightarrow> conn \<Rightarrow> (('v, 'w) gateway, unit) op" where
  "handle_connection_closed V K c =
     bind (getf (\<lambda>g. g_ctx g c)) (\<lambda>ctx.
     case ctx of
       None \<Rightarrow> ret ()
     | Some x \<Rightarrow>
         andthen (modify (\<lambda>g. g\<lparr>g_flags := cancel_all x (g_flags g)\<rparr>))
         (andthen (if sx_role x = ''executor''
                   then modify (\<lambda>g. g\<lparr>g_tools := tr_remove_source (sx_session_id x) (g_tools g),
                                     g_executors := removeAll c (g_executors g)\<rparr>)
                   else ret ())
         (andthen (if sx_role x = ''agent''
                   then andthen (modify (\<lambda>g. g\<lparr>g_registry := unregister_agent (sx_session_id x) (g_registry g)\<rparr>))
                     (\<lambda>g. case co_archive_session (ev_json V) (ev_l3 V) (ck_system K) (sx_session_id x) (g_coord g) of
                            (Inl e, co) \<Rightarrow> (Inl e, g\<lparr>g_coord := co\<rparr>) | (Inr _, co) \<Rightarrow> (Inr (), g\<lparr>g_coord := co\<rparr>))
                   else ret ())
           (modify (\<lambda>g. g\<lparr>g_sessions := um_erase (sx_session_id x) (g_sessions g)\<rparr>)))))"

section \<open>Tasks of the event loops\<close>

definition run_task :: "('j, 'v, 'w) environment \<Rightarrow> loop_task \<Rightarrow> (('v, 'w) gateway, unit) op" where
  "run_task V t =
     (case t of
        SendTask c text \<Rightarrow> bind (getf (\<lambda>g. g_status g c)) (\<lambda>s. if s = Connected then conn_send c text else ret ())
      | ToolCallTask c request_id call_id name arguments \<Rightarrow>
          bind (lift (jparse (ev_json V) arguments)) (\<lambda>args.
          andthen (send_json V c (tool_call_fields V request_id call_id name args))
            (route_tool_call V c request_id call_id name arguments))
      | EraseTask c request_id \<Rightarrow>
          upd_ctx c (\<lambda>x. x\<lparr>sx_active_requests := um_erase request_id (sx_active_requests x)\<rparr>))"

end
