(* ===== verification/Http_Api.thy ===== *)
theory Http_Api
  imports Ws_Controller
begin

text \<open>
  The HTTP handlers (\<open>src/main.cpp\<close>). A handler's value is the response it passes to its callback; an
  exception that leaves it is answered by the HTTP framework. The response to an accepted chat request is a
  stream: the framework calls the function the handler made for it, which submits the request to the
  upstream engine, whose callbacks write to the stream. Writing to a closed stream has no effect.
\<close>

section \<open>Responses\<close>

record plain_response =
  rs_status :: int
  rs_body :: string
  rs_json :: bool             \<comment> \<open>the content type is \<open>application/json\<close>\<close>

text \<open>What the closure of the asynchronous response captures.\<close>

record stream_start =
  ss_model :: string
  ss_messages_json :: string
  ss_temperature :: double
  ss_max_tokens :: int
  ss_url :: string
  ss_key :: string

datatype http_response = Plain plain_response | Event_Stream stream_start

definition plain :: "int \<Rightarrow> string \<Rightarrow> http_response" where
  "plain status body = Plain \<lparr>rs_status = status, rs_body = body, rs_json = False\<rparr>"

text \<open>\<open>quoted_error e\<close> is the text \<open>{"error":"e"}\<close>; nothing in \<open>e\<close> is escaped.\<close>

definition quoted_error :: "string \<Rightarrow> string" where
  "quoted_error e = [CHR ''{'', CHR 0x22] @ ''error'' @ [CHR 0x22, CHR '':'', CHR 0x22] @ e @ [CHR 0x22, CHR ''}'']"

section \<open>POST /v1/chat/completions\<close>

definition http_context ::
  "clocks \<Rightarrow> string \<Rightarrow> string \<Rightarrow> string \<Rightarrow> string \<Rightarrow> double \<Rightarrow> int \<Rightarrow> plugin_context" where
  "http_context K client_ip api_key model messages_json temp max_tok =
     \<lparr>pc_model = model, pc_messages_json = messages_json, pc_temperature = temp, pc_max_tokens = max_tok,
      pc_user_ip = client_ip, pc_api_key = api_key, pc_request_id = word_of_int (ck_steady K),
      pc_abort_status = 200, pc_abort_body = [], pc_aborted = False\<rparr>"

definition stream_of :: "backend_node \<Rightarrow> plugin_context \<Rightarrow> stream_start" where
  "stream_of n ctx =
     \<lparr>ss_model = (if bn_model n = [] then pc_model ctx else bn_model n), ss_messages_json = pc_messages_json ctx,
      ss_temperature = pc_temperature ctx, ss_max_tokens = pc_max_tokens ctx, ss_url = bn_url n, ss_key = bn_api_key n\<rparr>"

text \<open>The part after the request has been read.\<close>

definition admit_http ::
  "('j, 'v, 'w) environment \<Rightarrow> clocks \<Rightarrow> loop \<Rightarrow> http_request \<Rightarrow> string \<Rightarrow> string \<Rightarrow> double \<Rightarrow> int \<Rightarrow>
     (('v, 'w) gateway, http_response) op" where
  "admit_http V K th req model messages_json temp max_tok =
     bind (verify_key K (bearer_key req) model) (\<lambda>err.
     if err \<noteq> [] then
       andthen (upd_metrics (\<lambda>m. m\<lparr>m_auth_failed := m_auth_failed m + 1\<rparr>)) (ret (plain 401 (quoted_error err)))
     else bind (route_model model) (\<lambda>node.
     case node of
       None \<Rightarrow> ret (plain 503 (quoted_error ''no backend''))
     | Some n \<Rightarrow>
         bind (getf (\<lambda>g. pm_plugins (g_plugins g))) (\<lambda>plugins.
         bind (on_pool (run_request_pipeline (ev_rt V) plugins
                 (http_context K (client_ip_of req) (bearer_key req) model messages_json temp max_tok)) th) (\<lambda>pr.
         if \<not> pl_passed pr then
           andthen (upd_metrics (\<lambda>m. m\<lparr>m_rate_limited := m_rate_limited m + 1\<rparr>))
             (ret (plain (pl_abort_status pr) (pl_abort_body pr)))
         else ret (Event_Stream (stream_of n (pl_ctx pr)))))))"

definition handle_chat ::
  "('j, 'v, 'w) environment \<Rightarrow> clocks \<Rightarrow> loop \<Rightarrow> http_request \<Rightarrow> (('v, 'w) gateway, http_response) op" where
  "handle_chat V K th req =
     (let J = ev_json V in
     andthen (ensure_thread_pool V th)
     (case jparse J (hr_body req) of
        Inl _ \<Rightarrow> ret (plain 400 (quoted_error ''invalid json''))
      | Inr body \<Rightarrow>
          bind (lift (jvalue_str J body ''model'' ''local-model'')) (\<lambda>model.
          bind (lift (lacks_messages J body)) (\<lambda>lacks.
          if lacks then ret (plain 400 (quoted_error ''messages required''))
          else bind (lift (dump_field J body ''messages'' [])) (\<lambda>messages_json.
          bind (lift (jvalue_num J body ''temperature'' (7 / 10))) (\<lambda>temp.
          bind (lift (jvalue_int J body ''max_tokens'' 2048)) (\<lambda>max_tok.
          admit_http V K th req model messages_json temp max_tok)))))))"

section \<open>The stream of an accepted request\<close>

text \<open>Called by the framework once the response is under way; \<open>th\<close> is the thread it runs in.\<close>

definition start_stream :: "('j, 'v, 'w) environment \<Rightarrow> loop \<Rightarrow> stream_start \<Rightarrow> (('v, 'w) gateway, nat) op" where
  "start_stream V th ss =
     andthen (ensure_thread_pool V th)
     (bind (getf g_next_stream) (\<lambda>n.
      andthen (modify (\<lambda>g. g\<lparr>g_next_stream := Suc n\<rparr>))
      (andthen (upd_metrics (\<lambda>m. m\<lparr>m_total_requests := m_total_requests m + 1, m_active_requests := m_active_requests m + 1\<rparr>))
      (andthen (modify (\<lambda>g. g\<lparr>g_submitted := g_submitted g @
          [\<lparr>sm_req = \<lparr>lr_id = 0, lr_provider = KIMI, lr_model = ss_model ss, lr_messages_json = ss_messages_json ss,
               lr_tools_json = [], lr_temperature = ss_temperature ss, lr_max_tokens = ss_max_tokens ss,
               lr_has_token = True, lr_has_tool_call = False, lr_has_done = True, lr_has_error = True\<rparr>,
             sm_url = ss_url ss, sm_key = ss_key ss, sm_cb = HttpCallbacks n\<rparr>]\<rparr>))
        (ret n)))))"

definition stream_send :: "nat \<Rightarrow> string \<Rightarrow> (('v, 'w) gateway, unit) op" where
  "stream_send n text = modify (\<lambda>g. if n \<in> g_stream_closed g then g else g\<lparr>g_stream_out := g_stream_out g @ [(n, text)]\<rparr>)"

definition stream_close :: "nat \<Rightarrow> (('v, 'w) gateway, unit) op" where
  "stream_close n = modify (\<lambda>g. g\<lparr>g_stream_closed := insert n (g_stream_closed g)\<rparr>)"

text \<open>One \<open>data:\<close> line of the event stream.\<close>

definition sse_data :: "string \<Rightarrow> string" where
  "sse_data payload = ''data: '' @ payload @ [CHR 0x0A, CHR 0x0A]"

definition chunk_json :: "'j jlib \<Rightarrow> string \<Rightarrow> 'j" where
  "chunk_json J tok = jobj J [(''object'', jstr J ''chat.completion.chunk''), (''model'', jstr J ''gateway''),
     (''choices'', jarr J [jobj J [(''index'', jint J 0), (''delta'', jobj J [(''content'', jstr J tok)]),
        (''finish_reason'', jnull J)]])]"

definition http_on_token :: "('j, 'v, 'w) environment \<Rightarrow> loop \<Rightarrow> nat \<Rightarrow> string \<Rightarrow> (('v, 'w) gateway, unit) op" where
  "http_on_token V th n tok =
     andthen (ensure_thread_pool V th)
     (bind (getf (\<lambda>g. pm_plugins (g_plugins g))) (\<lambda>plugins.
      bind (on_pool (run_token_pipeline (ev_rt V) plugins tok) th) (\<lambda>p.
      if p = [] then ret ()
      else bind (lift (jdump (ev_json V) (chunk_json (ev_json V) p))) (\<lambda>c. stream_send n (sse_data c)))))"

definition http_on_done :: "('j, 'v, 'w) environment \<Rightarrow> loop \<Rightarrow> nat \<Rightarrow> (('v, 'w) gateway, unit) op" where
  "http_on_done V th n =
     andthen (ensure_thread_pool V th)
     (andthen (bind (getf (\<lambda>g. pm_plugins (g_plugins g))) (\<lambda>plugins. on_pool (run_done_pipeline (ev_rt V) plugins) th))
     (andthen (stream_send n (sse_data ''[DONE]''))
     (andthen (stream_close n)
       (upd_metrics (\<lambda>m. m\<lparr>m_success_count := m_success_count m + 1, m_active_requests := m_active_requests m - 1\<rparr>)))))"

definition http_on_error :: "('j, 'v, 'w) environment \<Rightarrow> nat \<Rightarrow> string \<Rightarrow> (('v, 'w) gateway, unit) op" where
  "http_on_error V n err =
     bind (lift (jdump (ev_json V) (jobj (ev_json V) [(''error'', jstr (ev_json V) err)]))) (\<lambda>e.
     andthen (stream_send n (sse_data e))
     (andthen (stream_close n)
       (upd_metrics (\<lambda>m. m\<lparr>m_errors := m_errors m + 1, m_active_requests := m_active_requests m - 1\<rparr>))))"

text \<open>A tool call of the model has no callback here and is dropped by the parser.\<close>

definition http_deliver :: "('j, 'v, 'w) environment \<Rightarrow> loop \<Rightarrow> nat \<Rightarrow> sse_event \<Rightarrow> (('v, 'w) gateway, unit) op" where
  "http_deliver V th n ev =
     (case ev of Token tok \<Rightarrow> http_on_token V th n tok | ToolCall _ _ _ \<Rightarrow> ret () | Done \<Rightarrow> http_on_done V th n)"

fun http_deliver_all :: "('j, 'v, 'w) environment \<Rightarrow> loop \<Rightarrow> nat \<Rightarrow> sse_event list \<Rightarrow> (('v, 'w) gateway, unit) op" where
  "http_deliver_all V th n [] = ret ()"
| "http_deliver_all V th n (ev # evs) = andthen (http_deliver V th n ev) (http_deliver_all V th n evs)"

section \<open>The other handlers\<close>

definition handle_health :: "(('v, 'w) gateway, http_response) op" where
  "handle_health = ret (plain 200 ([CHR ''{'', CHR 0x22] @ ''status'' @ [CHR 0x22, CHR '':'', CHR 0x22] @ ''ok'' @ [CHR 0x22, CHR ''}'']))"

definition handle_metrics :: "(double \<Rightarrow> string) \<Rightarrow> (('v, 'w) gateway, http_response) op" where
  "handle_metrics fmt = bind (getf g_metrics) (\<lambda>m. ret (plain 200 (metrics_snapshot fmt m)))"

definition handle_tools :: "('j, 'v, 'w) environment \<Rightarrow> (('v, 'w) gateway, http_response) op" where
  "handle_tools V =
     bind (getf g_tools) (\<lambda>t.
     bind (lift (tools_json (ev_json V) t)) (\<lambda>json.
     ret (Plain \<lparr>rs_status = 200, rs_body = (if json = [] then ''[]'' else json), rs_json = True\<rparr>)))"

text \<open>\<open>dump2\<close> is \<open>dump(2)\<close>, the indented text.\<close>

definition handle_plugins :: "('j, 'v, 'w) environment \<Rightarrow> ('j \<Rightarrow> string result) \<Rightarrow> (('v, 'w) gateway, http_response) op" where
  "handle_plugins V dump2 =
     (let J = ev_json V in
     bind (getf (\<lambda>g. list_plugins (g_plugins g))) (\<lambda>ps.
     bind (lift (dump2 (jarr J (map (\<lambda>x. jobj J [(''name'', jstr J (pi_name x)), (''version'', jstr J (pi_version x)),
             (''priority'', jint J (pi_priority x))]) ps)))) (\<lambda>body.
     ret (plain 200 body))))"

end
