(* ===== verification/Http_Chat.thy ===== *)
theory Http_Chat
  imports Http_Api SSE_Stream
begin

text \<open>
  What a client of the HTTP interface (\<open>src/main.cpp\<close>) can rely on: which response a chat request gets and
  why, and that the stream of an accepted request carries the tokens in order and ends once.
\<close>

section \<open>The response\<close>

text \<open>What an HTTP handler leaves alone until its stream starts.\<close>

definition unsent :: "('v, 'w) gateway \<Rightarrow> ('v, 'w) gateway \<Rightarrow> bool" where
  "unsent g g' \<longleftrightarrow> g_submitted g' = g_submitted g \<and> g_stream_out g' = g_stream_out g \<and> g_sent g' = g_sent g \<and>
     g_tasks g' = g_tasks g \<and> m_active_requests (g_metrics g') = m_active_requests (g_metrics g)"

text \<open>The three ways an admitted request can be answered.\<close>

definition http_answer ::
  "('j, 'v, 'w) environment \<Rightarrow> clocks \<Rightarrow> http_request \<Rightarrow> string \<Rightarrow> string \<Rightarrow> double \<Rightarrow> int \<Rightarrow> 'v vm_pool option \<Rightarrow>
     ('v, 'w) gateway \<Rightarrow> http_response \<Rightarrow> bool" where
  "http_answer V K req model messages_json temp max_tok pool g rsp \<longleftrightarrow>
     (\<exists>err. err \<noteq> [] \<and> fst (verify (ck_steady K) (bearer_key req) model (g_auth g)) = Inr err \<and>
        rsp = plain 401 (quoted_error err)) \<or>
     fst (verify (ck_steady K) (bearer_key req) model (g_auth g)) = Inr [] \<and>
     (fst (route model (g_router g)) = None \<and> rsp = plain 503 (quoted_error ''no backend'') \<or>
      (\<exists>n pr w. fst (route model (g_router g)) = Some n \<and>
         run_request_pipeline (ev_rt V) (pm_plugins (g_plugins g))
           (http_context K (client_ip_of req) (bearer_key req) model messages_json temp max_tok) pool (g_world g) = Inr (pr, w) \<and>
         rsp = (if pl_passed pr then Event_Stream (stream_of n (pl_ctx pr))
                else plain (pl_abort_status pr) (pl_abort_body pr))))"

lemma admit_http_answer:
  assumes "admit_http V K th req model messages_json temp max_tok g = (Inr rsp, g')"
  shows "unsent g g' \<and> http_answer V K req model messages_json temp max_tok (g_pools g th) g rsp"
proof -
  obtain ra a where v: "verify (ck_steady K) (bearer_key req) model (g_auth g) = (ra, a)" by force
  obtain node rt where n: "route model (g_router g) = (node, rt)" by force
  let ?P = "run_request_pipeline (ev_rt V) (pm_plugins (g_plugins g))
      (http_context K (client_ip_of req) (bearer_key req) model messages_json temp max_tok) (g_pools g th) (g_world g)"
  note run = assms[unfolded admit_http_def verify_key_def bind_def v, simplified]
  obtain err where ra: "ra = Inr err" using run by (cases ra) auto
  show ?thesis
  proof (cases "err = []")
    case False
    then show ?thesis using run ra v by (auto simp: upd_metrics_def unsent_def http_answer_def)
  next
    case ok: True
    show ?thesis
    proof (cases node)
      case None
      then show ?thesis using run ra ok v n by (auto simp: route_model_def unsent_def http_answer_def)
    next
      case (Some b)
      then obtain pr p w where pr: "?P = Inr (pr, p, w)"
        using run ra ok n by (cases ?P) (auto simp: route_model_def on_pool_def)
      have "unsent g g'" "rsp = (if pl_passed pr then Event_Stream (stream_of b (pl_ctx pr)) else plain (pl_abort_status pr) (pl_abort_body pr))"
        using run ra ok n Some pr
        by (auto simp: route_model_def on_pool_def upd_metrics_def andthen_def unsent_def split: if_splits)
      then show ?thesis using v n ra ok Some pr unfolding http_answer_def by fastforce
    qed
  qed
qed

lemma start_stream_submits:
  "\<exists>g2 s. start_stream V th ss g = (Inr (g_next_stream g), g2) \<and> g_submitted g2 = g_submitted g @ [s] \<and>
     sm_url s = ss_url ss \<and> sm_key s = ss_key ss \<and> lr_messages_json (sm_req s) = ss_messages_json ss \<and>
     sm_cb s = HttpCallbacks (g_next_stream g) \<and> m_active_requests (g_metrics g2) = m_active_requests (g_metrics g) + 1"
proof -
  obtain ps where "ensure_thread_pool V th g = (Inr (), g\<lparr>g_pools := ps\<rparr>)" using ensure_pool_run by blast
  then show ?thesis by (simp add: start_stream_def andthen_run(1) bind_def upd_metrics_def)
qed

text \<open>C13. Every response to a chat request over HTTP has a reason. A response that is not an exception of
  the handler is 400 when the body is not JSON or has no messages; otherwise it is 401 exactly with the
  reason for which the key is refused, 503 when the router has no backend for the model, the status and
  body that a plugin set when it rejects the request, and else the stream of a request whose key was
  accepted and that every plugin let pass, bound to the routed node and carrying the context the plugins
  left. Nothing reaches the engine, and no gauge moves, before the stream starts; starting it submits one
  request to that node and counts it.\<close>

theorem http_chat_outcome:
  assumes "handle_chat V K th req g = (Inr rsp, g')"
  shows "unsent g g' \<and>
    ((\<exists>e. jparse (ev_json V) (hr_body req) = Inl e) \<and> rsp = plain 400 (quoted_error ''invalid json'') \<or>
     (\<exists>body model. jparse (ev_json V) (hr_body req) = Inr body \<and>
        jvalue_str (ev_json V) body ''model'' ''local-model'' = Inr model \<and>
        (lacks_messages (ev_json V) body = Inr True \<and> rsp = plain 400 (quoted_error ''messages required'') \<or>
         lacks_messages (ev_json V) body = Inr False \<and>
         (\<exists>messages_json temp max_tok pool. http_answer V K req model messages_json temp max_tok pool g rsp)))) \<and>
    (\<forall>ss th'. rsp = Event_Stream ss \<longrightarrow>
       (\<exists>g2 s. start_stream V th' ss g' = (Inr (g_next_stream g'), g2) \<and> g_submitted g2 = g_submitted g @ [s] \<and>
          sm_url s = ss_url ss \<and> sm_key s = ss_key ss \<and> lr_messages_json (sm_req s) = ss_messages_json ss \<and>
          sm_cb s = HttpCallbacks (g_next_stream g') \<and>
          m_active_requests (g_metrics g2) = m_active_requests (g_metrics g) + 1))"
proof -
  obtain ps where e: "ensure_thread_pool V th g = (Inr (), g\<lparr>g_pools := ps\<rparr>)" using ensure_pool_run by blast
  note e' = andthen_run(1)[where m = "ensure_thread_pool V th", OF e]
  let ?J = "ev_json V" and ?g = "g\<lparr>g_pools := ps\<rparr>"
  have frame: "unsent ?g h \<Longrightarrow> unsent g h" "http_answer V K req mo ms t m p ?g rsp = http_answer V K req mo ms t m p g rsp"
    for h mo ms t m p by (simp_all add: unsent_def http_answer_def)
  have quiet: "unsent g ?g" by (simp add: unsent_def)
  have main: "unsent g g' \<and>
    ((\<exists>e. jparse ?J (hr_body req) = Inl e) \<and> rsp = plain 400 (quoted_error ''invalid json'') \<or>
     (\<exists>body model. jparse ?J (hr_body req) = Inr body \<and> jvalue_str ?J body ''model'' ''local-model'' = Inr model \<and>
        (lacks_messages ?J body = Inr True \<and> rsp = plain 400 (quoted_error ''messages required'') \<or>
         lacks_messages ?J body = Inr False \<and>
         (\<exists>messages_json temp max_tok pool. http_answer V K req model messages_json temp max_tok pool g rsp))))"
  proof (cases "jparse ?J (hr_body req)")
    case (Inl e)
    then have "rsp = plain 400 (quoted_error ''invalid json'')" "g' = ?g" using assms by (simp_all add: handle_chat_def e')
    then show ?thesis using Inl quiet by simp
  next
    case body: (Inr body)
    note run = assms[unfolded handle_chat_def Let_def e' body sum.case]
    then obtain model lacks where ml: "jvalue_str ?J body ''model'' ''local-model'' = Inr model" "lacks_messages ?J body = Inr lacks"
      by (cases "jvalue_str ?J body ''model'' ''local-model''"; cases "lacks_messages ?J body") simp_all
    show ?thesis
    proof (cases lacks)
      case True
      then have "rsp = plain 400 (quoted_error ''messages required'')" "g' = ?g"
        using run ml by simp_all
      then show ?thesis using True body ml quiet by simp
    next
      case False
      then obtain ms t m where "admit_http V K th req model ms t m ?g = (Inr rsp, g')"
        using run ml
        by (cases "dump_field ?J body ''messages'' []"; cases "jvalue_num ?J body ''temperature'' (7 / 10)";
            cases "jvalue_int ?J body ''max_tokens'' 2048") simp_all
      from admit_http_answer[OF this] show ?thesis using False body ml frame by auto
    qed
  qed
  moreover have "g_submitted g' = g_submitted g" "m_active_requests (g_metrics g') = m_active_requests (g_metrics g)"
    using main by (simp_all add: unsent_def)
  ultimately show ?thesis using start_stream_submits[of V _ _ g'] by (metis (no_types, lifting))
qed

definition demo_http_V :: "(jv, lua_value, unit) environment" where
  "demo_http_V = demo_V\<lparr>ev_json := sample_json (\<lambda>_. Inr (JObj [(''messages'', JArr [JNull])])) demo_dump\<rparr>"

definition demo_req :: http_request where
  "demo_req = \<lparr>hr_peer = ''ip'', hr_header = (\<lambda>_. []), hr_param = (\<lambda>_. []), hr_body = ''{}''\<rparr>"

theorem http_chat_outcome_witness:
  "\<exists>ss g' g2 s. handle_chat demo_http_V demo_K 1 demo_req demo_gw = (Inr (Event_Stream ss), g') \<and>
     start_stream demo_http_V 1 ss g' = (Inr (g_next_stream g'), g2) \<and> g_submitted g2 = [s] \<and> sm_url s = ss_url ss"
proof -
  let ?ctx = "http_context demo_K ''ip'' [] ''local-model'' ''?'' (7 / 10) 2048"
  let ?pr = "\<lparr>pl_passed = True, pl_ctx = ?ctx, pl_abort_status = 200, pl_abort_body = []\<rparr>"
  have "request_loop demo_rt [] ?pr = (\<lambda>m. Inr (?pr, m))" by (rule ext) simp
  then obtain p' where p': "run_request_pipeline demo_rt [] ?ctx (Some (pool_new 1 [] LTable)) () = Inr (?pr, Some p', ())"
    using with_vm_pure[OF pool_reach_start[of 1 "[]" LTable] zero_less_one, where a = ?pr and w = "()"]
    by (auto simp: run_request_pipeline_def)
  have req: "bearer_key demo_req = []" "client_ip_of demo_req = ''ip''" "hr_body demo_req = ''{}''"
    by (simp_all add: demo_req_def bearer_key_def client_ip_of_def)
  have V: "ev_json demo_http_V = sample_json (\<lambda>_. Inr (JObj [(''messages'', JArr [JNull])])) demo_dump" "ev_rt demo_http_V = demo_rt"
    by (simp_all add: demo_http_V_def)
  have lib: "jvalue_str (sample_json p d) (JObj [(''messages'', JArr [JNull])]) ''model'' ''local-model'' = Inr ''local-model''"
      "lacks_messages (sample_json p d) (JObj [(''messages'', JArr [JNull])]) = Inr False"
      "dump_field (sample_json p demo_dump) (JObj [(''messages'', JArr [JNull])]) ''messages'' [] = Inr ''?''"
      "jvalue_num (sample_json p d) (JObj [(''messages'', JArr [JNull])]) ''temperature'' (7 / 10) = Inr (7 / 10)"
      "jvalue_int (sample_json p d) (JObj [(''messages'', JArr [JNull])]) ''max_tokens'' 2048 = Inr 2048" for p d
    by (simp_all add: jv_value_def lacks_messages_def dump_field_def demo_dump_def) (simp add: sample_json_def jv_value_def)
  have ens: "andthen (ensure_thread_pool demo_http_V 1) k demo_gw = k demo_gw" for k
    by (simp add: ensure_thread_pool_def andthen_def bind_def)
  obtain n rt where route: "route ''local-model'' (g_router demo_gw) = (Some n, rt)"
    by (simp add: demo_gw_def route_def route_default_def default_group_def pick_def add_node_def empty_lb_def default_node_def)
  have chat: "handle_chat demo_http_V demo_K 1 demo_req demo_gw =
      admit_http demo_http_V demo_K 1 demo_req ''local-model'' ''?'' (7 / 10) 2048 demo_gw"
    unfolding handle_chat_def Let_def ens V req by (simp only: sample_json_sel(1) sum.case lib bind_simps if_False)
  have "\<exists>g'. handle_chat demo_http_V demo_K 1 demo_req demo_gw = (Inr (Event_Stream (stream_of n ?ctx)), g')"
    unfolding chat using p' route
    by (simp add: admit_http_def V req verify_key_def verify_def auth_passed_def route_model_def on_pool_def bind_def)
  then obtain ss g' where run: "handle_chat demo_http_V demo_K 1 demo_req demo_gw = (Inr (Event_Stream ss), g')" by blast
  have "g_submitted demo_gw = []" by simp
  then show ?thesis using http_chat_outcome[OF run] run by fastforce
qed

section \<open>The stream\<close>

text \<open>Documented behaviour of the JSON library on arrays and \<open>null\<close>.\<close>

definition json_list_laws :: "'j jlib \<Rightarrow> bool" where
  "json_list_laws J \<longleftrightarrow> (\<forall>x xs. \<not> jempty J (jarr J (x # xs)) \<and> jfirst J (jarr J (x # xs)) = Inr x) \<and> \<not> jis_str J (jnull J)"

text \<open>\<open>enc\<close> is the text of the chunk that carries the token \<open>u\<close>: one line, which the library reads back.\<close>

definition chunk_coded :: "'j jlib \<Rightarrow> (string \<Rightarrow> string) \<Rightarrow> string \<Rightarrow> bool" where
  "chunk_coded J enc u \<longleftrightarrow> jdump J (chunk_json J u) = Inr (enc u) \<and> jparse J (enc u) = Inr (chunk_json J u) \<and>
     one_line (enc u) \<and> enc u \<noteq> ''[DONE]''"

lemma chunk_coded_content:
  assumes "json_laws J" "json_list_laws J" "chunk_coded J enc u" "u \<noteq> []"
  shows "content_chunk J (enc u) u"
proof -
  let ?delta = "jobj J [(''content'', jstr J u)]"
  let ?c0 = "jobj J [(''index'', jint J 0), (''delta'', ?delta), (''finish_reason'', jnull J)]"
  have "chunk J (enc u) ?c0 ?delta"
    using assms by (simp add: chunk_def chunk_coded_def chunk_json_def json_list_laws_def json_lawsD)
  moreover have "\<not> jcontains J ?delta ''tool_calls''" "str_field J ?delta ''content'' (Some u)"
      "finished_tools J ?c0 = Inr False"
    using assms(1,2) by (simp_all add: json_lawsD str_field_def finished_tools_def json_list_laws_def)
  ultimately show ?thesis using assms(4) unfolding content_chunk_def by blast
qed

lemma http_token_step:
  assumes "g_pools g th \<noteq> None" "n \<notin> g_stream_closed g"
    "run_token_pipeline (ev_rt V) (pm_plugins (g_plugins g)) tok (g_pools g th) (g_world g) = Inr (u, pool, w)"
    "u \<noteq> [] \<Longrightarrow> jdump (ev_json V) (chunk_json (ev_json V) u) = Inr (enc u)"
  shows "\<exists>g'. http_on_token V th n tok g = (Inr (), g') \<and> g_pools g' th = pool \<and> g_world g' = w \<and>
    g_plugins g' = g_plugins g \<and> g_stream_closed g' = g_stream_closed g \<and> g_metrics g' = g_metrics g \<and>
    g_stream_out g' = g_stream_out g @ (if u = [] then [] else [(n, sse_data (enc u))])"
proof -
  obtain p where p: "g_pools g th = Some p" using assms(1) by auto
  show ?thesis
    using assms(2-4) p
    by (cases "u = []") (simp_all add: http_on_token_def ensure_thread_pool_def on_pool_def bind_def andthen_def stream_send_def)
qed

lemma http_done_step:
  assumes "g_pools g th \<noteq> None" "n \<notin> g_stream_closed g"
    "run_done_pipeline (ev_rt V) (pm_plugins (g_plugins g)) (g_pools g th) (g_world g) = Inr ((), pool, w)"
  shows "\<exists>g'. http_on_done V th n g = (Inr (), g') \<and> n \<in> g_stream_closed g' \<and>
    g_stream_out g' = g_stream_out g @ [(n, sse_data ''[DONE]'')] \<and>
    m_active_requests (g_metrics g') = m_active_requests (g_metrics g) - 1 \<and>
    m_success_count (g_metrics g') = m_success_count (g_metrics g) + 1"
proof -
  obtain p where p: "g_pools g th = Some p" using assms(1) by auto
  show ?thesis
    using assms(2,3) p
    by (simp add: http_on_done_def ensure_thread_pool_def on_pool_def bind_def andthen_def stream_send_def stream_close_def
        upd_metrics_def)
qed

lemma http_deliver_tokens:
  assumes "g_pools g th \<noteq> None" "n \<notin> g_stream_closed g"
    "filter_tokens (ev_rt V) (pm_plugins (g_plugins g)) toks (g_pools g th) (g_world g) = Inr (us, pool, w)"
    "\<And>u. u \<in> set us \<Longrightarrow> u \<noteq> [] \<Longrightarrow> jdump (ev_json V) (chunk_json (ev_json V) u) = Inr (enc u)"
  shows "\<exists>g'. http_deliver_all V th n (map Token toks @ evs) g = http_deliver_all V th n evs g' \<and> g_pools g' th = pool \<and>
    g_world g' = w \<and> g_plugins g' = g_plugins g \<and> g_stream_closed g' = g_stream_closed g \<and> g_metrics g' = g_metrics g \<and>
    g_stream_out g' = g_stream_out g @ map (\<lambda>u. (n, sse_data (enc u))) (filter (\<lambda>u. u \<noteq> []) us)"
  using assms
proof (induction toks arbitrary: g us)
  case (Cons t ts)
  obtain u p1 w1 us' where t: "run_token_pipeline (ev_rt V) (pm_plugins (g_plugins g)) t (g_pools g th) (g_world g) = Inr (u, p1, w1)"
      and ts: "filter_tokens (ev_rt V) (pm_plugins (g_plugins g)) ts p1 w1 = Inr (us', pool, w)" and us: "us = u # us'"
    using Cons.prems(3) by (auto simp: bindE_eq_Inr)
  have p1: "p1 \<noteq> None" using t with_vm_some by (metis run_token_pipeline_def)
  obtain g1 where g1: "http_on_token V th n t g = (Inr (), g1)" "g_pools g1 th = p1" "g_world g1 = w1"
      "g_plugins g1 = g_plugins g" "g_stream_closed g1 = g_stream_closed g" "g_metrics g1 = g_metrics g"
      "g_stream_out g1 = g_stream_out g @ (if u = [] then [] else [(n, sse_data (enc u))])"
    using http_token_step[OF Cons.prems(1,2) t, of enc] Cons.prems(4) us by auto
  obtain g' where "http_deliver_all V th n (map Token ts @ evs) g1 = http_deliver_all V th n evs g'" "g_pools g' th = pool"
      "g_world g' = w" "g_plugins g' = g_plugins g1" "g_stream_closed g' = g_stream_closed g1" "g_metrics g' = g_metrics g1"
      "g_stream_out g' = g_stream_out g1 @ map (\<lambda>u. (n, sse_data (enc u))) (filter (\<lambda>u. u \<noteq> []) us')"
    using Cons.IH[of g1 us'] g1 p1 Cons.prems ts us by auto
  then show ?case using g1 us by (intro exI[of _ g']) (simp add: http_deliver_def andthen_def bind_def)
qed auto

text \<open>C14. The HTTP stream reads back as what the plugins made of the model's tokens. Delivering the tokens
  of a completion and its end writes events whose text, cut into chunks in any way and read by the
  gateway's own SSE parser, gives the tokens that the plugins do not suppress, in order, and one
  completion; the stream is then closed, the active gauge is one lower and the successes one higher, and
  nothing written later reaches the client.\<close>

theorem http_stream_roundtrip:
  assumes "json_laws (ev_json V)" "json_list_laws (ev_json V)" "g_pools g th \<noteq> None" "n \<notin> g_stream_closed g"
    "filter_tokens (ev_rt V) (pm_plugins (g_plugins g)) toks (g_pools g th) (g_world g) = Inr (us, pool, w)"
    "run_done_pipeline (ev_rt V) (pm_plugins (g_plugins g)) pool w = Inr ((), pool', w')"
    "\<And>u. u \<in> set us \<Longrightarrow> u \<noteq> [] \<Longrightarrow> chunk_coded (ev_json V) enc u"
  shows "\<exists>g' out. http_deliver_all V th n (map Token toks @ [Done]) g = (Inr (), g') \<and>
    g_stream_out g' = g_stream_out g @ map (Pair n) out \<and> n \<in> g_stream_closed g' \<and>
    m_active_requests (g_metrics g') = m_active_requests (g_metrics g) - 1 \<and>
    m_success_count (g_metrics g') = m_success_count (g_metrics g) + 1 \<and>
    (\<forall>text. g_stream_out (snd (stream_send n text g')) = g_stream_out g') \<and>
    (\<forall>chunks. concat chunks = concat out \<longrightarrow>
       s_log (snd (sse_feeds (ev_json V) chunks (sse_new True True True))) = map Token (filter (\<lambda>u. u \<noteq> []) us) @ [Done])"
proof -
  let ?us = "filter (\<lambda>u. u \<noteq> []) us"
  let ?out = "map (\<lambda>u. sse_data (enc u)) ?us @ [sse_data ''[DONE]'']"
  have coded: "\<And>u. u \<in> set us \<Longrightarrow> u \<noteq> [] \<Longrightarrow> jdump (ev_json V) (chunk_json (ev_json V) u) = Inr (enc u)"
    using assms(7) by (simp add: chunk_coded_def)
  obtain g1 where g1: "http_deliver_all V th n (map Token toks @ [Done]) g = http_deliver_all V th n [Done] g1" "g_pools g1 th = pool"
      "g_world g1 = w" "g_plugins g1 = g_plugins g" "g_stream_closed g1 = g_stream_closed g" "g_metrics g1 = g_metrics g"
      "g_stream_out g1 = g_stream_out g @ map (\<lambda>u. (n, sse_data (enc u))) ?us"
    using http_deliver_tokens[OF assms(3,4,5) coded, of "[Done]"] by blast
  have pool: "g_pools g1 th \<noteq> None" using filter_tokens_pool[OF assms(5)] assms(3) g1(2) by blast
  obtain g' where g': "http_on_done V th n g1 = (Inr (), g')" "n \<in> g_stream_closed g'"
      "g_stream_out g' = g_stream_out g1 @ [(n, sse_data ''[DONE]'')]"
      "m_active_requests (g_metrics g') = m_active_requests (g_metrics g1) - 1"
      "m_success_count (g_metrics g') = m_success_count (g_metrics g1) + 1"
    using http_done_step[OF pool, of n V pool' w'] g1 assms(4,6) by auto
  have "s_log (snd (sse_feeds (ev_json V) chunks (sse_new True True True))) = map Token ?us @ [Done]"
    if "concat chunks = concat ?out" for chunks
  proof -
    have "concat chunks = concat (map (\<lambda>(payload, tok). event_text payload) (map (\<lambda>u. (enc u, u)) ?us)) @ event_text ''[DONE]''"
      using that by (simp add: sse_data_def event_text_def kPrefix_def nl_def comp_def)
    moreover have "\<forall>(payload, tok) \<in> set (map (\<lambda>u. (enc u, u)) ?us). content_chunk (ev_json V) payload tok"
      using chunk_coded_content[OF assms(1,2)] assms(7) by auto
    ultimately show ?thesis
      using feeds_content_stream[of "map (\<lambda>u. (enc u, u)) ?us" "ev_json V" "sse_new True True True" chunks]
      by (simp add: sse_new_def comp_def)
  qed
  moreover have "g_stream_out g' = g_stream_out g @ map (Pair n) ?out" using g'(3) g1(7) by (simp add: comp_def)
  moreover have "http_deliver_all V th n (map Token toks @ [Done]) g = (Inr (), g')"
    using g1(1) g'(1) by (simp add: http_deliver_def andthen_def bind_def)
  ultimately show ?thesis using g' g1(6)
    by (intro exI[of _ g'] exI[of _ ?out]) (simp add: stream_send_def)
qed

definition demo_chunk :: jv where
  "demo_chunk = JObj [(''object'', JStr ''chat.completion.chunk''), (''model'', JStr ''gateway''),
     (''choices'', JArr [JObj [(''index'', JInt 0), (''delta'', JObj [(''content'', JStr ''Hi'')]), (''finish_reason'', JNull)]])]"

theorem http_stream_roundtrip_witness:
  "\<exists>(V :: (jv, lua_value, unit) environment) g' out. http_deliver_all V 1 0 (map Token [''Hi'', ''Hi''] @ [Done]) demo_gw = (Inr (), g') \<and>
     g_stream_out g' = map (Pair 0) out \<and>
     s_log (snd (sse_feeds (ev_json V) out (sse_new True True True))) = [Token ''Hi'', Token ''Hi'', Done]"
proof -
  let ?J = "sample_json (\<lambda>_. Inr demo_chunk) (\<lambda>_. Inr ''c'')" and ?toks = "[''Hi'', ''Hi'']"
  let ?V = "demo_V\<lparr>ev_json := ?J\<rparr>"
  have start: "pool_reach 1 [] LTable (pool_new 1 [] LTable, [])" by (rule pool_reach_start)
  obtain p1 where p1: "with_vm (\<lambda>m. Inr (''Hi'', m)) (Some (pool_new 1 [] LTable)) () = Inr (''Hi'', Some p1, ())"
      "pool_reach 1 [] LTable (p1, [])" using with_vm_pure[OF start zero_less_one, where a = "''Hi''" and w = "()"] by blast
  obtain p2 where p2: "with_vm (\<lambda>m. Inr (''Hi'', m)) (Some p1) () = Inr (''Hi'', Some p2, ())"
      "pool_reach 1 [] LTable (p2, [])" using with_vm_pure[OF p1(2) zero_less_one, where a = "''Hi''" and w = "()"] by blast
  obtain p3 where p3: "with_vm (\<lambda>m. Inr ((), m)) (Some p2) () = Inr ((), Some p3, ())"
    using with_vm_pure[OF p2(2) zero_less_one, where a = "()" and w = "()"] by blast
  have J: "ev_json ?V = ?J" "ev_rt ?V = demo_rt" by simp_all
  have "json_laws (ev_json ?V)" by simp
  moreover have "json_list_laws (ev_json ?V)" unfolding J by (simp add: json_list_laws_def) (simp add: sample_json_def)
  moreover have "g_pools demo_gw 1 \<noteq> None" "0 \<notin> g_stream_closed demo_gw" by (simp_all add: demo_gw_def)
  moreover have "filter_tokens (ev_rt ?V) (pm_plugins (g_plugins demo_gw)) ?toks (g_pools demo_gw 1) (g_world demo_gw) =
      Inr (?toks, Some p2, ())"
    using p1 p2 by (simp add: run_token_pipeline_def)
  moreover have "run_done_pipeline (ev_rt ?V) (pm_plugins (g_plugins demo_gw)) (Some p2) () = Inr ((), Some p3, ())"
    using p3 by (simp add: run_done_pipeline_def)
  moreover have "chunk_coded (ev_json ?V) (\<lambda>_. ''c'') u" if "u \<in> set ?toks" for u
    using that by (simp add: chunk_coded_def chunk_json_def demo_chunk_def one_line_def)
  ultimately obtain g' out where "http_deliver_all ?V 1 0 (map Token ?toks @ [Done]) demo_gw = (Inr (), g')"
      "g_stream_out g' = g_stream_out demo_gw @ map (Pair 0) out"
      "\<forall>chunks. concat chunks = concat out \<longrightarrow>
        s_log (snd (sse_feeds (ev_json ?V) chunks (sse_new True True True))) = map Token (filter (\<lambda>u. u \<noteq> []) ?toks) @ [Done]"
    using http_stream_roundtrip[of ?V demo_gw 1 0 ?toks ?toks "Some p2" "()" "Some p3" "()" "\<lambda>_. ''c''"] by blast
  then show ?thesis by (intro exI[of _ ?V] exI[of _ g'] exI[of _ out]) (simp add: demo_gw_def)
qed

end
