(* ===== verification/Startup.thy ===== *)
theory Startup
  imports Http_Api
begin

text \<open>
  Start-up and shutdown of the gateway (\<open>load_config\<close> and \<open>main\<close> in \<open>src/main.cpp\<close>, \<open>create_upstream\<close> in
  \<open>src/remote_upstream.cpp\<close>) up to the point where the HTTP server runs. The files and the plugin directory
  are inputs; the listeners of the server, the log file and the threads are not part of the state.
\<close>

section \<open>Configuration\<close>

record ('v, 'w) process =
  ps_gw :: "('v, 'w) gateway"
  ps_upstream :: "remote_upstream option"

definition in_gw :: "(('v, 'w) gateway, 'a) op \<Rightarrow> (('v, 'w) process, 'a) op" where
  "in_gw m ps = (case m (ps_gw ps) of (r, g) \<Rightarrow> (r, ps\<lparr>ps_gw := g\<rparr>))"

lemma in_gw_simps [simp]:
  "in_gw (modify f) ps = (Inr (), ps\<lparr>ps_gw := f (ps_gw ps)\<rparr>)" "in_gw (ret a) ps = (Inr a, ps)"
  by (simp_all add: in_gw_def)

datatype upstream_type = REMOTE | LOCAL_LLAMA

definition create_upstream :: "metrics \<Rightarrow> upstream_type \<Rightarrow> remote_upstream option" where
  "create_upstream m t =
     (case t of
        REMOTE \<Rightarrow> Some \<lparr>ru_running = False, ru_pending = [], ru_active = [], ru_metrics = m, ru_errors = []\<rparr>
      | LOCAL_LLAMA \<Rightarrow> None)"

definition backend_of_json :: "'j jlib \<Rightarrow> 'j \<Rightarrow> (string \<times> backend_node) result" where
  "backend_of_json J be =
     bindE (jvalue_str J be ''name'' []) (\<lambda>name.
     bindE (jvalue_str J be ''url'' []) (\<lambda>url.
     bindE (jvalue_str J be ''api_key'' []) (\<lambda>key.
     bindE (jvalue_str J be ''model'' []) (\<lambda>model.
     bindE (jvalue_int J be ''weight'' 1) (\<lambda>weight.
     bindE (jvalue_str J be ''route_model'' ''*'') (\<lambda>group.
     Inr (group, default_node\<lparr>bn_name := name, bn_url := url, bn_api_key := key, bn_model := model, bn_weight := weight\<rparr>)))))))"

definition register_backend :: "'j jlib \<Rightarrow> 'j \<Rightarrow> (('v, 'w) process, unit) op" where
  "register_backend J be =
     bind (lift (backend_of_json J be)) (\<lambda>(group, n).
     in_gw (modify (\<lambda>g. g\<lparr>g_router := register_node group n (g_router g)\<rparr>)))"

definition key_of_json :: "'j jlib \<Rightarrow> 'j \<Rightarrow> key_info result" where
  "key_of_json J k =
     bindE (jvalue_str J k ''key'' []) (\<lambda>key.
     bindE (jvalue_str J k ''models'' ''*'') (\<lambda>models.
     bindE (jvalue_int J k ''qps'' 10) (\<lambda>qps.
     bindE (jvalue_bool J k ''enabled'' True) (\<lambda>enabled.
     Inr \<lparr>ki_key = key, ki_allowed_models = models, ki_qps_limit = qps, ki_enabled = enabled\<rparr>))))"

definition add_api_key :: "clocks \<Rightarrow> key_info \<Rightarrow> (('v, 'w) process, unit) op" where
  "add_api_key K ki = in_gw (modify (\<lambda>g. g\<lparr>g_auth := add_key (ck_steady K) ki (g_auth g)\<rparr>))"

definition init_plugins ::
  "(plugin_runtime list \<Rightarrow> plugin_runtime list) \<Rightarrow> ('j, 'v, 'w) environment \<Rightarrow> files \<Rightarrow>
     (string \<Rightarrow> (string \<times> bool) list option) \<Rightarrow> string \<Rightarrow> int \<Rightarrow> (('v, 'w) process, unit) op" where
  "init_plugins std_sort V fs listing dir n = in_gw (\<lambda>g.
     case pm_init std_sort (ev_rt V) fs (listing dir) dir (unat (word_of_int n :: u64)) (g_world g) of
       Inl e \<Rightarrow> (Inl e, g) | Inr (pm, w) \<Rightarrow> (Inr (), g\<lparr>g_plugins := pm, g_world := w\<rparr>))"

text \<open>\<open>if (cfg.contains(k)) for (auto& x : cfg[k])\<close>\<close>

definition elems_field :: "'j jlib \<Rightarrow> 'j \<Rightarrow> string \<Rightarrow> 'j list result" where
  "elems_field J cfg k = (if jcontains J cfg k then bindE (jat J cfg k) (\<lambda>a. Inr (jelems J a)) else Inr [])"

definition load_config ::
  "(plugin_runtime list \<Rightarrow> plugin_runtime list) \<Rightarrow> ('j, 'v, 'w) environment \<Rightarrow> clocks \<Rightarrow> files \<Rightarrow>
     (string \<Rightarrow> (string \<times> bool) list option) \<Rightarrow> string \<Rightarrow> (('v, 'w) process, unit) op" where
  "load_config std_sort V K fs listing path =
     (let J = ev_json V in
     case fs path of
       None \<Rightarrow> ret ()
     | Some content \<Rightarrow>
         bind (lift (jparse J content)) (\<lambda>cfg.
         bind (lift (jvalue_str J cfg ''plugins_dir'' ''plugins'')) (\<lambda>dir.
         bind (lift (jvalue_int J cfg ''lua_pool_size'' 8)) (\<lambda>n.
         andthen (init_plugins std_sort V fs listing dir n)
         (bind (lift (elems_field J cfg ''backends'')) (\<lambda>backends.
          andthen (each (register_backend J) backends)
          (bind (lift (elems_field J cfg ''api_keys'')) (\<lambda>keys.
           andthen (each (\<lambda>k. bind (lift (key_of_json J k)) (add_api_key K)) keys)
           (bind (lift (jvalue_str J cfg ''upstream_type'' ''remote'')) (\<lambda>ut.
            modify (\<lambda>ps. ps\<lparr>ps_upstream :=
              map_option ru_start (if ut = ''local_llama'' then create_upstream (g_metrics (ps_gw ps)) REMOTE
                                   else create_upstream (g_metrics (ps_gw ps)) REMOTE)\<rparr>)))))))))))"

section \<open>The main program\<close>

definition local_node :: backend_node where
  "local_node = default_node\<lparr>bn_name := ''ollama-local'', bn_url := ''http://127.0.0.1:11434/v1/chat/completions'',
     bn_model := ''qwen2.5:7b-instruct-q4_K_M'', bn_weight := 1\<rparr>"

definition builtin_key :: "string \<Rightarrow> key_info" where
  "builtin_key k = \<lparr>ki_key = k, ki_allowed_models = ''*'', ki_qps_limit = 60, ki_enabled = True\<rparr>"

definition start_gateway ::
  "(plugin_runtime list \<Rightarrow> plugin_runtime list) \<Rightarrow> ('j, 'v, 'w) environment \<Rightarrow> clocks \<Rightarrow> files \<Rightarrow>
     (string \<Rightarrow> (string \<times> bool) list option) \<Rightarrow> bool \<Rightarrow> string \<Rightarrow> (('v, 'w) process, unit) op" where
  "start_gateway std_sort V K fs listing inotify_ok path =
     andthen (load_config std_sort V K fs listing path)
     (andthen (in_gw (modify (\<lambda>g. g\<lparr>g_coord := co_init (ev_json V) ''data/l2_cache'' ''data/l3_archive'' (g_coord g),
                               g_plugins := start_hot_reload inotify_ok (g_plugins g)\<rparr>)))
     (bind (in_gw (route_model ''local-model'')) (\<lambda>n.
      andthen (if n = None
               then in_gw (modify (\<lambda>g. g\<lparr>g_router := register_node ''*'' local_node (register_node ''local-model'' local_node (g_router g))\<rparr>))
               else ret ())
      (andthen (add_api_key K (builtin_key ''test-key-123'')) (add_api_key K (builtin_key ''default-key''))))))"

definition stop_gateway :: "('j, 'v, 'w) environment \<Rightarrow> clocks \<Rightarrow> (('v, 'w) process, unit) op" where
  "stop_gateway V K =
     andthen (in_gw (modify (\<lambda>g. g\<lparr>g_plugins := pm_shutdown (g_plugins g)\<rparr>)))
       (in_gw (raising (\<lambda>g. case co_shutdown (ev_json V) (ev_l3 V) (ck_system K) (g_coord g) of (e, co) \<Rightarrow> (e, g\<lparr>g_coord := co\<rparr>))))"

section \<open>What start-up guarantees\<close>

lemma group_healthy_pick: "pick lb = (x, lb') \<Longrightarrow> group_healthy (r(m \<mapsto> lb')) g = (if g = m then set (healthy_nodes lb) else group_healthy r g)"
  by (simp add: group_healthy_def pick_healthy_nodes)

lemma group_healthy_route_default: "group_healthy (snd (route_default r)) g = group_healthy r g"
proof (cases "r default_group")
  case (Some lb)
  obtain x lb' where p: "pick lb = (x, lb')" by force
  then show ?thesis using Some group_healthy_pick[OF p, of r default_group g]
    by (simp add: route_default_def) (simp add: group_healthy_def)
qed (simp add: route_default_def)

lemma group_healthy_route: "group_healthy (snd (route m r)) g = group_healthy r g"
proof (cases "r m")
  case None
  then show ?thesis by (simp add: route_def group_healthy_route_default)
next
  case (Some lb)
  obtain x lb' where p: "pick lb = (x, lb')" by force
  have "group_healthy (r(m \<mapsto> lb')) g = group_healthy r g"
    using Some group_healthy_pick[OF p, of r m g] by (simp add: group_healthy_def)
  then show ?thesis using Some p by (cases x) (simp_all add: route_def group_healthy_route_default)
qed

lemma route_some_iff: "fst (route m r) \<noteq> None \<longleftrightarrow> group_healthy r m \<noteq> {} \<or> group_healthy r default_group \<noteq> {}"
  using route_cases[where model = m and r = r] by (cases "fst (route m r)") auto

lemma group_healthy_register: "bn_healthy n \<Longrightarrow> n \<in> group_healthy (register_node g n r) g"
  by (simp add: group_healthy_def register_node_def add_node_def healthy_nodes_def split: option.split)

lemma group_healthy_is: "\<exists>g. m \<in> group_healthy r g \<Longrightarrow> bn_healthy m"
  by (auto simp: group_healthy_def healthy_nodes_def split: option.splits)

lemma route_Some_healthy: "fst (route m r) = Some n \<Longrightarrow> bn_healthy n"
  using route_cases[where model = m and r = r] group_healthy_is by fastforce

text \<open>Adding keys and nodes leaves the engine alone.\<close>

lemma each_keeps [keeps_rules]: "(\<And>x. keeps I (f x)) \<Longrightarrow> keeps I (each f xs)"
  by (induction xs) (simp_all add: keeps_andthen keeps_pure)

lemma enabled_key_verify:
  "\<exists>ki. au_keys a k = Some ki \<and> ki_enabled ki \<and> au_buckets a k \<noteq> None \<Longrightarrow>
     fst (verify now k model a) \<in> {Inr auth_passed, Inr auth_limited}"
  by (auto simp: verify_def Let_def split: prod.split)

lemma load_config_upstream:
  assumes "load_config std_sort V K fs listing path ps = (Inr (), ps')"
  shows "(case fs path of None \<Rightarrow> ps' = ps | Some _ \<Rightarrow> \<exists>u. ps_upstream ps' = Some u \<and> ru_running u \<and> ru_pending u = [])"
proof (cases "fs path")
  case (Some content)
  show ?thesis
    using assms Some
    by (auto simp: load_config_def Let_def bind_def andthen_def create_upstream_def ru_start_def
        split: prod.splits sum.splits)
qed (use assms in \<open>simp add: load_config_def\<close>)

text \<open>C23. A gateway that starts can serve. Whatever the configuration and the plugins, when start-up
  returns without an exception the router has a healthy backend for \<open>local-model\<close>, the two built-in keys are
  registered and enabled, so a request with one of them is refused for its rate at most, even where the
  configuration disables the key; and an upstream engine runs with an empty queue exactly as far as a
  configuration file was there: without one the engine pointer stays what it was.\<close>

theorem startup_serves:
  assumes "start_gateway std_sort V K fs listing inotify_ok path ps = (Inr (), ps')"
  shows "(\<exists>n. fst (route ''local-model'' (g_router (ps_gw ps'))) = Some n \<and> bn_healthy n) \<and>
    (\<forall>k \<in> {''test-key-123'', ''default-key''}. \<forall>now model.
       fst (verify now k model (g_auth (ps_gw ps'))) \<in> {Inr auth_passed, Inr auth_limited}) \<and>
    (case fs path of None \<Rightarrow> ps_upstream ps' = ps_upstream ps
     | Some _ \<Rightarrow> \<exists>u. ps_upstream ps' = Some u \<and> ru_running u \<and> ru_pending u = [])"
proof -
  obtain ps1 where ld: "load_config std_sort V K fs listing path ps = (Inr (), ps1)"
    using assms by (auto simp: start_gateway_def andthen_def bind_def split: prod.splits sum.splits)
  obtain n r where rt: "route ''local-model'' (g_router (ps_gw ps1)) = (n, r)" by force
  let ?r = "if n = None then register_node ''*'' local_node (register_node ''local-model'' local_node r) else r"
  let ?a = "add_key (ck_steady K) (builtin_key ''default-key'') (add_key (ck_steady K) (builtin_key ''test-key-123'') (g_auth (ps_gw ps1)))"
  have "g_router (ps_gw ps') = ?r \<and> g_auth (ps_gw ps') = ?a \<and> ps_upstream ps' = ps_upstream ps1"
    using assms ld rt
    by (cases "n = None") (auto simp: start_gateway_def andthen_def bind_def in_gw_def route_model_def add_api_key_def)
  then have R: "g_router (ps_gw ps') = ?r" and A: "g_auth (ps_gw ps') = ?a" and U: "ps_upstream ps' = ps_upstream ps1"
    by blast+
  have "group_healthy ?r ''local-model'' \<noteq> {} \<or> group_healthy ?r default_group \<noteq> {}"
  proof (cases "n = None")
    case True
    have "local_node \<in> group_healthy (register_node ''*'' local_node (register_node ''local-model'' local_node r)) ''*''"
      by (rule group_healthy_register) (simp add: local_node_def default_node_def)
    then show ?thesis using True by (auto simp: default_group_def)
  next
    case False
    then show ?thesis
      using route_some_iff[of "''local-model''" "g_router (ps_gw ps1)"] group_healthy_route[of "''local-model''" "g_router (ps_gw ps1)"] rt
      by auto
  qed
  then obtain m where m: "fst (route ''local-model'' ?r) = Some m" using route_some_iff by blast
  have "bn_healthy m" by (rule route_Some_healthy[OF m])
  then have "\<exists>m. fst (route ''local-model'' (g_router (ps_gw ps'))) = Some m \<and> bn_healthy m"
    unfolding R by (intro exI[of _ m] conjI m)
  moreover have "\<exists>ki. au_keys ?a ''test-key-123'' = Some ki \<and> ki_enabled ki \<and> au_buckets ?a ''test-key-123'' \<noteq> None"
      "\<exists>ki. au_keys ?a ''default-key'' = Some ki \<and> ki_enabled ki \<and> au_buckets ?a ''default-key'' \<noteq> None"
    by (simp_all add: add_key_def builtin_key_def split: option.split)
  then have "\<forall>k \<in> {''test-key-123'', ''default-key''}. \<forall>now model.
       fst (verify now k model (g_auth (ps_gw ps'))) \<in> {Inr auth_passed, Inr auth_limited}"
    unfolding A by (simp only: ball_simps enabled_key_verify simp_thms)
  ultimately show ?thesis using load_config_upstream[OF ld] U by (simp split: option.splits)
qed

theorem startup_serves_witness:
  "\<exists>ps'. start_gateway (\<lambda>ps. ps) demo_V demo_K (\<lambda>_. None) (\<lambda>_. None) True ''c'' \<lparr>ps_gw = demo_gw, ps_upstream = None\<rparr> = (Inr (), ps') \<and>
     (\<exists>n. fst (route ''local-model'' (g_router (ps_gw ps'))) = Some n) \<and>
     fst (verify 0 ''default-key'' ''m'' (g_auth (ps_gw ps'))) \<in> {Inr auth_passed, Inr auth_limited} \<and> ps_upstream ps' = None"
proof -
  have "\<exists>ps'. start_gateway (\<lambda>ps. ps) demo_V demo_K (\<lambda>_. None) (\<lambda>_. None) True ''c'' \<lparr>ps_gw = demo_gw, ps_upstream = None\<rparr> = (Inr (), ps')"
    by (simp add: start_gateway_def load_config_def andthen_def bind_def in_gw_def route_model_def add_api_key_def split: prod.split)
  then obtain ps' where run: "start_gateway (\<lambda>ps. ps) demo_V demo_K (\<lambda>_. None) (\<lambda>_. None) True ''c''
      \<lparr>ps_gw = demo_gw, ps_upstream = None\<rparr> = (Inr (), ps')" by blast
  then show ?thesis using startup_serves[OF run] by auto
qed

end
