(* ===== verification/L2_Recursion.thy ===== *)
theory L2_Recursion
  imports L2_Cascade
begin

text \<open>
  \<open>cascade_invalidate_internal\<close> as the recursion it is in the source: the function calls itself inside its
  loop and shares \<open>visited\<close> and the entries with its callers. The recursion depth is bounded by a fuel; a
  fuel above the number of entries is enough on every dependency graph, and the result is the one of the
  loop with an explicit stack in \<open>L2_Cache\<close>, on which the other theorems rest.
\<close>

type_synonym cascade_state = "string list \<times> (string, cache_entry) umap"

fun cascade_each ::
  "(string \<Rightarrow> string option \<Rightarrow> cascade_state \<Rightarrow> cascade_state option) \<Rightarrow> string \<Rightarrow> string option \<Rightarrow> string list \<Rightarrow>
     cascade_state \<Rightarrow> cascade_state option" where
  "cascade_each call key reason [] s = Some s"
| "cascade_each call key reason (d # ds) (visited, es) =
     (case um_find es d of
        None \<Rightarrow> cascade_each call key reason ds (visited, es)
      | Some e \<Rightarrow>
          if e_status e \<noteq> INVALIDATED
          then (case call d None (visited, um_set d (soften (upstream_reason key (reason_text es key reason)) e) es) of
                  None \<Rightarrow> None
                | Some s \<Rightarrow> cascade_each call key reason ds s)
          else cascade_each call key reason ds (visited, es))"

fun cascade_rec ::
  "nat \<Rightarrow> (string, string list) umap \<Rightarrow> string \<Rightarrow> string option \<Rightarrow> cascade_state \<Rightarrow> cascade_state option" where
  "cascade_rec 0 rv key reason s = None"
| "cascade_rec (Suc n) rv key reason (visited, es) =
     (if key \<in> set visited then Some (visited, es)
      else cascade_each (cascade_rec n rv) key reason (rev_of rv key) (visited @ [key], es))"

text \<open>The cached keys that are still to be visited.\<close>

definition unvisited :: "cascade_state \<Rightarrow> nat" where
  "unvisited s = length (filter (\<lambda>k. k \<notin> set (fst s)) (map fst (snd s)))"

lemma unvisited_visit: "um_find es d = Some e \<Longrightarrow> d \<notin> set vis \<Longrightarrow> unvisited (vis @ [d], es) < unvisited (vis, es)"
  unfolding unvisited_def using filter_unvisited[of d "map fst es" vis] um_find_SomeD[of es d e] by force

lemma unvisited_update: "um_find es d = Some e \<Longrightarrow> unvisited (vis, um_set d e' es) = unvisited (vis, es)"
  by (simp add: unvisited_def um_set_keys)

lemma unvisited_grow: "unvisited (vis @ vis', es) \<le> unvisited (vis, es)"
proof -
  have "filter (\<lambda>k. k \<notin> set (vis @ vis')) ks = filter (\<lambda>k. k \<notin> set vis') (filter (\<lambda>k. k \<notin> set vis) ks)" for ks
    by (simp add: conj_commute)
  then show ?thesis unfolding unvisited_def fst_conv snd_conv by (metis length_filter_le)
qed

text \<open>A call that returns, only adds visited keys, keeps the keys of the entries, and does what the loop
  does with its frame on the stack.\<close>

definition call_ok :: "(string, string list) umap \<Rightarrow> nat \<Rightarrow> (string \<Rightarrow> string option \<Rightarrow> cascade_state \<Rightarrow> cascade_state option) \<Rightarrow> bool" where
  "call_ok rv n call \<longleftrightarrow> (\<forall>key reason vis es. unvisited (vis, es) < n \<longrightarrow> um_find es key \<noteq> None \<longrightarrow>
     (\<exists>vis' es'. call key reason (vis, es) = Some (vis @ vis', es') \<and> map fst es' = map fst es \<and>
        (\<forall>st. cascade_run rv st (vis @ vis') es' =
           (if key \<in> set vis then cascade_run rv st vis es
            else cascade_run rv ((key, reason, rev_of rv key) # st) (vis @ [key]) es))))"

lemma cascade_each_run:
  assumes "call_ok rv n call" "unvisited (vis, es) < n"
  shows "\<exists>vis' es'. cascade_each call key reason ds (vis, es) = Some (vis @ vis', es') \<and> map fst es' = map fst es \<and>
    (\<forall>st. cascade_run rv st (vis @ vis') es' = cascade_run rv ((key, reason, ds) # st) vis es)"
  using assms(2)
proof (induction ds arbitrary: vis es)
  case Nil
  then show ?case by (intro exI[of _ "[]"] exI[of _ es]) (simp add: cascade_run.simps)
next
  case (Cons d ds)
  show ?case
  proof (cases "\<exists>e. um_find es d = Some e \<and> e_status e \<noteq> INVALIDATED")
    case False
    then show ?thesis using Cons by (cases "um_find es d") (auto simp: cascade_run.simps)
  next
    case True
    then obtain e where e: "um_find es d = Some e" "e_status e \<noteq> INVALIDATED" by blast
    let ?es = "um_set d (soften (upstream_reason key (reason_text es key reason)) e) es"
    have "unvisited (vis, ?es) < n" "um_find ?es d \<noteq> None" using Cons.prems unvisited_update[OF e(1)] by simp_all
    then obtain vis1 es1 where r1: "call d None (vis, ?es) = Some (vis @ vis1, es1)" "map fst es1 = map fst ?es"
        "\<And>st. cascade_run rv st (vis @ vis1) es1 = (if d \<in> set vis then cascade_run rv st vis ?es
           else cascade_run rv ((d, None, rev_of rv d) # st) (vis @ [d]) ?es)"
      using assms(1) unfolding call_ok_def by blast
    have keys: "map fst es1 = map fst es" using r1(2) um_set_keys[OF e(1)] by metis
    have "unvisited (vis @ vis1, es1) \<le> unvisited (vis, es)"
      using unvisited_grow[of vis vis1 es] keys unfolding unvisited_def by simp
    then have "unvisited (vis @ vis1, es1) < n" using Cons.prems by simp
    from Cons.IH[OF this] obtain vis2 es2 where r2:
        "cascade_each call key reason ds (vis @ vis1, es1) = Some (vis @ vis1 @ vis2, es2)" "map fst es2 = map fst es1"
        "\<And>st. cascade_run rv st (vis @ vis1 @ vis2) es2 = cascade_run rv ((key, reason, ds) # st) (vis @ vis1) es1"
      by auto
    have "cascade_each call key reason (d # ds) (vis, es) = Some (vis @ vis1 @ vis2, es2)" using e r1(1) r2(1) by simp
    moreover have "cascade_run rv st (vis @ vis1 @ vis2) es2 = cascade_run rv ((key, reason, d # ds) # st) vis es" for st
      using e r2(3) r1(3)[of "(key, reason, ds) # st"] by (simp add: cascade_run.simps Let_def)
    ultimately show ?thesis using keys r2(2) by (intro exI[of _ "vis1 @ vis2"] exI[of _ es2]) simp
  qed
qed

lemma cascade_rec_ok: "call_ok rv n (cascade_rec n rv)"
proof (induction n)
  case (Suc n)
  have "\<exists>vis' es'. cascade_rec (Suc n) rv key reason (vis, es) = Some (vis @ vis', es') \<and> map fst es' = map fst es \<and>
      (\<forall>st. cascade_run rv st (vis @ vis') es' = (if key \<in> set vis then cascade_run rv st vis es
         else cascade_run rv ((key, reason, rev_of rv key) # st) (vis @ [key]) es))"
    if fuel: "unvisited (vis, es) < Suc n" and key: "um_find es key \<noteq> None" for key reason vis es
  proof (cases "key \<in> set vis")
    case True
    then show ?thesis by (intro exI[of _ "[]"] exI[of _ es]) simp
  next
    case False
    obtain e where e: "um_find es key = Some e" using key by auto
    have "unvisited (vis @ [key], es) < n" using fuel unvisited_visit[OF e False] by simp
    from cascade_each_run[OF Suc this, of key reason "rev_of rv key"] show ?thesis using False by force
  qed
  then show ?case unfolding call_ok_def by blast
qed (simp add: call_ok_def)

text \<open>C17. The cascade of a hard invalidation always returns: on every dependency graph, cyclic or not, the
  recursion from a cached key is never deeper than one activation more than the cache has entries, and what
  it leaves in the entries is what the loop with an explicit stack computes.\<close>

theorem cascade_returns:
  assumes "um_find es key \<noteq> None" "length es < n"
  shows "\<exists>visited. cascade_rec n rv key (Some reason) ([], es) = Some (visited, cascade_invalidate key reason rv es)"
proof -
  have "unvisited ([], es) < n" using assms(2) by (simp add: unvisited_def)
  then obtain vis es' where r: "cascade_rec n rv key (Some reason) ([], es) = Some (vis, es')"
      "\<And>st. cascade_run rv st vis es' = cascade_run rv ((key, Some reason, rev_of rv key) # st) [key] es"
    using cascade_rec_ok[of rv n] assms(1) unfolding call_ok_def by (metis append_Nil empty_iff list.set(1))
  from r(2)[of "[]"] have "es' = cascade_invalidate key reason rv es"
    by (simp add: cascade_invalidate_def cascade_run.simps)
  then show ?thesis using r(1) by blast
qed

theorem cascade_returns_witness:
  "\<exists>visited. cascade_rec 3 (l2_dep_rev dep_demo) ''a'' (Some ''gone'') ([], l2_entries dep_demo) =
     Some (visited, cascade_invalidate ''a'' ''gone'' (l2_dep_rev dep_demo) (l2_entries dep_demo))"
  by (rule cascade_returns) (simp_all add: dep_demo_find, simp add: dep_demo_def l2_set_mem_def Let_def l2_new_def um_set_def)

text \<open>On a cycle the reference to the reason shows: \<open>a\<close> and \<open>b\<close> depend on each other and \<open>c\<close> on \<open>b\<close>. The
  activation for \<open>b\<close> softens \<open>a\<close> and recurses, where \<open>b\<close>'s own reason is overwritten, and the reason recorded
  for \<open>c\<close> names the way round the cycle.\<close>

lemma cascade_reason_alias:
  assumes "k \<noteq> a" "k \<noteq> b" "k \<noteq> c" "a \<noteq> b" "a \<noteq> c" "b \<noteq> c"
    "rev_of rv k = [b]" "rev_of rv a = [b]" "rev_of rv b = [a, c]" "rev_of rv c = []"
    "um_find es a = Some ea" "um_find es b = Some eb" "um_find es c = Some ec"
    "e_status ea = FRESH" "e_status eb = FRESH" "e_status ec = FRESH"
  shows "map_option e_invalid_reason (um_find (cascade_invalidate k r rv es) c) =
    Some (upstream_reason b (upstream_reason a (upstream_reason b (upstream_reason k r))))"
  using assms by (simp add: cascade_invalidate_def cascade_run.simps Let_def soften_def reason_text_def)

end
