(* ===== verification/Gateway_System.thy ===== *)
theory Gateway_System
  imports Http_Chat
begin

text \<open>
  The gateway as a transition system: connections, messages, tasks of the event loops, callbacks of the
  upstream engine and HTTP requests, in any order, each of them with whatever exception it ends in. The
  invariant says that what the controller keeps about connections is never stale in a way that matters:
  everything it may send to has a context, session identifiers are unique, and every cancel flag belongs
  to one request of one connection.
\<close>

section \<open>Steps\<close>

inductive gw_step :: "('j, 'v, 'w) environment \<Rightarrow> ('v, 'w) gateway \<Rightarrow> ('v, 'w) gateway \<Rightarrow> bool" for V where
  opened: "g_ctx g c = None \<Longrightarrow>
     handle_new_connection V K th req c (g\<lparr>g_status := (g_status g)(c := Connected)\<rparr>) = (r, g') \<Longrightarrow> gw_step V g g'"
| message: "handle_new_message V K th c is_text text g = (r, g') \<Longrightarrow> gw_step V g g'"
| lost: "s \<noteq> Connected \<Longrightarrow> gw_step V g (g\<lparr>g_status := (g_status g)(c := s)\<rparr>)"
| closed: "handle_connection_closed V K c g = (r, g') \<Longrightarrow> gw_step V g g'"
| task: "g_tasks g = ts1 @ (l, t) # ts2 \<Longrightarrow> l \<notin> fst ` set ts1 \<Longrightarrow>
     run_task V t (g\<lparr>g_tasks := ts1 @ ts2\<rparr>) = (r, g') \<Longrightarrow> gw_step V g g'"
| event: "s \<in> set (g_submitted g) \<Longrightarrow> sm_cb s = WsCallbacks cb \<Longrightarrow> deliver V K th cb ev g = (r, g') \<Longrightarrow> gw_step V g g'"
| failure: "s \<in> set (g_submitted g) \<Longrightarrow> sm_cb s = WsCallbacks cb \<Longrightarrow> on_error V th cb err g = (r, g') \<Longrightarrow> gw_step V g g'"
| http: "handle_chat V K th req g = (rsp, g') \<Longrightarrow> gw_step V g g'"
| http_start: "start_stream V th ss g = (rn, g') \<Longrightarrow> gw_step V g g'"
| http_event: "http_deliver V th n ev g = (r, g') \<Longrightarrow> gw_step V g g'"
| http_failure: "http_on_error V n err g = (r, g') \<Longrightarrow> gw_step V g g'"

text \<open>A gateway before its first connection.\<close>

definition gw_start :: "('v, 'w) gateway \<Rightarrow> bool" where
  "gw_start g \<longleftrightarrow> (\<forall>c. g_ctx g c = None) \<and> g_sessions g = [] \<and> g_executors g = [] \<and> g_pending_tools g = [] \<and>
     g_pending_agents g = [] \<and> g_tasks g = [] \<and> g_submitted g = []"

abbreviation gw_reach :: "('j, 'v, 'w) environment \<Rightarrow> ('v, 'w) gateway \<Rightarrow> bool" where
  "gw_reach V \<equiv> reach_of gw_start (gw_step V)"

section \<open>Session identifiers\<close>

definition digits_value :: "string \<Rightarrow> nat" where
  "digits_value s = foldl (\<lambda>a c. 10 * a + (of_char c - 48)) 0 s"

lemma digits_value_nat: "digits_value (nat_to_string n) = n"
proof (induction n rule: nat_to_string.induct)
  case (1 n)
  show ?case
  proof (cases "n < 10")
    case True
    then show ?thesis by (subst nat_to_string.simps) (simp add: digits_value_def of_digit_char)
  next
    case False
    then show ?thesis using 1
      by (subst nat_to_string.simps) (simp add: digits_value_def of_digit_char)
  qed
qed

lemma nat_to_string_no_dash: "CHR ''-'' \<notin> set (nat_to_string n)"
  using nat_to_string_digits[of "CHR ''-''" n] by auto

lemma session_id_number:
  assumes "p @ ''-'' @ nat_to_string n = p' @ ''-'' @ nat_to_string n'"
  shows "n = n'"
proof -
  have tail: "takeWhile (\<lambda>c. c \<noteq> CHR ''-'') (rev (q @ ''-'' @ nat_to_string k)) = rev (nat_to_string k)" for q k
    using nat_to_string_no_dash[of k] by (simp add: takeWhile_tail) metis
  have "nat_to_string n = nat_to_string n'" using tail[of p n] unfolding assms tail by simp
  then show ?thesis by (metis digits_value_nat)
qed

section \<open>The invariant\<close>

definition ws_cbs :: "('v, 'w) gateway \<Rightarrow> chat_cb list" where
  "ws_cbs g = List.map_filter (\<lambda>s. case sm_cb s of WsCallbacks cb \<Rightarrow> Some cb | HttpCallbacks _ \<Rightarrow> None) (g_submitted g)"

definition request_flags :: "chat_cb list \<Rightarrow> nat list" where
  "request_flags cbs = concat (map (\<lambda>cb. [cb_cancel cb, cb_first cb]) cbs)"

text \<open>The flags that a connection's context holds.\<close>

definition own_flags :: "session_ctx option \<Rightarrow> (string \<times> nat) set" where
  "own_flags ctx = (case ctx of None \<Rightarrow> {} | Some x \<Rightarrow> set (sx_active_requests x))"

text \<open>The connections for which a tool call is queued.\<close>

definition tool_task_conns :: "(loop \<times> loop_task) list \<Rightarrow> conn set" where
  "tool_task_conns ts = (\<Union>lt \<in> set ts. case snd lt of ToolCallTask c _ _ _ _ \<Rightarrow> {c} | _ \<Rightarrow> {})"

lemma tool_task_conns_simps [simp]:
  "tool_task_conns [] = {}" "tool_task_conns (ts @ us) = tool_task_conns ts \<union> tool_task_conns us"
  "tool_task_conns ((l, SendTask c t) # ts) = tool_task_conns ts"
  "tool_task_conns ((l, EraseTask c t) # ts) = tool_task_conns ts"
  "tool_task_conns ((l, ToolCallTask c rid cid name args) # ts) = insert c (tool_task_conns ts)"
  by (auto simp: tool_task_conns_def)

text \<open>Every connection that the controller may send to.\<close>

definition targets :: "('v, 'w) gateway \<Rightarrow> conn set" where
  "targets g = set (g_executors g) \<union> snd ` set (g_pending_tools g) \<union> snd ` set (g_pending_agents g) \<union>
     cb_conn ` set (ws_cbs g) \<union> tool_task_conns (g_tasks g)"

definition targets_ok :: "('v, 'w) gateway \<Rightarrow> bool" where
  "targets_ok g \<longleftrightarrow> (\<forall>c \<in> targets g. g_ctx g c \<noteq> None)"

definition sessions_ok :: "('v, 'w) gateway \<Rightarrow> bool" where
  "sessions_ok g \<longleftrightarrow>
     (\<forall>sid c. (sid, c) \<in> set (g_sessions g) \<longrightarrow> (\<exists>x. g_ctx g c = Some x \<and> sx_session_id x = sid)) \<and>
     (\<forall>c x. g_ctx g c = Some x \<longrightarrow> (\<exists>p n. sx_session_id x = p @ ''-'' @ nat_to_string n \<and> n < g_seq g)) \<and>
     (\<forall>c c' x x'. g_ctx g c = Some x \<longrightarrow> g_ctx g c' = Some x' \<longrightarrow> sx_session_id x = sx_session_id x' \<longrightarrow> c = c')"

definition flags_ok :: "('v, 'w) gateway \<Rightarrow> bool" where
  "flags_ok g \<longleftrightarrow>
     distinct (request_flags (ws_cbs g)) \<and> (\<forall>f \<in> set (request_flags (ws_cbs g)). f < g_next_flag g) \<and>
     (\<forall>c rid f. (rid, f) \<in> own_flags (g_ctx g c) \<longrightarrow> f < g_next_flag g \<and>
        (\<forall>cb \<in> set (ws_cbs g). f \<noteq> cb_first cb \<and> (f = cb_cancel cb \<longrightarrow> cb_conn cb = c \<and> cb_request_id cb = rid)))"

definition gw_inv :: "('v, 'w) gateway \<Rightarrow> bool" where
  "gw_inv g \<longleftrightarrow> targets_ok g \<and> sessions_ok g \<and> flags_ok g"

lemmas gw_inv_defs = gw_inv_def targets_ok_def sessions_ok_def flags_ok_def

text \<open>The invariant together with what one handler of connection \<open>c\<close> keeps: the connection has a context,
  and each flag of \<open>F\<close>, which is none of the connection's own, has the value \<open>v\<close> gives it.\<close>

definition gw_at :: "conn \<Rightarrow> nat set \<Rightarrow> (nat \<Rightarrow> bool) \<Rightarrow> ('v, 'w) gateway \<Rightarrow> bool" where
  "gw_at c F v g \<longleftrightarrow> gw_inv g \<and> g_ctx g c \<noteq> None \<and>
     (\<forall>f \<in> F. f < g_next_flag g \<and> f \<notin> snd ` own_flags (g_ctx g c) \<and> g_flags g f = v f)"

definition core :: "('v, 'w) gateway \<Rightarrow> _" where
  "core g = (g_ctx g, g_executors g, g_pending_tools g, g_pending_agents g, g_sessions g, g_seq g, g_submitted g,
     g_next_flag g, g_flags g, tool_task_conns (g_tasks g))"

lemma gw_inv_core: "core g' = core g \<Longrightarrow> gw_inv g' = gw_inv g"
  by (simp add: core_def gw_inv_defs targets_def ws_cbs_def)

lemma gw_at_core: "core g' = core g \<Longrightarrow> gw_at c F v g' = gw_at c F v g"
  using gw_inv_core[of g' g] by (simp add: gw_at_def core_def)

section \<open>Operations that leave the core alone\<close>

definition calm :: "(('v, 'w) gateway, 'a) op \<Rightarrow> bool" where
  "calm m \<longleftrightarrow> (\<forall>g. core (snd (m g)) = core g)"

named_theorems calm_rules

lemma calm_bind [calm_rules]: "calm m \<Longrightarrow> (\<And>a. calm (f a)) \<Longrightarrow> calm (bind m f)"
proof -
  assume m: "calm m" and f: "\<And>a. calm (f a)"
  have "core (snd (bind m f g)) = core g" for g
  proof (cases "m g")
    case (Pair r g1)
    moreover have "core g1 = core g" using m Pair unfolding calm_def by (metis snd_conv)
    ultimately show ?thesis using f unfolding calm_def by (cases r) (simp_all add: bind_def)
  qed
  then show ?thesis by (simp add: calm_def)
qed

lemma calm_andthen [calm_rules]: "calm m \<Longrightarrow> calm n \<Longrightarrow> calm (andthen m n)"
  by (simp add: andthen_def calm_bind)

lemma calm_pure [calm_rules]: "calm (ret a)" "calm (throw e)" "calm (lift r)" "calm (getf f)"
  by (simp_all add: calm_def)

lemma calm_modify: "(\<And>g. core (f g) = core g) \<Longrightarrow> calm (modify f)"
  by (simp add: calm_def)

lemma calm_if [calm_rules]: "(b \<Longrightarrow> calm m) \<Longrightarrow> (\<not> b \<Longrightarrow> calm n) \<Longrightarrow> calm (if b then m else n)"
  by simp

lemma calm_cases [calm_rules]:
  "calm n \<Longrightarrow> (\<And>x. calm (h x)) \<Longrightarrow> calm (case ox of None \<Rightarrow> n | Some x \<Rightarrow> h x)"
  "(\<And>x. calm (k x)) \<Longrightarrow> (\<And>x. calm (h' x)) \<Longrightarrow> calm (case s of Inl x \<Rightarrow> k x | Inr x \<Rightarrow> h' x)"
  "(\<And>x y. calm (q x y)) \<Longrightarrow> calm (case p of (x, y) \<Rightarrow> q x y)"
  by (simp_all split: option.split sum.split prod.split)

lemma calm_prims [calm_rules]:
  "calm (ensure_thread_pool V th)" "calm (conn_send c t)" "calm (upd_metrics f)" "calm (verify_key K key m)"
  "calm (route_model m)" "calm (on_pool body th)" "calm (queue_in_loop l (SendTask c t))"
  "calm (queue_in_loop l (EraseTask c t))" "calm (on_coord k)" "calm (stream_send n t)" "calm (stream_close n)"
  by (auto simp: calm_def ensure_thread_pool_def conn_send_def upd_metrics_def verify_key_def route_model_def on_pool_def
      queue_in_loop_def on_coord_def raising_def stream_send_def stream_close_def core_def split: option.split sum.split prod.split)

lemma keeps_calm: "calm m \<Longrightarrow> keeps (gw_at c F v) m"
  unfolding calm_def keeps_def using gw_at_core by blast

lemma keeps_inv_calm: "calm m \<Longrightarrow> keeps gw_inv m"
  unfolding calm_def keeps_def using gw_inv_core by blast

end
