(* ===== verification/Gateway_Invariant.thy ===== *)
theory Gateway_Invariant
  imports Gateway_System
begin

text \<open>
  Every step of the gateway keeps the invariant of \<open>Gateway_System\<close>: the handlers are taken apart into the
  operations that leave the core of the state alone and the few that change it.
\<close>

section \<open>Changes of the core\<close>

lemma set_um_set: "set (um_set k v m) \<subseteq> insert (k, v) (set m)"
  unfolding um_set_def by (induction m) auto

lemma set_um_erase: "set (um_erase k m) \<subseteq> set m"
  unfolding um_erase_def by (induction m) auto

text \<open>Contexts keep their identifier and gain no request, sessions are only lost, and every new target has a
  context.\<close>

lemma gw_inv_shrink:
  assumes "gw_inv g" "\<And>d. g_ctx g d \<noteq> None \<Longrightarrow> g_ctx g' d \<noteq> None"
    "\<And>d x'. g_ctx g' d = Some x' \<Longrightarrow>
       \<exists>x. g_ctx g d = Some x \<and> sx_session_id x' = sx_session_id x \<and> set (sx_active_requests x') \<subseteq> set (sx_active_requests x)"
    "targets g' \<subseteq> targets g \<union> {d. g_ctx g d \<noteq> None}" "set (g_sessions g') \<subseteq> set (g_sessions g)" "g_seq g' = g_seq g"
    "g_submitted g' = g_submitted g" "g_next_flag g' = g_next_flag g"
  shows "gw_inv g'"
proof -
  have cbs: "ws_cbs g' = ws_cbs g" using assms(7) by (simp add: ws_cbs_def)
  have own: "own_flags (g_ctx g' d) \<subseteq> own_flags (g_ctx g d)" for d
    using assms(3)[of d] by (cases "g_ctx g' d") (auto simp: own_flags_def)
  have id: "g_ctx g' d = Some x' \<Longrightarrow> \<exists>x. g_ctx g d = Some x \<and> sx_session_id x' = sx_session_id x" for d x'
    using assms(3) by blast
  have "targets_ok g'" using assms(1,2,4) unfolding gw_inv_def targets_ok_def by blast
  moreover have "sessions_ok g'"
  proof -
    have "\<exists>x'. g_ctx g' c = Some x' \<and> sx_session_id x' = sid" if "(sid, c) \<in> set (g_sessions g')" for sid c
    proof -
      obtain x where x: "g_ctx g c = Some x" "sx_session_id x = sid"
        using assms(1,5) \<open>(sid, c) \<in> set (g_sessions g')\<close> unfolding gw_inv_defs by blast
      obtain x' where "g_ctx g' c = Some x'" using assms(2)[of c] x(1) by auto
      then show ?thesis using id[of c x'] x by auto
    qed
    moreover have "\<exists>p n. sx_session_id x' = p @ ''-'' @ nat_to_string n \<and> n < g_seq g'" if "g_ctx g' c = Some x'" for c x'
      using id[OF that] assms(1,6) unfolding gw_inv_defs by metis
    moreover have "c = c'" if "g_ctx g' c = Some x" "g_ctx g' c' = Some x'" "sx_session_id x = sx_session_id x'" for c c' x x'
      using id[OF that(1)] id[OF that(2)] that(3) assms(1) unfolding gw_inv_defs by metis
    ultimately show ?thesis unfolding sessions_ok_def by blast
  qed
  moreover have "flags_ok g'"
  proof -
    have old: "f < g_next_flag g \<and> (\<forall>cb \<in> set (ws_cbs g). f \<noteq> cb_first cb \<and> (f = cb_cancel cb \<longrightarrow> cb_conn cb = d \<and> cb_request_id cb = rid))"
      if "(rid, f) \<in> own_flags (g_ctx g d)" for rid f d
      using assms(1) that by (simp add: gw_inv_def flags_ok_def)
    show ?thesis
      using assms(1) old[OF subsetD[OF own]] by (simp add: flags_ok_def cbs assms(8) gw_inv_def)
  qed
  ultimately show ?thesis by (simp add: gw_inv_def)
qed

lemma gw_at_shrink:
  assumes "gw_at c F v g" "\<And>d. g_ctx g d \<noteq> None \<Longrightarrow> g_ctx g' d \<noteq> None"
    "\<And>d x'. g_ctx g' d = Some x' \<Longrightarrow>
       \<exists>x. g_ctx g d = Some x \<and> sx_session_id x' = sx_session_id x \<and> set (sx_active_requests x') \<subseteq> set (sx_active_requests x)"
    "targets g' \<subseteq> targets g \<union> {d. g_ctx g d \<noteq> None}" "set (g_sessions g') \<subseteq> set (g_sessions g)" "g_seq g' = g_seq g"
    "g_submitted g' = g_submitted g" "g_next_flag g' = g_next_flag g" "\<And>f. f \<in> F \<Longrightarrow> g_flags g' f = g_flags g f"
  shows "gw_at c F v g'"
proof -
  have "own_flags (g_ctx g' c) \<subseteq> own_flags (g_ctx g c)"
    using assms(3)[of c] by (cases "g_ctx g' c") (auto simp: own_flags_def)
  then have "f \<notin> snd ` own_flags (g_ctx g' c)" if "f \<in> F" for f
    using assms(1) that unfolding gw_at_def by blast
  moreover have "gw_inv g'" by (rule gw_inv_shrink[OF _ assms(2-8)]) (use assms(1) in \<open>simp_all add: gw_at_def\<close>)
  ultimately show ?thesis
    using assms(1,2,8,9) by (simp add: gw_at_def)
qed

lemma keeps_upd_ctx [keeps_rules]:
  assumes "\<And>x. sx_session_id (f x) = sx_session_id x" "\<And>x. set (sx_active_requests (f x)) \<subseteq> set (sx_active_requests x)"
  shows "keeps (gw_at c F v) (upd_ctx d f)"
  unfolding upd_ctx_def
proof (rule keeps_modify)
  fix g :: "('a, 'b) gateway" assume "gw_at c F v g"
  then show "gw_at c F v (g\<lparr>g_ctx := (g_ctx g)(d := map_option f (g_ctx g d))\<rparr>)"
    by (rule gw_at_shrink) (auto simp: assms(1) targets_def ws_cbs_def dest: subsetD[OF assms(2)] split: if_splits)
qed

lemma keeps_targets:
  assumes "\<And>g. g_ctx (f g) = g_ctx g" "\<And>g. g_sessions (f g) = g_sessions g" "\<And>g. g_seq (f g) = g_seq g"
    "\<And>g. g_submitted (f g) = g_submitted g" "\<And>g. g_next_flag (f g) = g_next_flag g" "\<And>g. g_flags (f g) = g_flags g"
    "\<And>g. targets (f g) \<subseteq> insert c (targets g)"
  shows "keeps (gw_at c F v) (modify f)"
proof (rule keeps_modify)
  fix g :: "('a, 'b) gateway" assume at: "gw_at c F v g"
  then have "{c} \<subseteq> {d. g_ctx g d \<noteq> None}" by (simp add: gw_at_def)
  then have t: "targets (f g) \<subseteq> targets g \<union> {d. g_ctx g d \<noteq> None}" using assms(7)[of g] by blast
  show "gw_at c F v (f g)" by (rule gw_at_shrink[OF at _ _ t]) (simp_all add: assms)
qed

lemma keeps_if [keeps_rules]: "(b \<Longrightarrow> keeps I m) \<Longrightarrow> (\<not> b \<Longrightarrow> keeps I n) \<Longrightarrow> keeps I (if b then m else n)"
  by simp

lemma keeps_cases [keeps_rules]:
  "keeps I n \<Longrightarrow> (\<And>x. keeps I (h x)) \<Longrightarrow> keeps I (case ox of None \<Rightarrow> n | Some x \<Rightarrow> h x)"
  "(\<And>x. keeps I (k x)) \<Longrightarrow> (\<And>x. keeps I (h' x)) \<Longrightarrow> keeps I (case s of Inl x \<Rightarrow> k x | Inr x \<Rightarrow> h' x)"
  "(\<And>x y. keeps I (q x y)) \<Longrightarrow> keeps I (case p of (x, y) \<Rightarrow> q x y)"
  by (simp_all split: option.split sum.split prod.split)

section \<open>Handlers that leave the core alone\<close>

lemma calm_send [calm_rules]: "calm (send_json V c fs)" "calm (ws_send c t)" "calm (ws_send_json V c fs)" "calm (ws_send_to_session sid t)"
  unfolding send_json_def ws_send_json_def ws_send_to_session_def ws_send_def by (intro calm_rules)+

lemma calm_admin [calm_rules]:
  "calm (handle_cache_invalidate V c key reason cascade)" "calm (handle_context_expand V c call_id ref n)"
  unfolding handle_cache_invalidate_def handle_context_expand_def Let_def by (intro calm_rules)+

lemma calm_field [calm_rules]:
  "calm (modify (\<lambda>g. g\<lparr>g_coord := k1 g\<rparr>))" "calm (modify (\<lambda>g. g\<lparr>g_registry := k2 g\<rparr>))"
  "calm (modify (\<lambda>g. g\<lparr>g_tools := k3 g\<rparr>))" "calm (modify (\<lambda>g. g\<lparr>g_exec_rr := k4 g\<rparr>))"
  by (auto intro!: calm_modify simp: core_def)

lemma calm_agent_cache [calm_rules]: "calm (agent_cache_stage V K c call_id target cap input sid)"
proof -
  have "calm (\<lambda>g. case co_query a b c d e f (g_coord g) of Inl e \<Rightarrow> (Inl e, g) | Inr (q, co) \<Rightarrow> (Inr q, g\<lparr>g_coord := co\<rparr>))" for a b c d e f
    by (simp add: calm_def core_def split: sum.split prod.split)
  then show ?thesis unfolding agent_cache_stage_def by (intro calm_rules)
qed

lemma calm_http [calm_rules]:
  "calm (handle_chat V K th req)" "calm (http_deliver V th n ev)" "calm (http_on_error V n err)"
  unfolding handle_chat_def admit_http_def http_deliver_def http_on_token_def http_on_done_def http_on_error_def Let_def
  by (intro calm_rules | cases ev; simp; intro calm_rules)+

section \<open>A new request\<close>

text \<open>A callback with two new flags keeps the flags of all callbacks distinct.\<close>

lemma request_flags_grow:
  assumes "distinct (request_flags old)" "\<forall>f \<in> set (request_flags old). f < n" "n < m"
    "cbs = [] \<or> (\<exists>cb. cbs = [cb] \<and> cb_cancel cb = n \<and> cb_first cb = Suc n \<and> Suc n < m)"
  shows "distinct (request_flags (old @ cbs)) \<and> (\<forall>f \<in> set (request_flags (old @ cbs)). f < m)"
proof -
  have "request_flags (old @ cbs) = request_flags old @ request_flags cbs" by (simp add: request_flags_def)
  moreover have "request_flags cbs = [] \<or> request_flags cbs = [n, Suc n] \<and> Suc n < m" using assms(4) by (auto simp: request_flags_def)
  moreover have "n \<notin> set (request_flags old)" "Suc n \<notin> set (request_flags old)" using assms(2) by fastforce+
  moreover have "\<forall>f \<in> set (request_flags old). f < m" using assms(2,3) by (meson less_trans)
  ultimately show ?thesis using assms(1,3) by auto
qed

lemma flags_ok_register:
  assumes "flags_ok g" "g_ctx g c = Some x0"
    "g_ctx g' = (g_ctx g)(c \<mapsto> x0\<lparr>sx_active_requests := um_set rid (g_next_flag g) (sx_active_requests x0)\<rparr>)"
    "ws_cbs g' = ws_cbs g @ cbs" "g_next_flag g < g_next_flag g'"
    "cbs = [] \<or> (\<exists>cb. cbs = [cb] \<and> cb_cancel cb = g_next_flag g \<and> cb_first cb = Suc (g_next_flag g) \<and>
       cb_conn cb = c \<and> cb_request_id cb = rid \<and> Suc (g_next_flag g) < g_next_flag g')"
  shows "flags_ok g'"
proof -
  let ?n = "g_next_flag g"
  have old: "f < ?n \<and> (\<forall>cb \<in> set (ws_cbs g). f \<noteq> cb_first cb \<and> (f = cb_cancel cb \<longrightarrow> cb_conn cb = d \<and> cb_request_id cb = r))"
    if "(r, f) \<in> own_flags (g_ctx g d)" for r f d using assms(1) that by (simp add: flags_ok_def)
  have small: "f < ?n" if "f \<in> set (request_flags (ws_cbs g))" for f using assms(1) that by (simp add: flags_ok_def)
  have fresh: "cb_cancel cb < ?n" "cb_first cb < ?n" if "cb \<in> set (ws_cbs g)" for cb
    using small that by (auto simp: request_flags_def)
  have new: "cb_cancel cb = ?n" "cb_first cb = Suc ?n" "cb_conn cb = c" "cb_request_id cb = rid" if "cb \<in> set cbs" for cb
    using assms(6) that by auto
  have own: "(r, f) \<in> own_flags (g_ctx g d) \<or> d = c \<and> r = rid \<and> f = ?n" if "(r, f) \<in> own_flags (g_ctx g' d)" for r f d
    using that set_um_set[of rid ?n "sx_active_requests x0"] assms(2) by (auto simp: assms(3) own_flags_def split: if_splits)
  have "f < g_next_flag g' \<and> (\<forall>cb \<in> set (ws_cbs g'). f \<noteq> cb_first cb \<and> (f = cb_cancel cb \<longrightarrow> cb_conn cb = d \<and> cb_request_id cb = r))"
    if mem: "(r, f) \<in> own_flags (g_ctx g' d)" for r f d
  proof -
    have "f \<noteq> cb_first cb \<and> (f = cb_cancel cb \<longrightarrow> cb_conn cb = d \<and> cb_request_id cb = r)" if "cb \<in> set (ws_cbs g) \<or> cb \<in> set cbs" for cb
      using own[OF mem]
    proof
      assume "(r, f) \<in> own_flags (g_ctx g d)"
      note o = old[OF this]
      from that show ?thesis
      proof
        assume "cb \<in> set (ws_cbs g)"
        with o show ?thesis by blast
      next
        assume "cb \<in> set cbs"
        from new[OF this] o show ?thesis by simp
      qed
    next
      assume here: "d = c \<and> r = rid \<and> f = ?n"
      from that show ?thesis
      proof
        assume "cb \<in> set (ws_cbs g)"
        from fresh[OF this] here show ?thesis by simp
      next
        assume "cb \<in> set cbs"
        from new[OF this] here show ?thesis by simp
      qed
    qed
    moreover have "f < g_next_flag g'" using own[OF mem] old[of r f d] assms(5) by auto
    ultimately show ?thesis by (simp add: assms(4))
  qed
  moreover have "distinct (request_flags (ws_cbs g')) \<and> (\<forall>f \<in> set (request_flags (ws_cbs g')). f < g_next_flag g')"
    unfolding assms(4) using assms(1,5,6) by (intro request_flags_grow[where n = ?n]) (auto simp: flags_ok_def)
  ultimately show ?thesis unfolding flags_ok_def by blast
qed

lemma gw_at_register:
  assumes "gw_at c F v g" "g_ctx g c = Some x0"
    "g_ctx g' = (g_ctx g)(c \<mapsto> x0\<lparr>sx_active_requests := um_set rid (g_next_flag g) (sx_active_requests x0)\<rparr>)"
    "ws_cbs g' = ws_cbs g @ cbs" "g_next_flag g < g_next_flag g'"
    "cbs = [] \<or> (\<exists>cb. cbs = [cb] \<and> cb_cancel cb = g_next_flag g \<and> cb_first cb = Suc (g_next_flag g) \<and>
       cb_conn cb = c \<and> cb_request_id cb = rid \<and> Suc (g_next_flag g) < g_next_flag g')"
    "g_executors g' = g_executors g" "g_pending_tools g' = g_pending_tools g" "g_pending_agents g' = g_pending_agents g"
    "g_tasks g' = g_tasks g" "g_sessions g' = g_sessions g" "g_seq g' = g_seq g"
    "\<And>f. f < g_next_flag g \<Longrightarrow> g_flags g' f = g_flags g f"
  shows "gw_at c F v g'"
proof -
  have inv: "targets_ok g" "sessions_ok g" "flags_ok g" using assms(1) by (simp_all add: gw_at_def gw_inv_def)
  have ctx: "g_ctx g' d \<noteq> None \<longleftrightarrow> g_ctx g d \<noteq> None" for d using assms(2) by (simp add: assms(3))
  have id: "map_option sx_session_id (g_ctx g' d) = map_option sx_session_id (g_ctx g d)" for d using assms(2) by (simp add: assms(3))
  have "cb_conn ` set cbs \<subseteq> {c}" using assms(6) by auto
  then have "targets g' \<subseteq> insert c (targets g)" by (auto simp: targets_def assms(4,7-10))
  then have "targets_ok g'" using inv(1) ctx assms(2) unfolding targets_ok_def by fastforce
  moreover have "sessions_ok g'"
  proof -
    have "\<exists>x. g_ctx g d = Some x \<and> sx_session_id x = sx_session_id x'" if "g_ctx g' d = Some x'" for d x'
      using id[of d] that by (cases "g_ctx g d") auto
    moreover have "\<exists>x'. g_ctx g' d = Some x' \<and> sx_session_id x' = sx_session_id x" if "g_ctx g d = Some x" for d x
      using id[of d] that by (cases "g_ctx g' d") auto
    ultimately show ?thesis using inv(2) unfolding sessions_ok_def assms(11,12) by (smt (verit))
  qed
  moreover have "flags_ok g'" by (rule flags_ok_register[OF inv(3) assms(2-6)])
  moreover have "f < g_next_flag g' \<and> f \<notin> snd ` own_flags (g_ctx g' c) \<and> g_flags g' f = v f" if "f \<in> F" for f
  proof -
    have f: "f < g_next_flag g" "f \<notin> snd ` own_flags (g_ctx g c)" "g_flags g f = v f" using assms(1) that by (simp_all add: gw_at_def)
    have "snd ` own_flags (g_ctx g' c) \<subseteq> insert (g_next_flag g) (snd ` own_flags (g_ctx g c))"
      using image_mono[OF set_um_set[of rid "g_next_flag g" "sx_active_requests x0"], of snd] assms(2)
      by (simp add: assms(3) own_flags_def)
    then have "f \<in> snd ` own_flags (g_ctx g' c) \<Longrightarrow> f = g_next_flag g \<or> f \<in> snd ` own_flags (g_ctx g c)"
      by (simp only: subset_iff insert_iff)
    then have "f \<notin> snd ` own_flags (g_ctx g' c)" using f(2) less_irrefl f(1) by metis
    then show ?thesis using f(1,3) assms(5,13) by simp
  qed
  ultimately show ?thesis using assms(2) by (simp add: gw_at_def gw_inv_def assms(3))
qed

end
