(* ===== verification/Gateway_Handlers.thy ===== *)
theory Gateway_Handlers
  imports Gateway_Invariant
begin

text \<open>
  Each handler of a connection keeps \<open>gw_at\<close> for that connection: the invariant, its context, and the cancel
  flags of everybody else.
\<close>

section \<open>The fields that hold targets\<close>

lemma keeps_executors:
  "(\<And>g. set (h g) \<subseteq> insert c (set (g_executors g))) \<Longrightarrow> keeps (gw_at c F v) (modify (\<lambda>g. g\<lparr>g_executors := h g\<rparr>))"
  by (rule keeps_targets) (simp_all add: targets_def ws_cbs_def, blast)

lemma keeps_pending_tools:
  "(\<And>g. snd ` set (h g) \<subseteq> insert c (snd ` set (g_pending_tools g))) \<Longrightarrow> keeps (gw_at c F v) (modify (\<lambda>g. g\<lparr>g_pending_tools := h g\<rparr>))"
  by (rule keeps_targets) (simp_all add: targets_def ws_cbs_def, blast)

lemma keeps_pending_agents:
  "(\<And>g. snd ` set (h g) \<subseteq> insert c (snd ` set (g_pending_agents g))) \<Longrightarrow> keeps (gw_at c F v) (modify (\<lambda>g. g\<lparr>g_pending_agents := h g\<rparr>))"
  by (rule keeps_targets) (simp_all add: targets_def ws_cbs_def, blast)

lemma snd_um_set: "snd ` set (um_set k c m) \<subseteq> insert c (snd ` set m)"
  using image_mono[OF set_um_set[of k c m], of snd] by simp

lemma snd_um_erase: "snd ` set (um_erase k m) \<subseteq> insert c (snd ` set m)"
  using image_mono[OF set_um_erase[of k m], of snd] by blast

lemma keeps_fields [keeps_rules]:
  "keeps (gw_at c F v) (modify (\<lambda>g. g\<lparr>g_executors := live_executors g\<rparr>))"
  "keeps (gw_at c F v) (modify (\<lambda>g. g\<lparr>g_executors := g_executors g @ [c]\<rparr>))"
  "keeps (gw_at c F v) (modify (\<lambda>g. g\<lparr>g_pending_tools := um_set k c (g_pending_tools g)\<rparr>))"
  "keeps (gw_at c F v) (modify (\<lambda>g. g\<lparr>g_pending_tools := um_erase k (g_pending_tools g)\<rparr>))"
  "keeps (gw_at c F v) (modify (\<lambda>g. g\<lparr>g_pending_agents := um_set k c (g_pending_agents g)\<rparr>))"
  "keeps (gw_at c F v) (modify (\<lambda>g. g\<lparr>g_pending_agents := um_erase k (g_pending_agents g)\<rparr>))"
  by (intro keeps_executors keeps_pending_tools keeps_pending_agents snd_um_set snd_um_erase; auto simp: live_executors_def)+

lemmas keeps_calms [keeps_rules] = calm_prims[THEN keeps_calm] calm_send[THEN keeps_calm] calm_admin[THEN keeps_calm]
  calm_field[THEN keeps_calm] calm_agent_cache[THEN keeps_calm]

section \<open>Routing\<close>

lemma keeps_route_tool_call [keeps_rules]: "keeps (gw_at c F v) (route_tool_call V c request_id call_id name args)"
  unfolding route_tool_call_def by (intro keeps_rules)

lemma keeps_route_tool_result [keeps_rules]: "keeps (gw_at c F v) (route_tool_result V w request_id call_id content)"
  unfolding route_tool_result_def by (intro keeps_rules)

lemma keeps_route_agent_call [keeps_rules]: "keeps (gw_at c F v) (route_agent_call V K c call_id target cap input sid bypass)"
  unfolding route_agent_call_def Let_def by (intro keeps_rules)

lemma keeps_route_agent_result [keeps_rules]: "keeps (gw_at c F v) (route_agent_result V K callee call_id output confidence)"
  unfolding route_agent_result_def Let_def by (intro keeps_rules)

section \<open>Registration\<close>

lemma keeps_each [keeps_rules]: "(\<And>x. keeps I (f x)) \<Longrightarrow> keeps I (each f xs)"
  by (induction xs) (simp_all add: keeps_andthen keeps_pure)

lemma keeps_register_tool [keeps_rules]: "keeps (gw_at c F v) (register_tool V d sid t)"
  unfolding register_tool_def Let_def by (intro keeps_rules) simp_all

lemma keeps_register_capability [keeps_rules]: "keeps (gw_at c F v) (register_capability V d cap)"
  unfolding register_capability_def by (intro keeps_rules) simp_all

lemma keeps_on_register [keeps_rules]: "keeps (gw_at c F v) (on_register V K c x msg)"
  unfolding on_register_def register_executor_def register_agent_conn_def Let_def
  by (intro keeps_rules; (simp; fail)?)+

section \<open>Chat\<close>

lemma keeps_submit_chat [keeps_rules]: "keeps (gw_at c F v) (submit_chat V K c x request_id n ctx tools)"
  unfolding keeps_def
proof (intro allI impI)
  fix g :: "('a, 'b) gateway" assume at: "gw_at c F v g"
  then obtain x0 where x0: "g_ctx g c = Some x0" by (auto simp: gw_at_def)
  show "gw_at c F v (snd (submit_chat V K c x request_id n ctx tools g))"
  proof (cases "if tools = [] then tools_json (ev_json V) (g_tools g) else Inr tools")
    case (Inl e)
    have "snd (submit_chat V K c x request_id n ctx tools g) =
        g\<lparr>g_flags := (g_flags g)(g_next_flag g := False), g_next_flag := Suc (g_next_flag g),
          g_ctx := (g_ctx g)(c \<mapsto> x0\<lparr>sx_active_requests := um_set request_id (g_next_flag g) (sx_active_requests x0)\<rparr>)\<rparr>"
      using Inl x0 by (simp add: submit_chat_def bind_def andthen_def new_flag_def upd_ctx_def split: if_splits)
    then show ?thesis
      by (simp only:) (rule gw_at_register[OF at x0, where rid = request_id and cbs = "[]"]; simp add: ws_cbs_def)
  next
    case (Inr ts)
    let ?cb = "\<lparr>cb_conn = c, cb_request_id = request_id, cb_cancel = g_next_flag g, cb_first = Suc (g_next_flag g),
      cb_loop = sx_loop x, cb_start = ck_steady K\<rparr>"
    let ?s = "\<lparr>sm_req = chat_request n ctx ts, sm_url = bn_url n, sm_key = bn_api_key n, sm_cb = WsCallbacks ?cb\<rparr>"
    let ?m = "(g_metrics g)\<lparr>m_total_requests := m_total_requests (g_metrics g) + 1, m_active_requests := m_active_requests (g_metrics g) + 1\<rparr>"
    have "snd (submit_chat V K c x request_id n ctx tools g) =
        g\<lparr>g_flags := (g_flags g)(g_next_flag g := False, Suc (g_next_flag g) := False), g_next_flag := Suc (Suc (g_next_flag g)),
          g_ctx := (g_ctx g)(c \<mapsto> x0\<lparr>sx_active_requests := um_set request_id (g_next_flag g) (sx_active_requests x0)\<rparr>),
          g_metrics := ?m, g_submitted := g_submitted g @ [?s]\<rparr>"
      using Inr x0 by (simp add: submit_chat_def bind_def andthen_def new_flag_def upd_ctx_def upd_metrics_def split: if_splits)
    then show ?thesis
      by (simp only:) (rule gw_at_register[OF at x0, where rid = request_id and cbs = "[?cb]"]; simp add: ws_cbs_def map_filter_def)
  qed
qed

lemma keeps_on_chat [keeps_rules]: "keeps (gw_at c F v) (on_chat V K th c request_id msg)"
  unfolding on_chat_def process_chat_def Let_def by (intro keeps_rules)

section \<open>Cancelling and closing\<close>

lemma keeps_snd: "keeps I m \<Longrightarrow> I s \<Longrightarrow> I (snd (m s))"
  by (simp add: keeps_def)

lemma keeps_flags:
  assumes "\<And>fl f. f \<in> F \<Longrightarrow> h fl f = fl f"
  shows "keeps (gw_at c F v) (modify (\<lambda>g. g\<lparr>g_flags := h (g_flags g)\<rparr>))"
proof (rule keeps_modify)
  fix g :: "('a, 'b) gateway" assume at: "gw_at c F v g"
  show "gw_at c F v (g\<lparr>g_flags := h (g_flags g)\<rparr>)"
    by (rule gw_at_shrink[OF at]) (simp_all add: targets_def ws_cbs_def assms)
qed

lemma keeps_on_cancel:
  assumes "\<And>f. f \<in> F \<Longrightarrow> f \<notin> snd ` set (sx_active_requests x)"
  shows "keeps (gw_at c F v) (on_cancel V d x request_id)"
proof (cases "um_find (sx_active_requests x) request_id")
  case (Some flag)
  then have "flag \<in> snd ` set (sx_active_requests x)" by (force dest: um_find_SomeD)
  then have "flag \<notin> F" using assms by blast
  then have set: "keeps (gw_at c F v) (modify (\<lambda>g. g\<lparr>g_flags := (g_flags g)(flag := True)\<rparr>))"
    by (intro keeps_flags[where h = "\<lambda>fl. fl(flag := True)"]) auto
  show ?thesis unfolding on_cancel_def Some option.case by (intro keeps_andthen set keeps_calms)
qed (simp add: on_cancel_def keeps_pure)

lemma keeps_handle_text:
  assumes "\<And>f. f \<in> F \<Longrightarrow> f \<notin> snd ` set (sx_active_requests x)"
  shows "keeps (gw_at c F v) (handle_text V K th c x msg)"
  unfolding handle_text_def on_agent_call_def Let_def by (intro keeps_rules keeps_on_cancel assms)

lemma own_flags_foreign: "gw_at c F v g \<Longrightarrow> g_ctx g c = Some x \<Longrightarrow> f \<in> F \<Longrightarrow> f \<notin> snd ` set (sx_active_requests x)"
  by (simp add: gw_at_def own_flags_def)

lemma gw_at_message:
  assumes "gw_at c F v g"
  shows "gw_at c F v (snd (handle_new_message V K th c is_text text g))"
proof -
  obtain x where x: "g_ctx g c = Some x" using assms by (auto simp: gw_at_def)
  have "keeps (gw_at c F v) (case jparse (ev_json V) text of
      Inl _ \<Rightarrow> send_json V c [(''type'', jstr (ev_json V) ''error''), (''code'', jstr (ev_json V) ''invalid_json'')]
    | Inr msg \<Rightarrow> handle_text V K th c x msg)"
    by (intro keeps_rules keeps_handle_text own_flags_foreign[OF assms x])
  then show ?thesis using assms x by (cases is_text) (simp_all add: handle_new_message_def keeps_def)
qed

lemma cancel_all_other: "f \<notin> snd ` set (sx_active_requests x) \<Longrightarrow> cancel_all x fl f = fl f"
proof -
  have "f \<notin> set fs \<Longrightarrow> fold (\<lambda>f fl. fl(f := True)) fs fl f = fl f" for fs
    by (induction fs arbitrary: fl) auto
  then show "f \<notin> snd ` set (sx_active_requests x) \<Longrightarrow> cancel_all x fl f = fl f" by (simp add: cancel_all_def)
qed

lemma cancel_all_own: "f \<in> snd ` set (sx_active_requests x) \<Longrightarrow> cancel_all x fl f"
proof -
  have stay: "fl f \<Longrightarrow> fold (\<lambda>f fl. fl(f := True)) fs fl f" for fs fl by (induction fs arbitrary: fl) auto
  have "f \<in> set fs \<Longrightarrow> fold (\<lambda>f fl. fl(f := True)) fs fl f" for fs
    by (induction fs arbitrary: fl) (auto intro: stay)
  then show "f \<in> snd ` set (sx_active_requests x) \<Longrightarrow> cancel_all x fl f" by (simp add: cancel_all_def)
qed

lemma keeps_sessions_erase [keeps_rules]: "keeps (gw_at c F v) (modify (\<lambda>g. g\<lparr>g_sessions := um_erase sid (g_sessions g)\<rparr>))"
proof (rule keeps_modify)
  fix g :: "('a, 'b) gateway" assume at: "gw_at c F v g"
  show "gw_at c F v (g\<lparr>g_sessions := um_erase sid (g_sessions g)\<rparr>)"
    by (rule gw_at_shrink[OF at]) (use set_um_erase in \<open>simp_all add: targets_def ws_cbs_def\<close>)
qed

lemma calm_archive [calm_rules]:
  "calm (\<lambda>g. case co_archive_session J E now sid (g_coord g) of (Inl e, co) \<Rightarrow> (Inl e, g\<lparr>g_coord := co\<rparr>) | (Inr _, co) \<Rightarrow> (Inr (), g\<lparr>g_coord := co\<rparr>))"
  by (simp add: calm_def core_def split: sum.split prod.split)

lemma keeps_close_executor [keeps_rules]:
  "keeps (gw_at c F v) (modify (\<lambda>g. g\<lparr>g_tools := h (g_tools g), g_executors := removeAll d (g_executors g)\<rparr>))"
  by (rule keeps_targets) (auto simp: targets_def ws_cbs_def)

lemma gw_at_closed:
  assumes "gw_at c F v g"
  shows "gw_at c F v (snd (handle_connection_closed V K c g))"
proof -
  obtain x where x: "g_ctx g c = Some x" using assms by (auto simp: gw_at_def)
  have flags: "keeps (gw_at c F v) (modify (\<lambda>g. g\<lparr>g_flags := cancel_all x (g_flags g)\<rparr>))"
    by (rule keeps_flags) (rule cancel_all_other[OF own_flags_foreign[OF assms x]])
  show ?thesis
    unfolding handle_connection_closed_def bind_simps x option.case
    by (rule keeps_snd[where I = "gw_at c F v", OF _ assms]) (intro keeps_rules flags calm_archive[THEN keeps_calm])
qed

section \<open>New connections\<close>

lemma bind_post:
  assumes "keeps P m" "\<And>s. P s \<Longrightarrow> Q s" "\<And>a s. P s \<Longrightarrow> Q (snd (f a s))" "P s"
  shows "Q (snd (bind m f s))"
proof (cases "m s")
  case (Pair r s')
  have P: "P s'" by (rule keepsD[where I = P, OF assms(1,4) Pair])
  show ?thesis
  proof (cases r)
    case (Inl e)
    then show ?thesis using assms(2)[OF P] by (simp add: bind_def Pair)
  next
    case (Inr a)
    then show ?thesis using assms(3)[OF P] by (simp add: bind_def Pair)
  qed
qed

lemma gw_inv_new_session:
  assumes "gw_inv g" "g_ctx g c = None" "sx_session_id y = make_session_id K (g_seq g)" "sx_active_requests y = []"
  shows "gw_inv (g\<lparr>g_seq := Suc (g_seq g), g_ctx := (g_ctx g)(c \<mapsto> y), g_sessions := um_set (sx_session_id y) c (g_sessions g)\<rparr>)"
    (is "gw_inv ?g")
proof -
  have inv: "targets_ok g" "sessions_ok g" "flags_ok g" using assms(1) by (simp_all add: gw_inv_def)
  have "targets ?g = targets g" "ws_cbs ?g = ws_cbs g" by (simp_all add: targets_def ws_cbs_def)
  then have "targets_ok ?g" using inv(1) by (simp add: targets_ok_def)
  moreover have "own_flags (Some y) = {}" using assms(4) by (simp add: own_flags_def)
  then have "flags_ok ?g" unfolding flags_ok_def \<open>ws_cbs ?g = ws_cbs g\<close>
    using inv(3) by (simp add: flags_ok_def split: if_split)
  moreover have "sessions_ok ?g"
  proof -
    have num: "\<exists>p n. sx_session_id x = p @ ''-'' @ nat_to_string n \<and> n < g_seq g" if "g_ctx g d = Some x" for d x
      using inv(2) that by (simp add: sessions_ok_def)
    have fresh: "sx_session_id x \<noteq> sx_session_id y" if x: "g_ctx g d = Some x" for d x
    proof
      assume eq: "sx_session_id x = sx_session_id y"
      obtain p n where "sx_session_id x = p @ ''-'' @ nat_to_string n" "n < g_seq g"
        using num[OF x] by (elim exE conjE)
      then show False using eq assms(3) session_id_number[of p n "int_to_string (ck_steady K)" "g_seq g"] by (simp add: make_session_id_def)
    qed
    have "\<exists>x. g_ctx ?g d = Some x \<and> sx_session_id x = sid" if "(sid, d) \<in> set (g_sessions ?g)" for sid d
    proof (cases "(sid, d) = (sx_session_id y, c)")
      case False
      then have "(sid, d) \<in> set (g_sessions g)" using that set_um_set[of "sx_session_id y" c "g_sessions g"] by auto
      then obtain x where "g_ctx g d = Some x" "sx_session_id x = sid" using inv(2) unfolding sessions_ok_def by blast
      moreover have "d \<noteq> c" using assms(2) \<open>g_ctx g d = Some x\<close> by auto
      ultimately show ?thesis by simp
    qed simp
    moreover have "\<exists>p n. sx_session_id x = p @ ''-'' @ nat_to_string n \<and> n < g_seq ?g" if x: "g_ctx ?g d = Some x" for d x
    proof (cases "d = c")
      case True
      then show ?thesis using x assms(3) by (intro exI[of _ "int_to_string (ck_steady K)"] exI[of _ "g_seq g"]) (simp add: make_session_id_def)
    next
      case False
      then have "\<exists>p n. sx_session_id x = p @ ''-'' @ nat_to_string n \<and> n < g_seq g" using x by (intro num[of d x]) simp
      then show ?thesis by (elim exE conjE, intro exI conjI) (assumption, simp)
    qed
    moreover have "d = d'" if "g_ctx ?g d = Some x" "g_ctx ?g d' = Some x'" "sx_session_id x = sx_session_id x'" for d d' x x'
      using that fresh[of d x] fresh[of d' x'] inv(2) unfolding sessions_ok_def
      by (cases "d = c"; cases "d' = c") auto
    ultimately show ?thesis unfolding sessions_ok_def by blast
  qed
  ultimately show ?thesis by (simp add: gw_inv_def)
qed

end
