(* ===== verification/Gateway_Safety.thy ===== *)
theory Gateway_Safety
  imports Gateway_Handlers
begin

text \<open>
  The invariant of the reachable states, and what it gives: a client's messages and its closing touch the
  requests of no other client, and a closed connection leaves nothing behind that could be sent to it as a
  session, an executor or an agent.
\<close>

section \<open>Every step keeps the invariant\<close>

lemma keeps_calm_new: "calm m \<Longrightarrow> keeps (\<lambda>g. gw_inv g \<and> g_ctx g c = None) m"
proof -
  assume m: "calm m"
  have "gw_inv (snd (m g)) = gw_inv g \<and> g_ctx (snd (m g)) = g_ctx g" for g
    using m gw_inv_core[of "snd (m g)" g] by (simp add: calm_def) (simp add: core_def)
  then show ?thesis by (simp add: keeps_def)
qed

lemma calm_inv: "calm m \<Longrightarrow> gw_inv g \<Longrightarrow> gw_inv (snd (m g))"
  using keeps_inv_calm[of m] by (simp add: keeps_def)

lemma gw_inv_opened:
  assumes "gw_inv g" "g_ctx g c = None"
  shows "gw_inv (snd (handle_new_connection V K th req c (g\<lparr>g_status := (g_status g)(c := s)\<rparr>)))"
proof -
  let ?P = "\<lambda>g. gw_inv g \<and> g_ctx g c = None"
  have start: "?P (g\<lparr>g_status := (g_status g)(c := s)\<rparr>)"
    using assms gw_inv_core[of "g\<lparr>g_status := (g_status g)(c := s)\<rparr>" g] by (simp add: core_def)
  have status: "calm (modify (\<lambda>g. g\<lparr>g_status := (g_status g)(c := t)\<rparr>))" for t by (rule calm_modify) (simp add: core_def)
  have refuse: "gw_inv (snd (andthen (send_json V c fs) (modify (\<lambda>g. g\<lparr>g_status := (g_status g)(c := t)\<rparr>)) h))" if "?P h" for fs t h
    by (rule calm_inv[OF calm_andthen[OF calm_send(1) status] conjunct1[OF that]])
  have accept: "gw_inv (snd (bind (getf (\<lambda>g. make_session_id K (g_seq g))) (\<lambda>sid.
        andthen (modify (\<lambda>g. g\<lparr>g_seq := Suc (g_seq g), g_ctx := (g_ctx g)(c := Some (x\<lparr>sx_authenticated := True, sx_session_id := sid\<rparr>)),
            g_sessions := um_set sid c (g_sessions g)\<rparr>)) (send_json V c (fs sid))) h))"
    if "?P h" "sx_active_requests x = []" for fs h x
    using gw_inv_new_session[of h c "x\<lparr>sx_authenticated := True, sx_session_id := make_session_id K (g_seq h)\<rparr>" K] that
    by (simp add: calm_inv[OF calm_send(1)])
  have pool: "keeps ?P (ensure_thread_pool V th)" and verify: "keeps ?P (verify_key K k m)" for k m
    by (rule keeps_calm_new[OF calm_prims(1)], rule keeps_calm_new[OF calm_prims(4)])
  show ?thesis
    unfolding handle_new_connection_def Let_def andthen_def[of "ensure_thread_pool V th"]
  proof (rule bind_post[where P = ?P and Q = gw_inv, OF pool conjunct1 _ start], assumption, goal_cases)
    case (1 a h)
    show ?case
    proof (rule bind_post[where P = ?P and Q = gw_inv, OF verify conjunct1 _ 1], assumption, goal_cases)
      case (1 err h')
      show ?case
      proof (cases "err = []")
        case True
        show ?thesis using accept[OF 1, of "new_session th req"] True by (simp only: new_session_def) simp
      next
        case False
        show ?thesis unfolding if_P[OF False] using 1 by (rule refuse)
      qed
    qed
  qed
qed

lemma keeps_note_first [keeps_rules]: "keeps (gw_at c {} v) (note_first_token K cb)"
  unfolding note_first_token_def
proof (rule keeps_modify)
  fix g :: "('a, 'b) gateway" assume at: "gw_at c {} v g"
  show "gw_at c {} v (let g' = g\<lparr>g_flags := (g_flags g)(cb_first cb := True)\<rparr>; m = g_metrics g in
     if g_flags g (cb_first cb) then g'
     else g'\<lparr>g_metrics := m\<lparr>m_total_first_token_us := m_total_first_token_us m + elapsed_us K (cb_start cb),
                            m_first_token_count := m_first_token_count m + 1\<rparr>\<rparr>)"
  proof (cases "g_flags g (cb_first cb)")
    case True
    show ?thesis unfolding Let_def if_P[OF True] by (rule gw_at_shrink[OF at]) (auto simp: targets_def ws_cbs_def)
  next
    case False
    show ?thesis unfolding Let_def if_not_P[OF False] by (rule gw_at_shrink[OF at]) (auto simp: targets_def ws_cbs_def)
  qed
qed

lemma keeps_queue_tool_call [keeps_rules]: "keeps (gw_at c F v) (queue_in_loop l (ToolCallTask c rid cid name args))"
  unfolding queue_in_loop_def by (rule keeps_targets) (auto simp: targets_def ws_cbs_def)

lemma keeps_callbacks:
  "keeps (gw_at (cb_conn cb) {} v) (deliver V K th cb ev)" "keeps (gw_at (cb_conn cb) {} v) (on_error V th cb err)"
  unfolding deliver_def on_token_def on_done_def on_error_def on_tool_call_def
  by (cases ev; simp; intro keeps_rules) (intro keeps_rules)

lemma gw_at_inv: "gw_at c {} v g \<longleftrightarrow> gw_inv g \<and> g_ctx g c \<noteq> None"
  by (auto simp: gw_at_def)

lemma gw_inv_at: "keeps (gw_at c {} (\<lambda>_. False)) m \<Longrightarrow> gw_inv g \<Longrightarrow> g_ctx g c \<noteq> None \<Longrightarrow> gw_inv (snd (m g))"
  unfolding keeps_def gw_at_inv by blast

lemma gw_inv_upd_ctx:
  assumes "gw_inv g" "\<And>x. sx_session_id (f x) = sx_session_id x" "\<And>x. set (sx_active_requests (f x)) \<subseteq> set (sx_active_requests x)"
  shows "gw_inv (snd (upd_ctx d f g))"
proof (cases "g_ctx g d")
  case None
  then have "snd (upd_ctx d f g) = g" by (simp add: upd_ctx_def fun_upd_idem)
  then show ?thesis using assms(1) by simp
next
  case (Some x)
  then show ?thesis by (intro gw_inv_at[where c = d] keeps_upd_ctx assms) simp
qed

lemma gw_inv_task:
  assumes "gw_inv g" "g_tasks g = ts1 @ (l, t) # ts2"
  shows "gw_inv (snd (run_task V t (g\<lparr>g_tasks := ts1 @ ts2\<rparr>)))"
proof -
  let ?g = "g\<lparr>g_tasks := ts1 @ ts2\<rparr>"
  have tasks: "tool_task_conns (ts1 @ ts2) \<subseteq> tool_task_conns (g_tasks g)" unfolding assms(2) by (auto simp: tool_task_conns_def)
  have inv: "gw_inv ?g"
    by (rule gw_inv_shrink[OF assms(1)]) (use tasks in \<open>auto simp: targets_def ws_cbs_def\<close>)
  show ?thesis
  proof (cases t)
    case (SendTask c msg)
    then have "calm (run_task V t)" by (auto simp: run_task_def intro!: calm_rules)
    then show ?thesis using inv by (rule calm_inv)
  next
    case (ToolCallTask c rid cid name args)
    then have "c \<in> targets g" using assms(2) by (simp add: targets_def)
    then have "g_ctx ?g c \<noteq> None" using assms(1) by (simp add: gw_inv_def targets_ok_def)
    moreover have "keeps (gw_at c {} (\<lambda>_. False)) (run_task V t)"
      unfolding run_task_def ToolCallTask loop_task.case by (intro keeps_rules)
    ultimately show ?thesis using gw_inv_at inv by blast
  next
    case (EraseTask c rid)
    then show ?thesis unfolding run_task_def EraseTask loop_task.case by (intro gw_inv_upd_ctx[OF inv]) (simp_all add: set_um_erase)
  qed
qed

lemma gw_inv_start_stream:
  assumes "gw_inv g"
  shows "gw_inv (snd (start_stream V th ss g))"
proof -
  have add: "gw_inv (h\<lparr>g_next_stream := n, g_metrics := m, g_submitted := g_submitted h @ [s]\<rparr>)"
    if "gw_inv h" "\<exists>k. sm_cb s = HttpCallbacks k" for h n m s
  proof -
    have "ws_cbs (h\<lparr>g_next_stream := n, g_metrics := m, g_submitted := g_submitted h @ [s]\<rparr>) = ws_cbs h"
      using that(2) by (auto simp: ws_cbs_def map_filter_def)
    then show ?thesis using that(1) by (simp add: gw_inv_defs targets_def)
  qed
  obtain ps where e: "ensure_thread_pool V th g = (Inr (), g\<lparr>g_pools := ps\<rparr>)" using ensure_pool_run by blast
  have "gw_inv (g\<lparr>g_pools := ps\<rparr>)" using assms gw_inv_core[of "g\<lparr>g_pools := ps\<rparr>" g] by (simp add: core_def)
  from add[OF this] show ?thesis
    by (simp add: start_stream_def andthen_def bind_def e upd_metrics_def)
qed

lemma gw_inv_callback:
  assumes "gw_inv g" "s \<in> set (g_submitted g)" "sm_cb s = WsCallbacks cb"
  shows "gw_inv (snd (deliver V K th cb ev g))" "gw_inv (snd (on_error V th cb err g))"
proof -
  have "cb \<in> set (ws_cbs g)" using assms(2,3) by (force simp: ws_cbs_def map_filter_def)
  then have "cb_conn cb \<in> targets g" by (simp add: targets_def)
  then have ctx: "g_ctx g (cb_conn cb) \<noteq> None" using assms(1) unfolding gw_inv_def targets_ok_def by blast
  show "gw_inv (snd (deliver V K th cb ev g))" "gw_inv (snd (on_error V th cb err g))"
    by (rule gw_inv_at[OF keeps_callbacks(1) assms(1) ctx], rule gw_inv_at[OF keeps_callbacks(2) assms(1) ctx])
qed

lemma gw_inv_entry:
  assumes "gw_inv g"
  shows "gw_inv (snd (handle_new_message V K th c is_text msg g))" "gw_inv (snd (handle_connection_closed V K c g))"
proof -
  have "gw_at c {} (\<lambda>_. False) g" if "g_ctx g c \<noteq> None" using that assms by (simp add: gw_at_inv)
  then show "gw_inv (snd (handle_new_message V K th c is_text msg g))" "gw_inv (snd (handle_connection_closed V K c g))"
    using gw_at_message[of c "{}" "\<lambda>_. False" g V K th is_text msg] gw_at_closed[of c "{}" "\<lambda>_. False" g V K]
    by (cases "g_ctx g c", simp_all add: gw_at_inv assms handle_new_message_def handle_connection_closed_def)+
qed

lemma gw_inv_step:
  assumes "gw_step V g g'" "gw_inv g"
  shows "gw_inv g'"
  using assms
proof (cases rule: gw_step.cases)
  case (opened c K th req r)
  then show ?thesis using gw_inv_opened[OF assms(2), of c V K th req Connected] by simp
next
  case (message K th c is_text msg r)
  then show ?thesis using gw_inv_entry(1)[OF assms(2), of V K th c is_text msg] by simp
next
  case (lost s c)
  have "core (g\<lparr>g_status := (g_status g)(c := s)\<rparr>) = core g" by (simp add: core_def)
  then show ?thesis using gw_inv_core assms(2) lost by blast
next
  case (closed K c r)
  then show ?thesis using gw_inv_entry(2)[OF assms(2), of V K c] by simp
next
  case (task ts1 l t ts2 r)
  then show ?thesis using gw_inv_task[OF assms(2), of ts1 l t ts2 V] by simp
next
  case (event s cb K th ev r)
  then show ?thesis using gw_inv_callback(1)[OF assms(2), of s cb V K th ev] by simp
next
  case (failure s cb th err r)
  then show ?thesis using gw_inv_callback(2)[OF assms(2), of s cb V th err] by simp
next
  case (http K th req rsp)
  then show ?thesis using calm_inv[OF calm_http(1)[of V K th req] assms(2)] by simp
next
  case (http_start th ss rn)
  then show ?thesis using gw_inv_start_stream[OF assms(2), of V th ss] by simp
next
  case (http_event th n ev r)
  then show ?thesis using calm_inv[OF calm_http(2)[of V th n ev] assms(2)] by simp
next
  case (http_failure n err r)
  then show ?thesis using calm_inv[OF calm_http(3)[of V n err] assms(2)] by simp
qed

lemma gw_inv_start: "gw_start g \<Longrightarrow> gw_inv g"
  by (auto simp: gw_start_def gw_inv_defs targets_def ws_cbs_def request_flags_def own_flags_def map_filter_def)

interpretation gw: step_system gw_start "gw_step V" gw_inv for V
  by unfold_locales (rule gw_inv_start, assumption, rule gw_inv_step)

lemmas gw_inv_reach = gw.reach_inv

end
