(* ===== verification/Gateway_Theorems.thy ===== *)
theory Gateway_Theorems
  imports Gateway_Safety
begin

text \<open>
  What the clients of the gateway can rely on: the invariant of the reachable states spelled out, the
  isolation of the clients' requests from each other, and the effect of closing a connection.
\<close>

section \<open>A run for the witnesses\<close>

definition idle_gw :: "(lua_value, unit) gateway" where
  "idle_gw = demo_gw\<lparr>g_ctx := (\<lambda>_. None), g_sessions := []\<rparr>"

definition idle_req :: http_request where
  "idle_req = \<lparr>hr_peer = ''ip'', hr_header = (\<lambda>_. []), hr_param = (\<lambda>_. []), hr_body = []\<rparr>"

definition chat_V :: "(jv, lua_value, unit) environment" where
  "chat_V = demo_V\<lparr>ev_json := sample_json (\<lambda>_. Inr (JObj [(''type'', JStr ''chat''), (''request_id'', JStr ''r''),
     (''messages'', JArr [JStr ''m''])])) demo_dump\<rparr>"

lemma chat_V_sel [simp]:
  "ev_json chat_V = sample_json (\<lambda>_. Inr (JObj [(''type'', JStr ''chat''), (''request_id'', JStr ''r''),
     (''messages'', JArr [JStr ''m''])])) demo_dump" "ev_rt chat_V = demo_rt"
  by (simp_all add: chat_V_def)

lemma idle_start: "gw_start idle_gw"
  by (simp add: gw_start_def idle_gw_def demo_gw_def)

lemma idle_open:
  "\<exists>g x. gw_step chat_V idle_gw g \<and> g = idle_gw\<lparr>g_seq := 2, g_ctx := [0 \<mapsto> x], g_sessions := [(sx_session_id x, 0)], g_sent := [(0, ''connected'')]\<rparr> \<and>
     sx_api_key x = [] \<and> sx_active_requests x = [] \<and> sx_role x = ''user''"
proof -
  define x where "x = (new_session 1 idle_req)\<lparr>sx_authenticated := True, sx_session_id := make_session_id demo_K 1\<rparr>"
  let ?g = "idle_gw\<lparr>g_seq := 2, g_ctx := [0 \<mapsto> x], g_sessions := [(sx_session_id x, 0)], g_sent := [(0, ''connected'')]\<rparr>"
  have "handle_new_connection chat_V demo_K 1 idle_req 0 (idle_gw\<lparr>g_status := (g_status idle_gw)(0 := Connected)\<rparr>) = (Inr (), ?g)"
    by (simp add: handle_new_connection_def Let_def ensure_thread_pool_def verify_key_def verify_def auth_passed_def bind_def
        andthen_def send_json_def conn_send_def demo_dump_def idle_gw_def demo_gw_def idle_req_def new_session_def x_def
        bearer_key_def um_set_def fun_upd_idem)
  then have "gw_step chat_V idle_gw ?g" by (intro gw_step.opened[where c = 0]) (simp_all add: idle_gw_def)
  then show ?thesis by (intro exI[of _ ?g] exI[of _ x]) (simp add: x_def new_session_def idle_req_def bearer_key_def)
qed

text \<open>Connection 0 is open and has a chat request running.\<close>

lemma idle_chat:
  "\<exists>g cb. gw_reach chat_V g \<and> ws_cbs g = [cb] \<and> cb_conn cb = 0 \<and> g_ctx g 0 \<noteq> None"
proof -
  obtain g x where g: "gw_step chat_V idle_gw g"
      "g = idle_gw\<lparr>g_seq := 2, g_ctx := [0 \<mapsto> x], g_sessions := [(sx_session_id x, 0)], g_sent := [(0, ''connected'')]\<rparr>"
      "sx_api_key x = []"
    using idle_open by blast
  have reach: "gw_reach chat_V g" by (rule reach_of.step[where step = "gw_step chat_V", OF reach_of.start[where start = gw_start, OF idle_start] g(1)])
  let ?ctx = "chat_context demo_K x ''local-model'' (''?'') (7 / 10) 2048"
  let ?pr = "\<lparr>pl_passed = True, pl_ctx = ?ctx, pl_abort_status = 200, pl_abort_body = []\<rparr>"
  have "request_loop demo_rt [] ?pr = (\<lambda>m. Inr (?pr, m))" by (rule ext) simp
  then obtain p' where p': "run_request_pipeline demo_rt [] ?ctx (Some (pool_new 1 [] LTable)) () = Inr (?pr, Some p', ())"
    using with_vm_pure[OF pool_reach_start[of 1 "[]" LTable] zero_less_one, where a = ?pr and w = "()"]
    by (auto simp: run_request_pipeline_def)
  have route: "\<exists>n rt. route ''local-model'' (g_router idle_gw) = (Some n, rt)"
    by (simp add: idle_gw_def demo_gw_def route_def route_default_def default_group_def pick_def add_node_def empty_lb_def
        default_node_def)
  have int: "jvalue_int (sample_json p d) = jv_value (\<lambda>j. bindE (jv_int j) (\<lambda>i. Inr (int32 i)))" for p d
    by (simp add: sample_json_def)
  obtain r g' where run: "handle_new_message chat_V demo_K 1 0 True [] g = (r, g')" by force
  moreover have "handle_new_message chat_V demo_K 1 0 True [] g = process_chat chat_V demo_K 1 0 ''r'' ''local-model'' ''?'' [] (7 / 10) 2048 g"
    unfolding g(2)
    by (simp add: handle_new_message_def handle_text_def Let_def on_chat_def jv_value_def lacks_messages_def dump_field_def int demo_dump_def)
  ultimately have "process_chat chat_V demo_K 1 0 ''r'' ''local-model'' ''?'' [] (7 / 10) 2048 g = (r, g')" by simp
  then have sub: "\<exists>s cb. g_submitted g' = [s] \<and> sm_cb s = WsCallbacks cb \<and> cb_conn cb = 0" "g_ctx g' 0 \<noteq> None"
    using p' route unfolding g(2)
    by (auto simp: process_chat_def ensure_thread_pool_def verify_key_def verify_def g(3) auth_passed_def
        route_model_def on_pool_def bind_def andthen_def submit_chat_def new_flag_def upd_ctx_def
        upd_metrics_def tools_json_def demo_dump_def idle_gw_def)
  then obtain s cb where "g_submitted g' = [s]" "sm_cb s = WsCallbacks cb" "cb_conn cb = 0" by blast
  moreover have "gw_reach chat_V g'" by (rule reach_of.step[where step = "gw_step chat_V", OF reach gw_step.message[OF run]])
  ultimately show ?thesis using sub(2) by (intro exI[of _ g'] exI[of _ cb]) (simp add: ws_cbs_def map_filter_def)
qed

section \<open>The guarantees\<close>

text \<open>C1. In every state the gateway can reach, whatever the clients send, whenever connections open and close,
  whichever callbacks and queued tasks run in between and whatever throws: a session identifier leads to the
  one connection that has it; every executor, every caller waiting for a tool or an agent, every connection of
  a running request and of a queued tool call has a context, so that \<open>ws_send\<close> never reads one that is not
  there; and a cancel flag belongs to one request of one connection.\<close>

theorem gateway_invariant:
  assumes "gw_reach V g"
  shows "(\<forall>sid c. (sid, c) \<in> set (g_sessions g) \<longrightarrow> (\<exists>x. g_ctx g c = Some x \<and> sx_session_id x = sid)) \<and>
    (\<forall>c c' x x'. g_ctx g c = Some x \<longrightarrow> g_ctx g c' = Some x' \<longrightarrow> sx_session_id x = sx_session_id x' \<longrightarrow> c = c') \<and>
    (\<forall>c. c \<in> set (g_executors g) \<or> c \<in> snd ` set (g_pending_tools g) \<or> c \<in> snd ` set (g_pending_agents g) \<or>
         c \<in> cb_conn ` set (ws_cbs g) \<or> (\<exists>l rid cid name args. (l, ToolCallTask c rid cid name args) \<in> set (g_tasks g)) \<longrightarrow>
       g_ctx g c \<noteq> None) \<and>
    distinct (concat (map (\<lambda>cb. [cb_cancel cb, cb_first cb]) (ws_cbs g))) \<and>
    (\<forall>c x rid f cb. g_ctx g c = Some x \<longrightarrow> (rid, f) \<in> set (sx_active_requests x) \<longrightarrow> cb \<in> set (ws_cbs g) \<longrightarrow>
       f \<noteq> cb_first cb \<and> (f = cb_cancel cb \<longrightarrow> cb_conn cb = c \<and> cb_request_id cb = rid))"
proof -
  have inv: "targets_ok g" "sessions_ok g" "flags_ok g" using gw_inv_reach[OF assms] by (simp_all add: gw_inv_def)
  have task: "c \<in> tool_task_conns (g_tasks g)" if "(l, ToolCallTask c rid cid name args) \<in> set (g_tasks g)" for l c rid cid name args
    using that by (force simp: tool_task_conns_def)
  have target: "g_ctx g c \<noteq> None"
    if "c \<in> set (g_executors g) \<or> c \<in> snd ` set (g_pending_tools g) \<or> c \<in> snd ` set (g_pending_agents g) \<or>
         c \<in> cb_conn ` set (ws_cbs g) \<or> (\<exists>l rid cid name args. (l, ToolCallTask c rid cid name args) \<in> set (g_tasks g))" for c
  proof -
    have "c \<in> targets g" using that task unfolding targets_def Un_iff by (elim disjE exE) (simp_all only: simp_thms)
    then show ?thesis using inv(1) by (simp add: targets_ok_def)
  qed
  have own: "f \<noteq> cb_first cb \<and> (f = cb_cancel cb \<longrightarrow> cb_conn cb = c \<and> cb_request_id cb = rid)"
    if "g_ctx g c = Some x" "(rid, f) \<in> set (sx_active_requests x)" "cb \<in> set (ws_cbs g)" for c x rid f cb
  proof -
    have "(rid, f) \<in> own_flags (g_ctx g c)" using that(1,2) by (simp add: own_flags_def)
    then show ?thesis using inv(3) that(3) by (simp add: flags_ok_def)
  qed
  have dist: "distinct (concat (map (\<lambda>cb. [cb_cancel cb, cb_first cb]) (ws_cbs g)))"
    using inv(3) by (simp add: flags_ok_def request_flags_def)
  have sess: "\<exists>x. g_ctx g c = Some x \<and> sx_session_id x = sid" if "(sid, c) \<in> set (g_sessions g)" for sid c
    using inv(2) that by (simp add: sessions_ok_def)
  have uniq: "c = c'" if "g_ctx g c = Some x" "g_ctx g c' = Some x'" "sx_session_id x = sx_session_id x'" for c c' x x'
    using inv(2) that unfolding sessions_ok_def by blast
  show ?thesis by (intro conjI[OF _ conjI[OF _ conjI[OF _ conjI[OF dist]]]] allI impI) (erule sess uniq target own, assumption+ | rule target sess, assumption)+
qed

theorem gateway_invariant_witness:
  "\<exists>g cb x. gw_reach chat_V g \<and> ws_cbs g = [cb] \<and> g_ctx g 0 = Some x \<and> cb_cancel cb \<noteq> cb_first cb"
proof -
  obtain g cb where g: "gw_reach chat_V g" "ws_cbs g = [cb]" "cb_conn cb = 0" using idle_chat by blast
  have "\<exists>x. g_ctx g 0 = Some x" and "cb_cancel cb \<noteq> cb_first cb" using gateway_invariant[OF g(1)] g(2,3) by simp_all
  then show ?thesis using g by blast
qed

text \<open>C4. Clients cannot cancel each other's requests: in every reachable state, neither a message of a
  connection, whatever its text, nor the closing of the connection changes the cancel flag of a request that
  was started by another connection, also when both use the same request identifier.\<close>

theorem cancel_is_local:
  assumes "gw_reach V g" "cb \<in> set (ws_cbs g)" "cb_conn cb \<noteq> c"
  shows "g_flags (snd (handle_new_message V K th c is_text msg g)) (cb_cancel cb) = g_flags g (cb_cancel cb) \<and>
    g_flags (snd (handle_connection_closed V K c g)) (cb_cancel cb) = g_flags g (cb_cancel cb)"
proof (cases "g_ctx g c")
  case None
  then show ?thesis by (simp add: handle_new_message_def handle_connection_closed_def)
next
  case (Some x)
  have inv: "gw_inv g" by (rule gw_inv_reach[OF assms(1)])
  then have flags: "flags_ok g" by (simp add: gw_inv_def)
  have "cb_cancel cb \<in> set (request_flags (ws_cbs g))" using assms(2) by (auto simp: request_flags_def)
  then have "cb_cancel cb < g_next_flag g" using flags by (simp add: flags_ok_def)
  moreover have "cb_cancel cb \<notin> snd ` own_flags (g_ctx g c)"
    using flags assms(2,3) unfolding flags_ok_def by fastforce
  ultimately have at: "gw_at c {cb_cancel cb} (g_flags g) g" using inv Some by (simp add: gw_at_def)
  show ?thesis using gw_at_message[OF at, of V K th is_text msg] gw_at_closed[OF at, of V K] by (simp add: gw_at_def)
qed

theorem cancel_is_local_witness:
  "\<exists>g cb. gw_reach chat_V g \<and> cb \<in> set (ws_cbs g) \<and>
     g_flags (snd (handle_connection_closed chat_V demo_K 1 g)) (cb_cancel cb) = g_flags g (cb_cancel cb)"
proof -
  obtain g cb where g: "gw_reach chat_V g" "ws_cbs g = [cb]" "cb_conn cb = 0" using idle_chat by blast
  then show ?thesis using cancel_is_local[OF g(1), of cb 1] by (intro exI[of _ g] exI[of _ cb]) simp
qed



end
