(* ===== verification/Chat_Controller.thy ===== *)
theory Chat_Controller
  imports Http_Chat
begin

text \<open>
  The controller that \<open>main.cpp\<close> replaced (\<open>src/chat_controller.cpp\<close>, not part of the build): the chat
  request, the callbacks of its stream, and the handlers for metrics, health and plugins. It works on the
  same singletons, so on the same state, and is compared with the handlers in use.
\<close>

section \<open>POST /v1/chat/completions\<close>

definition cc_reply :: "int \<Rightarrow> string \<Rightarrow> http_response" where
  "cc_reply status body = Plain \<lparr>rs_status = status, rs_body = body, rs_json = True\<rparr>"

text \<open>What the lambda of the asynchronous response copies; the node's model is not among it.\<close>

definition cc_stream_of :: "backend_node \<Rightarrow> plugin_context \<Rightarrow> stream_start" where
  "cc_stream_of n ctx =
     \<lparr>ss_model = pc_model ctx, ss_messages_json = pc_messages_json ctx, ss_temperature = pc_temperature ctx,
      ss_max_tokens = pc_max_tokens ctx, ss_url = bn_url n, ss_key = bn_api_key n\<rparr>"

definition cc_admit ::
  "('j, 'v, 'w) environment \<Rightarrow> clocks \<Rightarrow> loop \<Rightarrow> http_request \<Rightarrow> string \<Rightarrow> string \<Rightarrow> double \<Rightarrow> int \<Rightarrow>
     (('v, 'w) gateway, http_response) op" where
  "cc_admit V K th req model messages_json temperature max_tokens =
     bind (verify_key K (bearer_key req) model) (\<lambda>auth_err.
     if auth_err \<noteq> [] then
       andthen (upd_metrics (\<lambda>m. m\<lparr>m_auth_failed := m_auth_failed m + 1\<rparr>)) (ret (cc_reply 401 (quoted_error auth_err)))
     else bind (route_model model) (\<lambda>node.
     case node of
       None \<Rightarrow> ret (cc_reply 503 (quoted_error ''no available backend''))
     | Some n \<Rightarrow>
         bind (getf (\<lambda>g. pm_plugins (g_plugins g))) (\<lambda>plugins.
         bind (on_pool (run_request_pipeline (ev_rt V) plugins
                 (http_context K (client_ip_of req) (bearer_key req) model messages_json temperature max_tokens)) th) (\<lambda>pr.
         if \<not> pl_passed pr then
           andthen (upd_metrics (\<lambda>m. m\<lparr>m_rate_limited := m_rate_limited m + 1\<rparr>))
             (ret (cc_reply (pl_abort_status pr) (pl_abort_body pr)))
         else ret (Event_Stream (cc_stream_of n (pl_ctx pr)))))))"

text \<open>\<open>body_json["messages"]\<close> on an object makes an absent entry null, which is empty.\<close>

definition cc_messages :: "'j jlib \<Rightarrow> 'j \<Rightarrow> 'j result" where
  "cc_messages J body = (if jcontains J body ''messages'' then jat J body ''messages'' else Inr (jnull J))"

definition cc_chat ::
  "('j, 'v, 'w) environment \<Rightarrow> clocks \<Rightarrow> loop \<Rightarrow> http_request \<Rightarrow> (('v, 'w) gateway, http_response) op" where
  "cc_chat V K th req =
     (let J = ev_json V in
     andthen (ensure_thread_pool V th)
     (case jparse J (hr_body req) of
        Inl _ \<Rightarrow> ret (cc_reply 400 (quoted_error ''invalid json''))
      | Inr body \<Rightarrow>
          bind (lift (jvalue_str J body ''model'' ''local-model'')) (\<lambda>model.
          bind (lift (cc_messages J body)) (\<lambda>messages.
          if jempty J messages then ret (cc_reply 400 (quoted_error ''messages required''))
          else bind (lift (jdump J messages)) (\<lambda>messages_json.
          bind (lift (jvalue_num J body ''temperature'' (7 / 10))) (\<lambda>temperature.
          bind (lift (jvalue_int J body ''max_tokens'' 2048)) (\<lambda>max_tokens.
          cc_admit V K th req model messages_json temperature max_tokens)))))))"

section \<open>The stream\<close>

definition cc_start :: "stream_start \<Rightarrow> (('v, 'w) gateway, nat) op" where
  "cc_start ss =
     bind (getf g_next_stream) (\<lambda>n.
     andthen (modify (\<lambda>g. g\<lparr>g_next_stream := Suc n\<rparr>))
     (andthen (upd_metrics (\<lambda>m. m\<lparr>m_total_requests := m_total_requests m + 1, m_active_requests := m_active_requests m + 1\<rparr>))
     (andthen (modify (\<lambda>g. g\<lparr>g_submitted := g_submitted g @
         [\<lparr>sm_req = \<lparr>lr_id = 0, lr_provider = KIMI, lr_model = ss_model ss, lr_messages_json = ss_messages_json ss,
              lr_tools_json = [], lr_temperature = ss_temperature ss, lr_max_tokens = ss_max_tokens ss,
              lr_has_token = True, lr_has_tool_call = False, lr_has_done = True, lr_has_error = True\<rparr>,
            sm_url = ss_url ss, sm_key = ss_key ss, sm_cb = HttpCallbacks n\<rparr>]\<rparr>))
       (ret n))))"

text \<open>The callbacks run in the engine's thread \<open>th\<close> and do not make a pool for it.\<close>

definition cc_on_token :: "('j, 'v, 'w) environment \<Rightarrow> loop \<Rightarrow> nat \<Rightarrow> string \<Rightarrow> (('v, 'w) gateway, unit) op" where
  "cc_on_token V th n tok =
     bind (getf (\<lambda>g. pm_plugins (g_plugins g))) (\<lambda>plugins.
     bind (on_pool (run_token_pipeline (ev_rt V) plugins tok) th) (\<lambda>processed.
     if processed = [] then ret ()
     else bind (lift (jdump (ev_json V) (chunk_json (ev_json V) processed))) (\<lambda>c. stream_send n (sse_data c))))"

definition cc_on_done :: "('j, 'v, 'w) environment \<Rightarrow> loop \<Rightarrow> nat \<Rightarrow> (('v, 'w) gateway, unit) op" where
  "cc_on_done V th n =
     andthen (bind (getf (\<lambda>g. pm_plugins (g_plugins g))) (\<lambda>plugins. on_pool (run_done_pipeline (ev_rt V) plugins) th))
     (andthen (stream_send n (sse_data ''[DONE]''))
     (andthen (stream_close n)
       (upd_metrics (\<lambda>m. m\<lparr>m_success_count := m_success_count m + 1, m_active_requests := m_active_requests m - 1\<rparr>))))"

definition cc_on_error :: "('j, 'v, 'w) environment \<Rightarrow> nat \<Rightarrow> string \<Rightarrow> (('v, 'w) gateway, unit) op" where
  "cc_on_error V n err =
     bind (lift (jdump (ev_json V) (jobj (ev_json V) [(''error'', jstr (ev_json V) err)]))) (\<lambda>e.
     andthen (stream_send n (sse_data e))
     (andthen (stream_close n)
       (upd_metrics (\<lambda>m. m\<lparr>m_errors := m_errors m + 1, m_active_requests := m_active_requests m - 1\<rparr>))))"

section \<open>The other handlers\<close>

definition cc_metrics :: "(double \<Rightarrow> string) \<Rightarrow> (('v, 'w) gateway, http_response) op" where
  "cc_metrics fmt = bind (getf g_metrics) (\<lambda>m. ret (plain 200 (metrics_snapshot fmt m)))"

definition quoted_status :: "string \<Rightarrow> string" where
  "quoted_status s = [CHR ''{'', CHR 0x22] @ ''status'' @ [CHR 0x22, CHR '':'', CHR 0x22] @ s @ [CHR 0x22, CHR ''}'']"

definition cc_health :: "(('v, 'w) gateway, http_response) op" where
  "cc_health = ret (cc_reply 200 (quoted_status ''ok''))"

definition cc_plugins_list :: "('j, 'v, 'w) environment \<Rightarrow> ('j \<Rightarrow> string result) \<Rightarrow> (('v, 'w) gateway, http_response) op" where
  "cc_plugins_list V dump2 =
     (let J = ev_json V in
     bind (getf (\<lambda>g. list_plugins (g_plugins g))) (\<lambda>ps.
     bind (lift (dump2 (jarr J (map (\<lambda>p. jobj J [(''name'', jstr J (pi_name p)), (''version'', jstr J (pi_version p)),
             (''priority'', jint J (pi_priority p)), (''enabled'', jbool J (pi_enabled p)),
             (''filepath'', jstr J (pi_filepath p))]) ps)))) (\<lambda>body.
     ret (cc_reply 200 body))))"

text \<open>\<open>reload_plugin\<close> returns true whatever became of the plugin.\<close>

definition cc_plugins_reload ::
  "(plugin_runtime list \<Rightarrow> plugin_runtime list) \<Rightarrow> ('j, 'v, 'w) environment \<Rightarrow> files \<Rightarrow> http_request \<Rightarrow>
     (('v, 'w) gateway, http_response) op" where
  "cc_plugins_reload std_sort V fs req =
     (if hr_body req = [] then ret (cc_reply 200 (quoted_status ''error''))
      else andthen (\<lambda>g. case reload_plugin std_sort (ev_rt V) fs (hr_body req) (g_plugins g) (g_world g) of
               Inl e \<Rightarrow> (Inl e, g) | Inr (pm, w) \<Rightarrow> (Inr (), g\<lparr>g_plugins := pm, g_world := w\<rparr>))
             (ret (cc_reply 200 (quoted_status ''reloaded''))))"

section \<open>Comparison with the handler in use\<close>

text \<open>The answers correspond: the same status, the same stream up to the model it asks for, and the same body
  unless no backend is there.\<close>

definition same_answer :: "http_response \<Rightarrow> http_response \<Rightarrow> bool" where
  "same_answer r r' \<longleftrightarrow>
     (case (r, r') of
        (Plain a, Plain b) \<Rightarrow> rs_status a = rs_status b \<and> (rs_status a \<noteq> 503 \<longrightarrow> rs_body a = rs_body b) \<and> rs_json a \<and> \<not> rs_json b
      | (Event_Stream s, Event_Stream t) \<Rightarrow> ss_messages_json s = ss_messages_json t \<and> ss_temperature s = ss_temperature t \<and>
          ss_max_tokens s = ss_max_tokens t \<and> ss_url s = ss_url t \<and> ss_key s = ss_key t
      | _ \<Rightarrow> False)"

definition same_outcome :: "http_response result \<times> 's \<Rightarrow> http_response result \<times> 's \<Rightarrow> bool" where
  "same_outcome x y \<longleftrightarrow> snd x = snd y \<and>
     (case (fst x, fst y) of (Inl e, Inl e') \<Rightarrow> e = e' | (Inr r, Inr r') \<Rightarrow> same_answer r r' | _ \<Rightarrow> False)"

lemma same_outcome_bind:
  "(\<And>a h. same_outcome (f a h) (f' a h)) \<Longrightarrow> same_outcome (bind m f g) (bind m f' g)"
  by (cases "m g"; cases "fst (m g)") (auto simp: bind_def same_outcome_def)

lemma same_outcome_andthen: "(\<And>h. same_outcome (f h) (f' h)) \<Longrightarrow> same_outcome (andthen m f g) (andthen m f' g)"
  unfolding andthen_def by (rule same_outcome_bind)

lemma same_outcome_ret: "same_outcome (Inr r, g) (Inr r', g) = same_answer r r'"
  by (simp add: same_outcome_def)

lemma same_answer_simps [simp]:
  "same_answer (cc_reply s b) (plain s' b') \<longleftrightarrow> s = s' \<and> (s \<noteq> 503 \<longrightarrow> b = b')"
  "same_answer (Event_Stream (cc_stream_of n ctx)) (Event_Stream (stream_of n ctx))"
  by (auto simp: same_answer_def cc_reply_def plain_def cc_stream_of_def stream_of_def)

lemma cc_admit_same:
  "same_outcome (cc_admit V K th req model ms t m g) (admit_http V K th req model ms t m g)"
  unfolding cc_admit_def admit_http_def
  by (intro same_outcome_bind) (auto intro!: same_outcome_bind same_outcome_andthen simp: same_outcome_ret split: option.split)

lemma cc_messages_lacks:
  assumes "jempty J (jnull J)"
  shows "same_outcome (bind (lift (cc_messages J body)) (\<lambda>messages. if jempty J messages then ret (cc_reply 400 e)
           else bind (lift (jdump J messages)) f) g)
    (bind (lift (lacks_messages J body)) (\<lambda>lacks. if lacks then ret (plain 400 e)
           else bind (lift (dump_field J body ''messages'' [])) f') g)
     \<longleftrightarrow> (\<forall>ms. cc_messages J body = Inr ms \<and> \<not> jempty J ms \<longrightarrow>
           same_outcome (bind (lift (jdump J ms)) f g) (bind (lift (jdump J ms)) f' g))"
proof (cases "jcontains J body ''messages''")
  case True
  then show ?thesis
    by (cases "jat J body ''messages''")
      (auto simp: cc_messages_def lacks_messages_def dump_field_def same_outcome_ret, simp_all add: same_outcome_def)
next
  case False
  then show ?thesis using assms by (simp add: cc_messages_def lacks_messages_def same_outcome_ret)
qed



text \<open>In a thread without a pool the callbacks of the earlier controller throw, and the client gets nothing.\<close>

lemma cc_callbacks_without_pool:
  assumes "g_pools g th = None"
  shows "cc_on_token V th n tok g = (Inl (RuntimeError ''no thread-local LuaVMPool set''), g)"
    "cc_on_done V th n g = (Inl (RuntimeError ''no thread-local LuaVMPool set''), g)"
  using assms by (simp_all add: cc_on_token_def cc_on_done_def run_token_pipeline_def run_done_pipeline_def on_pool_def
      with_vm_def borrow_vm_def bind_def andthen_def)

end
