(* ===== verification/Early_Upstream.thy ===== *)
theory Early_Upstream
  imports Remote_Upstream
begin

text \<open>
  The engine that \<open>RemoteUpstream\<close> replaced (\<open>src/upstream.cpp\<close> and \<open>include/upstream.h\<close>, not part of the
  build): its parser of server-sent events, which knows content tokens only, and its transfers. Callbacks
  are recorded as events, as in \<open>SSE_Parser\<close>. The parser in use agrees with it on content streams.
\<close>

section \<open>The parser\<close>

record early_sse =
  es_buf :: string
  es_has_tok :: bool
  es_has_done :: bool
  es_log :: "sse_event list"
  es_total_tokens :: u64

definition early_new :: "bool \<Rightarrow> bool \<Rightarrow> early_sse" where
  "early_new tok don = \<lparr>es_buf = [], es_has_tok = tok, es_has_done = don, es_log = [], es_total_tokens = 0\<rparr>"

definition early_emit :: "sse_event \<Rightarrow> early_sse \<Rightarrow> early_sse" where
  "early_emit ev p = p\<lparr>es_log := es_log p @ [ev]\<rparr>"

text \<open>\<open>j[k]\<close> on a value that is not constant: an absent entry of an object, or of null, becomes null.\<close>

definition jget_or_null :: "'j jlib \<Rightarrow> 'j \<Rightarrow> string \<Rightarrow> 'j result" where
  "jget_or_null L j k =
     (if jcontains L j k then jat L j k
      else if jis_obj L j \<or> jempty L j \<and> \<not> jis_arr L j then Inr (jnull L)
      else Inl TypeError)"

text \<open>The content of the first choice, when there is one.\<close>

definition early_content :: "'j jlib \<Rightarrow> string \<Rightarrow> string result" where
  "early_content L payload =
     bindE (jparse L payload) (\<lambda>obj.
     if \<not> jcontains L obj ''choices'' then Inr []
     else bindE (jat L obj ''choices'') (\<lambda>choices.
     if jempty L choices then Inr []
     else bindE (jfirst L choices) (\<lambda>c0.
     bindE (jget_or_null L c0 ''delta'') (\<lambda>delta.
     if \<not> jcontains L delta ''content'' then Inr []
     else bindE (jat L delta ''content'') (\<lambda>v. if jis_str L v then jget_str L v else Inr [])))))"

text \<open>The \<open>try\<close> with its \<open>catch (...)\<close>, which swallows what the token callback throws, too.\<close>

definition early_payload :: "'j jlib \<Rightarrow> string \<Rightarrow> early_sse \<Rightarrow> exn option \<times> early_sse" where
  "early_payload L payload p =
     (case early_content L payload of
        Inl e \<Rightarrow> (if e = UB then Some UB else None, p)
      | Inr tok \<Rightarrow>
          if tok = [] then (None, p)
          else let p = p\<lparr>es_total_tokens := es_total_tokens p + 1\<rparr> in
               (None, if es_has_tok p then early_emit (Token tok) p else p))"

definition early_process_line :: "'j jlib \<Rightarrow> string \<Rightarrow> early_sse \<Rightarrow> exn option \<times> early_sse" where
  "early_process_line L line p =
     (if line = [] \<or> hd line = CHR '':'' then (None, p)
      else if \<not> starts_with kPrefix line then (None, p)
      else let payload = drop (length kPrefix) line in
           if payload = ''[DONE]'' then (if es_has_done p then (None, early_emit Done p) else (Some BadFunctionCall, p))
           else early_payload L payload p)"

function early_flush :: "'j jlib \<Rightarrow> string \<Rightarrow> early_sse \<Rightarrow> exn option \<times> early_sse" where
  "early_flush L rest p =
     (if CHR 0x0A \<notin> set rest then (None, p\<lparr>es_buf := rest\<rparr>)
      else (case early_process_line L (strip_cr (takeWhile (\<lambda>c. c \<noteq> CHR 0x0A) rest)) p of
              (Some ex, p) \<Rightarrow> (Some ex, p)
            | (None, p) \<Rightarrow> early_flush L (tl (dropWhile (\<lambda>c. c \<noteq> CHR 0x0A) rest)) p))"
  by pat_completeness auto
termination
  by (relation "measure (\<lambda>(L, rest, p). length rest)") (auto simp del: length_tl intro: tl_dropWhile_shorter)

declare early_flush.simps [simp del]

definition early_feed :: "'j jlib \<Rightarrow> string \<Rightarrow> early_sse \<Rightarrow> exn option \<times> early_sse" where
  "early_feed L data p = (let p = p\<lparr>es_buf := es_buf p @ data\<rparr> in early_flush L (es_buf p) p)"

lemma early_flush_line:
  "CHR 0x0A \<notin> set line \<Longrightarrow> early_flush L (line @ CHR 0x0A # rest) p =
     st_seq (early_process_line L (strip_cr line)) (early_flush L rest) p"
  unfolding early_flush.simps[of L "line @ CHR 0x0A # rest"] take_line st_seq_def by simp

text \<open>The parser splits lines as the one in use does, so it does not depend on the chunks either.\<close>

interpretation early: line_stream "early_process_line L" "early_flush L" "early_feed L" es_buf "\<lambda>b p. p\<lparr>es_buf := b\<rparr>" for L
proof
  show "early_process_line L line (p\<lparr>es_buf := b\<rparr>) =
      (fst (early_process_line L line p), (snd (early_process_line L line p))\<lparr>es_buf := b\<rparr>)" for line p b
    by (auto simp: early_process_line_def early_payload_def early_emit_def Let_def split: sum.split)
  show "early_flush L rest p = (None, p\<lparr>es_buf := rest\<rparr>)" if "CHR 0x0A \<notin> set rest" for rest p
    using that by (simp add: early_flush.simps)
  show "early_feed L data p = early_flush L (es_buf p @ data) (p\<lparr>es_buf := es_buf p @ data\<rparr>)" for data p
    by (simp add: early_feed_def Let_def)
qed (rule early_flush_line, assumption, simp_all)

lemma early_chunking:
  assumes "CHR 0x0A \<notin> set (es_buf p)"
  shows "agree (feed_all (early_feed L) cs p) (early_feed L (concat cs) p)"
  by (rule early.feed_chunks[OF assms])

section \<open>Agreement with the parser in use\<close>

text \<open>A payload of a content stream: the end, or JSON whose first choice, if any, has a delta without tool
  calls and does not finish for tool calls, and whose content, if it is a text, can be read.\<close>

definition content_payload :: "'j jlib \<Rightarrow> string \<Rightarrow> bool" where
  "content_payload L payload \<longleftrightarrow> payload = ''[DONE]'' \<or>
     (\<exists>obj. jparse L payload = Inr obj \<and>
       (\<not> jcontains L obj ''choices'' \<or>
        (\<exists>choices. jat L obj ''choices'' = Inr choices \<and>
          (jempty L choices \<or>
           (\<exists>c0 delta. jfirst L choices = Inr c0 \<and> jcontains L c0 ''delta'' \<and> jat L c0 ''delta'' = Inr delta \<and>
              \<not> jcontains L delta ''tool_calls'' \<and> finished_tools L c0 = Inr False \<and>
              (\<not> jcontains L delta ''content'' \<or>
               (\<exists>v. jat L delta ''content'' = Inr v \<and> (jis_str L v \<longrightarrow> (\<exists>s. jget_str L v = Inr s)))))))))"

text \<open>Every complete line of a text is a comment, no data line, or a content payload.\<close>

definition content_line :: "'j jlib \<Rightarrow> string \<Rightarrow> bool" where
  "content_line L line \<longleftrightarrow> line = [] \<or> hd line = CHR '':'' \<or> \<not> starts_with kPrefix line \<or>
     content_payload L (drop (length kPrefix) line)"

fun text_lines :: "string \<Rightarrow> string list" where
  "text_lines [] = []"
| "text_lines (c # cs) = (if c = CHR 0x0A then [] # text_lines cs else (case text_lines cs of [] \<Rightarrow> [] | l # ls \<Rightarrow> (c # l) # ls))"

lemma text_lines_none: "CHR 0x0A \<notin> set s \<Longrightarrow> text_lines s = []"
  by (induction s) auto

lemma text_lines_append: "CHR 0x0A \<notin> set l \<Longrightarrow> text_lines (l @ CHR 0x0A # s) = l # text_lines s"
  by (induction l) auto

text \<open>Both parsers in the same state.\<close>

definition parsers_agree :: "early_sse \<Rightarrow> sse \<Rightarrow> bool" where
  "parsers_agree p q \<longleftrightarrow> es_buf p = s_buf q \<and> es_log p = s_log q \<and> es_total_tokens p = s_total_tokens q \<and>
     es_has_tok p = s_has_tok q \<and> es_has_done p = s_has_done q"

definition steps_agree :: "exn option \<times> early_sse \<Rightarrow> exn option \<times> sse \<Rightarrow> bool" where
  "steps_agree x y \<longleftrightarrow> fst x = fst y \<and> parsers_agree (snd x) (snd y)"

lemma payload_agree:
  assumes "content_payload L payload" "payload \<noteq> ''[DONE]''" "parsers_agree p q"
  shows "steps_agree (early_payload L payload p) (sse_catch payload (handle_payload L payload q))"
proof -
  obtain obj where obj: "jparse L payload = Inr obj" using assms(1,2) by (auto simp: content_payload_def)
  show ?thesis
  proof (cases "jcontains L obj ''choices''")
    case False
    then show ?thesis using obj assms(3)
      by (simp add: early_payload_def early_content_def handle_payload_def st_use_def st_ok_def steps_agree_def)
  next
    case True
    then obtain choices where ch: "jat L obj ''choices'' = Inr choices"
      using assms(1,2) obj by (auto simp: content_payload_def)
    show ?thesis
    proof (cases "jempty L choices")
      case True
      then show ?thesis using obj ch assms(3) \<open>jcontains L obj ''choices''\<close>
        by (simp add: early_payload_def early_content_def handle_payload_def st_use_def st_ok_def steps_agree_def)
    next
      case False
      then obtain c0 delta where d: "jfirst L choices = Inr c0" "jcontains L c0 ''delta''" "jat L c0 ''delta'' = Inr delta"
          "\<not> jcontains L delta ''tool_calls''" "finished_tools L c0 = Inr False"
          "\<not> jcontains L delta ''content'' \<or>
             (\<exists>v. jat L delta ''content'' = Inr v \<and> (jis_str L v \<longrightarrow> (\<exists>s. jget_str L v = Inr s)))"
        using assms(1,2) obj ch True by (auto simp: content_payload_def)
      have new: "handle_payload L payload q = content_token L delta q"
        using obj ch True False d by (simp add: handle_payload_def st_use_def tool_fragment_def st_seq_def st_ok_def)
      have old: "early_content L payload = (if \<not> jcontains L delta ''content'' then Inr []
          else bindE (jat L delta ''content'') (\<lambda>v. if jis_str L v then jget_str L v else Inr []))"
        using obj ch True False d by (simp add: early_content_def jget_or_null_def)
      show ?thesis unfolding new early_payload_def old
        using d(6) assms(3)
        by (auto simp: content_token_def on_string_def st_use_def st_ok_def steps_agree_def parsers_agree_def Let_def
            early_emit_def sse_emit_def split: if_splits)
    qed
  qed
qed

lemma line_agree:
  assumes "content_line L line" "parsers_agree p q"
  shows "steps_agree (early_process_line L line p) (process_line L line q)"
  using assms payload_agree[of L "drop (length kPrefix) line" p q]
  unfolding content_line_def early_process_line_def process_line_def Let_def
  by (auto simp: steps_agree_def parsers_agree_def early_emit_def sse_emit_def)

lemma flush_agree:
  assumes "\<And>l. l \<in> set (text_lines rest) \<Longrightarrow> content_line L (strip_cr l)" "parsers_agree p q"
  shows "steps_agree (early_flush L rest p) (flush_from L rest q)"
  using assms
proof (induction rest arbitrary: p q rule: line_induct)
  case (none r)
  then show ?case by (simp add: early.flush_rest sse.flush_rest steps_agree_def parsers_agree_def)
next
  case (line l rest)
  obtain ex p' where p': "early_process_line L (strip_cr l) p = (ex, p')" by force
  obtain ex' q' where q': "process_line L (strip_cr l) q = (ex', q')" by force
  have "content_line L (strip_cr l)" by (rule line.prems) (simp add: text_lines_append[OF line.hyps])
  from line_agree[OF this line.prems(2)] have a: "ex' = ex" "parsers_agree p' q'" using p' q' by (simp_all add: steps_agree_def)
  have "steps_agree (early_flush L rest p') (flush_from L rest q')"
    by (rule line.IH[OF _ a(2)]) (rule line.prems, simp add: text_lines_append[OF line.hyps])
  then show ?case
    unfolding early_flush_line[OF line.hyps] flush_from_line[OF line.hyps]
    using p' q' a by (cases ex) (simp_all add: st_seq_run steps_agree_def)
qed



end
