(* ===== verification/Early_Gateway.thy ===== *)
theory Early_Gateway
  imports Early_Upstream Gateway_State
begin

text \<open>
  The first version of the gateway (\<open>src/gateway.cpp\<close> on libevent, with the engine of \<open>src/upstream.cpp\<close>; not
  part of the build): the HTTP handlers, the callbacks of a chat request and the transfers of the engine, on
  one state, because both count in the same metrics. libevent is outside the repository: what is handed to
  it for a request is recorded, and a request that has been answered is gone, so that writing to it again is
  undefined. \<open>what\<close> is the text of an exception.
\<close>

section \<open>State\<close>

datatype ev_reply =
    Ev_Reply int string string     \<comment> \<open>status, content type and body of \<open>evhttp_send_reply\<close>\<close>
  | Ev_Start                       \<comment> \<open>\<open>evhttp_send_reply_start\<close> with the headers of an event stream\<close>
  | Ev_Chunk string
  | Ev_End

datatype ev_method = Ev_Post | Ev_Get | Ev_Other

record ev_request =
  er_method :: ev_method
  er_uri :: string
  er_header :: "string \<Rightarrow> string"
  er_body :: string

text \<open>What the three callbacks of a request capture.\<close>

record early_cb =
  ec_client :: nat
  ec_model :: string

record node_snapshot =
  ns_name :: string
  ns_url :: string
  ns_api_key :: string
  ns_model :: string

record early_task =
  et_req :: llm_request
  et_cb :: early_cb
  et_node :: node_snapshot

record early_transfer =
  ex_cb :: early_cb
  ex_url :: string
  ex_body :: string
  ex_hdrs :: "string list"
  ex_parser :: early_sse

record early_gateway =
  eg_auth :: auth
  eg_router :: router
  eg_metrics :: metrics
  eg_running :: bool
  eg_pending :: "early_task list"
  eg_active :: "(handle, early_transfer) umap"
  eg_out :: "(nat \<times> ev_reply) list"
  eg_gone :: "nat set"

definition eg_upd_metrics :: "(metrics \<Rightarrow> metrics) \<Rightarrow> (early_gateway, unit) op" where
  "eg_upd_metrics f = modify (\<lambda>g. g\<lparr>eg_metrics := f (eg_metrics g)\<rparr>)"

definition ev_put :: "nat \<Rightarrow> ev_reply \<Rightarrow> (early_gateway, unit) op" where
  "ev_put n r = (\<lambda>g. if n \<in> eg_gone g then (Inl UB, g) else (Inr (), g\<lparr>eg_out := eg_out g @ [(n, r)]\<rparr>))"

definition ev_final :: "nat \<Rightarrow> ev_reply \<Rightarrow> (early_gateway, unit) op" where
  "ev_final n r = andthen (ev_put n r) (modify (\<lambda>g. g\<lparr>eg_gone := insert n (eg_gone g)\<rparr>))"

definition eg_send_error :: "'j jlib \<Rightarrow> nat \<Rightarrow> int \<Rightarrow> string \<Rightarrow> (early_gateway, unit) op" where
  "eg_send_error J n code msg =
     bind (lift (jdump J (jobj J [(''error'', jobj J [(''message'', jstr J msg), (''code'', jint J code)])]))) (\<lambda>body.
     ev_final n (Ev_Reply code ''application/json'' body))"

definition sse_write :: "nat \<Rightarrow> string \<Rightarrow> (early_gateway, unit) op" where
  "sse_write n data = ev_put n (Ev_Chunk (''data: '' @ data @ [CHR 0x0A, CHR 0x0A]))"

section \<open>Protocol conversion\<close>

definition jat_checked :: "'j jlib \<Rightarrow> 'j \<Rightarrow> string \<Rightarrow> 'j result" where
  "jat_checked J j k = (if jcontains J j k then jat J j k else Inl OutOfRange)"

text \<open>The request's model, temperature, \<open>max_tokens\<close> and messages; \<open>None\<close> is a caught exception's text.\<close>

definition parse_request :: "'j jlib \<Rightarrow> (exn \<Rightarrow> string) \<Rightarrow> string \<Rightarrow> string + (string \<times> double \<times> int \<times> string)" where
  "parse_request J what body =
     (case bindE (jparse J body) (\<lambda>j.
           bindE (jvalue_str J j ''model'' ''moonshot-v1-8k'') (\<lambda>model.
           bindE (jvalue_num J j ''temperature'' (7 / 10)) (\<lambda>temperature.
           bindE (jvalue_int J j ''max_tokens'' 2048) (\<lambda>max_tokens.
           bindE (bindE (jat_checked J j ''messages'') (jdump J)) (\<lambda>messages_json.
           Inr (model, temperature, max_tokens, messages_json)))))) of
        Inl e \<Rightarrow> Inl (''invalid request: '' @ what e)
      | Inr r \<Rightarrow> Inr r)"

definition make_sse_chunk :: "'j jlib \<Rightarrow> string \<Rightarrow> string \<Rightarrow> string result" where
  "make_sse_chunk J token model =
     jdump J (jobj J [(''object'', jstr J ''chat.completion.chunk''), (''model'', jstr J model),
       (''choices'', jarr J [jobj J [(''index'', jint J 0), (''delta'', jobj J [(''content'', jstr J token)]),
          (''finish_reason'', jnull J)]])])"

definition early_key :: "ev_request \<Rightarrow> string" where
  "early_key req = (let h = er_header req ''Authorization'' in if starts_with ''Bearer '' h then drop 7 h else [])"

section \<open>Handlers\<close>

definition eg_verify :: "clocks \<Rightarrow> string \<Rightarrow> string \<Rightarrow> (early_gateway, string) op" where
  "eg_verify K key model = (\<lambda>g. case verify (ck_steady K) key model (eg_auth g) of (r, a) \<Rightarrow> (r, g\<lparr>eg_auth := a\<rparr>))"

definition eg_route :: "string \<Rightarrow> (early_gateway, backend_node option) op" where
  "eg_route model = (\<lambda>g. case route model (eg_router g) of (n, r) \<Rightarrow> (Inr n, g\<lparr>eg_router := r\<rparr>))"

text \<open>\<open>UpstreamEngine::submit\<close>: the node is copied, the request queued.\<close>

definition eg_submit :: "llm_request \<Rightarrow> early_cb \<Rightarrow> backend_node \<Rightarrow> (early_gateway, unit) op" where
  "eg_submit req cb n = modify (\<lambda>g. g\<lparr>eg_pending := eg_pending g @
     [\<lparr>et_req = req, et_cb = cb,
       et_node = \<lparr>ns_name = bn_name n, ns_url = bn_url n, ns_api_key = bn_api_key n, ns_model = bn_model n\<rparr>\<rparr>]\<rparr>)"

definition early_request :: "string \<Rightarrow> double \<Rightarrow> int \<Rightarrow> string \<Rightarrow> llm_request" where
  "early_request model temperature max_tokens messages_json =
     \<lparr>lr_id = 0, lr_provider = KIMI, lr_model = model, lr_messages_json = messages_json, lr_tools_json = [],
      lr_temperature = temperature, lr_max_tokens = max_tokens, lr_has_token = True, lr_has_tool_call = False,
      lr_has_done = True, lr_has_error = True\<rparr>"

definition eg_handle_chat ::
  "'j jlib \<Rightarrow> (exn \<Rightarrow> string) \<Rightarrow> clocks \<Rightarrow> nat \<Rightarrow> ev_request \<Rightarrow> (early_gateway, unit) op" where
  "eg_handle_chat J what K n req =
     (case parse_request J what (er_body req) of
        Inl err \<Rightarrow> eg_send_error J n 400 err
      | Inr (model, temperature, max_tokens, messages_json) \<Rightarrow>
          bind (eg_verify K (early_key req) model) (\<lambda>auth_err.
          if auth_err \<noteq> [] then
            andthen (eg_upd_metrics (\<lambda>m. m\<lparr>m_auth_failed := m_auth_failed m + 1\<rparr>)) (eg_send_error J n 401 auth_err)
          else bind (eg_route model) (\<lambda>node.
          case node of
            None \<Rightarrow> eg_send_error J n 503 ''no available backend''
          | Some b \<Rightarrow>
              andthen (ev_put n Ev_Start)
              (andthen (eg_upd_metrics (\<lambda>m. m\<lparr>m_total_requests := m_total_requests m + 1, m_active_requests := m_active_requests m + 1\<rparr>))
                (eg_submit (early_request model temperature max_tokens messages_json) \<lparr>ec_client = n, ec_model = model\<rparr> b)))))"

definition eg_handle_metrics :: "(double \<Rightarrow> string) \<Rightarrow> nat \<Rightarrow> (early_gateway, unit) op" where
  "eg_handle_metrics fmt n =
     bind (getf (\<lambda>g. metrics_snapshot fmt (eg_metrics g))) (\<lambda>s. ev_final n (Ev_Reply 200 ''text/plain'' (s @ [CHR 0x0A])))"

definition eg_handle_health :: "nat \<Rightarrow> (early_gateway, unit) op" where
  "eg_handle_health n = ev_final n (Ev_Reply 200 ''application/json''
     ([CHR ''{'', CHR 0x22] @ ''status'' @ [CHR 0x22, CHR '':'', CHR 0x22] @ ''ok'' @ [CHR 0x22, CHR ''}'', CHR 0x0A]))"

definition eg_dispatch ::
  "'j jlib \<Rightarrow> (exn \<Rightarrow> string) \<Rightarrow> (double \<Rightarrow> string) \<Rightarrow> clocks \<Rightarrow> nat \<Rightarrow> ev_request \<Rightarrow> (early_gateway, unit) op" where
  "eg_dispatch J what fmt K n req =
     (if er_uri req = ''/v1/chat/completions'' \<and> er_method req = Ev_Post then eg_handle_chat J what K n req
      else if er_uri req = ''/metrics'' \<and> er_method req = Ev_Get then eg_handle_metrics fmt n
      else if er_uri req = ''/health'' \<and> er_method req = Ev_Get then eg_handle_health n
      else eg_send_error J n 404 ''not found'')"

section \<open>Callbacks\<close>

definition eg_on_token :: "'j jlib \<Rightarrow> early_cb \<Rightarrow> string \<Rightarrow> (early_gateway, unit) op" where
  "eg_on_token J cb tok = bind (lift (make_sse_chunk J tok (ec_model cb))) (sse_write (ec_client cb))"

definition eg_on_done :: "early_cb \<Rightarrow> (early_gateway, unit) op" where
  "eg_on_done cb =
     andthen (sse_write (ec_client cb) ''[DONE]'')
     (andthen (ev_final (ec_client cb) Ev_End)
       (eg_upd_metrics (\<lambda>m. m\<lparr>m_success_count := m_success_count m + 1, m_active_requests := m_active_requests m - 1\<rparr>)))"

definition eg_on_error :: "'j jlib \<Rightarrow> early_cb \<Rightarrow> string \<Rightarrow> (early_gateway, unit) op" where
  "eg_on_error J cb err =
     bind (lift (jdump J (jobj J [(''error'', jstr J err)]))) (\<lambda>e.
     andthen (sse_write (ec_client cb) e)
     (andthen (ev_final (ec_client cb) Ev_End)
       (eg_upd_metrics (\<lambda>m. m\<lparr>m_errors := m_errors m + 1, m_active_requests := m_active_requests m - 1\<rparr>))))"

text \<open>The parser calls the token callback inside its \<open>try\<close>.\<close>

definition eg_event :: "'j jlib \<Rightarrow> early_cb \<Rightarrow> sse_event \<Rightarrow> (early_gateway, unit) op" where
  "eg_event J cb ev =
     (case ev of
        Token tok \<Rightarrow> (\<lambda>g. case eg_on_token J cb tok g of
            (Inl e, g) \<Rightarrow> (if e = UB then Inl UB else Inr (), g) | (Inr u, g) \<Rightarrow> (Inr u, g))
      | Done \<Rightarrow> eg_on_done cb
      | ToolCall _ _ _ \<Rightarrow> ret ())"

fun eg_events :: "'j jlib \<Rightarrow> early_cb \<Rightarrow> sse_event list \<Rightarrow> (early_gateway, unit) op" where
  "eg_events J cb [] = ret ()"
| "eg_events J cb (ev # evs) = andthen (eg_event J cb ev) (eg_events J cb evs)"

section \<open>The engine\<close>

definition early_body :: "'j jlib \<Rightarrow> llm_request \<Rightarrow> node_snapshot \<Rightarrow> 'j result" where
  "early_body J req node =
     bindE (jparse J (lr_messages_json req)) (\<lambda>messages.
       Inr (jobj J [(''model'', jstr J (if ns_model node = [] then lr_model req else ns_model node)),
         (''messages'', messages), (''temperature'', jnum J (lr_temperature req)),
         (''max_tokens'', jint J (lr_max_tokens req)), (''stream'', jbool J True)]))"

definition eg_add_transfer :: "'j jlib \<Rightarrow> handle option \<Rightarrow> early_task \<Rightarrow> (early_gateway, unit) op" where
  "eg_add_transfer J easy task =
     bind (lift (early_body J (et_req task) (et_node task))) (\<lambda>body.
     case easy of
       None \<Rightarrow> eg_on_error J (et_cb task) ''curl_easy_init failed''
     | Some h \<Rightarrow>
         bind (lift (jdump J body)) (\<lambda>text.
         andthen (eg_upd_metrics (\<lambda>m. m\<lparr>m_active_requests := m_active_requests m + 1\<rparr>))
           (modify (\<lambda>g. g\<lparr>eg_active := um_set h
             \<lparr>ex_cb = et_cb task, ex_url = ns_url (et_node task), ex_body = text,
              ex_hdrs = [''Content-Type: application/json'', ''Authorization: Bearer '' @ ns_api_key (et_node task),
                ''Accept: text/event-stream'', ''Cache-Control: no-cache'', ''Expect:''],
              ex_parser = early_new (lr_has_token (et_req task)) (lr_has_done (et_req task))\<rparr> (eg_active g)\<rparr>))))"

fun eg_add_transfers :: "'j jlib \<Rightarrow> (handle option \<times> early_task) list \<Rightarrow> (early_gateway, unit) op" where
  "eg_add_transfers J [] = ret ()"
| "eg_add_transfers J ((easy, task) # ts) = andthen (eg_add_transfer J easy task) (eg_add_transfers J ts)"

text \<open>\<open>drain_queue\<close>; \<open>easies\<close> is what the calls of \<open>curl_easy_init\<close> return.\<close>

definition eg_drain_queue :: "'j jlib \<Rightarrow> handle option list \<Rightarrow> (early_gateway, unit) op" where
  "eg_drain_queue J easies =
     bind (getf eg_pending) (\<lambda>tasks.
     andthen (modify (\<lambda>g. g\<lparr>eg_pending := []\<rparr>)) (eg_add_transfers J (zip easies tasks)))"

text \<open>\<open>write_cb\<close>: the parser takes the bytes, its callbacks run in order, and an exception leaves last.\<close>

definition eg_write :: "'j jlib \<Rightarrow> handle \<Rightarrow> string \<Rightarrow> (early_gateway, unit) op" where
  "eg_write J h bytes =
     bind (getf (\<lambda>g. um_find (eg_active g) h)) (\<lambda>t.
     case t of
       None \<Rightarrow> ret ()
     | Some t \<Rightarrow>
         let (ex, p) = early_feed J bytes (ex_parser t) in
         andthen (modify (\<lambda>g. g\<lparr>eg_active := um_set h (t\<lparr>ex_parser := p\<rparr>) (eg_active g)\<rparr>))
         (andthen (eg_upd_metrics (\<lambda>m. m\<lparr>m_total_tokens := m_total_tokens m + (es_total_tokens p - es_total_tokens (ex_parser t))\<rparr>))
         (andthen (eg_events J (ex_cb t) (drop (length (es_log (ex_parser t))) (es_log p)))
           (case ex of None \<Rightarrow> ret () | Some e \<Rightarrow> throw e))))"

definition eg_reap_one :: "'j jlib \<Rightarrow> curl_msg \<Rightarrow> (early_gateway, unit) op" where
  "eg_reap_one J msg =
     bind (getf (\<lambda>g. um_find (eg_active g) (cm_handle msg))) (\<lambda>t.
     case t of
       None \<Rightarrow> ret ()
     | Some t \<Rightarrow>
         andthen
           (case cm_error msg of
              Some text \<Rightarrow> andthen (eg_on_error J (ex_cb t) text) (eg_upd_metrics (\<lambda>m. m\<lparr>m_errors := m_errors m + 1\<rparr>))
            | None \<Rightarrow>
                if cm_http_code msg \<noteq> 200
                then andthen (eg_on_error J (ex_cb t) (''HTTP '' @ nat_to_string (cm_http_code msg)))
                       (eg_upd_metrics (\<lambda>m. m\<lparr>m_errors := m_errors m + 1\<rparr>))
                else eg_upd_metrics (\<lambda>m. m\<lparr>m_success_count := m_success_count m + 1\<rparr>))
           (andthen (eg_upd_metrics (\<lambda>m. m\<lparr>m_active_requests := m_active_requests m - 1\<rparr>))
             (modify (\<lambda>g. g\<lparr>eg_active := um_erase (cm_handle msg) (eg_active g)\<rparr>))))"

definition eg_start :: "(early_gateway, unit) op" where
  "eg_start = modify (\<lambda>g. g\<lparr>eg_running := True\<rparr>)"

definition eg_stop :: "(early_gateway, unit) op" where
  "eg_stop = modify (\<lambda>g. g\<lparr>eg_running := False, eg_active := []\<rparr>)"

text \<open>What \<open>main\<close> registers before it serves.\<close>

definition early_local_node :: backend_node where
  "early_local_node = default_node\<lparr>bn_name := ''llama-local'', bn_url := ''http://127.0.0.1:8100/v1/chat/completions'',
     bn_api_key := [], bn_model := ''local-model'', bn_weight := 1\<rparr>"

definition eg_main_start :: "clocks \<Rightarrow> (early_gateway, unit) op" where
  "eg_main_start K =
     andthen (modify (\<lambda>g. g\<lparr>eg_router := register_node ''*'' early_local_node (register_node ''local-model'' early_local_node (eg_router g))\<rparr>))
     (andthen (modify (\<lambda>g. g\<lparr>eg_auth := add_key (ck_steady K)
         \<lparr>ki_key = ''test-key-123'', ki_allowed_models = ''*'', ki_qps_limit = 60, ki_enabled = True\<rparr> (eg_auth g)\<rparr>))
       eg_start)"

end
