(* ===== verification/Early_Theorems.thy ===== *)
theory Early_Theorems
  imports Early_Gateway
begin

text \<open>
  What the first version of the gateway does with a chat request: one answer, and for an accepted request a
  stream that carries the tokens in order, ends once and leaves the gauge as it was.
\<close>

section \<open>Admission\<close>

definition frame_of :: "string \<Rightarrow> ev_reply" where
  "frame_of data = Ev_Chunk (''data: '' @ data @ [CHR 0x0A, CHR 0x0A])"

definition error_body :: "'j jlib \<Rightarrow> int \<Rightarrow> string \<Rightarrow> string result" where
  "error_body J code msg = jdump J (jobj J [(''error'', jobj J [(''message'', jstr J msg), (''code'', jint J code)])])"

lemma eg_send_error_to:
  assumes "eg_send_error J n code msg g = (Inr (), g')" "n \<notin> eg_gone g"
  shows "\<exists>body. error_body J code msg = Inr body \<and>
    g' = g\<lparr>eg_out := eg_out g @ [(n, Ev_Reply code ''application/json'' body)], eg_gone := insert n (eg_gone g)\<rparr>"
  using assms by (cases "error_body J code msg")
    (auto simp: eg_send_error_def error_body_def ev_final_def ev_put_def andthen_def bind_def)

definition refused :: "'j jlib \<Rightarrow> nat \<Rightarrow> int \<Rightarrow> string \<Rightarrow> early_gateway \<Rightarrow> early_gateway \<Rightarrow> bool" where
  "refused J n code msg g g' \<longleftrightarrow> (\<exists>body. error_body J code msg = Inr body \<and>
     eg_out g' = eg_out g @ [(n, Ev_Reply code ''application/json'' body)] \<and> n \<in> eg_gone g' \<and>
     eg_pending g' = eg_pending g \<and> m_active_requests (eg_metrics g') = m_active_requests (eg_metrics g))"

text \<open>C38. Every chat request to the first gateway is answered, and for a reason: when the handler returns, the
  client has exactly one reply. It is a complete error with 400 and the reason when the body cannot be read as
  a request, 401 with the reason why the key is refused, or 503 when there is no backend, and nothing is
  queued and no gauge moves; or else the start of a stream, the request is queued once for the routed node with
  the fields of the body, and the gauge goes up by one.\<close>

theorem early_chat_outcome:
  assumes "eg_handle_chat J what K n req g = (Inr (), g')" "n \<notin> eg_gone g"
  shows "(\<exists>err. parse_request J what (er_body req) = Inl err \<and> refused J n 400 err g g') \<or>
    (\<exists>model temp tok ms. parse_request J what (er_body req) = Inr (model, temp, tok, ms) \<and>
      ((\<exists>err. err \<noteq> [] \<and> fst (verify (ck_steady K) (early_key req) model (eg_auth g)) = Inr err \<and> refused J n 401 err g g') \<or>
       fst (verify (ck_steady K) (early_key req) model (eg_auth g)) = Inr [] \<and>
       (fst (route model (eg_router g)) = None \<and> refused J n 503 ''no available backend'' g g' \<or>
        (\<exists>b. fst (route model (eg_router g)) = Some b \<and> eg_out g' = eg_out g @ [(n, Ev_Start)] \<and> n \<notin> eg_gone g' \<and>
           eg_pending g' = eg_pending g @ [\<lparr>et_req = early_request model temp tok ms, et_cb = \<lparr>ec_client = n, ec_model = model\<rparr>,
             et_node = \<lparr>ns_name = bn_name b, ns_url = bn_url b, ns_api_key = bn_api_key b, ns_model = bn_model b\<rparr>\<rparr>] \<and>
           m_active_requests (eg_metrics g') = m_active_requests (eg_metrics g) + 1))))"
proof (cases "parse_request J what (er_body req)")
  case (Inl err)
  then have "eg_send_error J n 400 err g = (Inr (), g')" using assms(1) by (simp add: eg_handle_chat_def)
  from eg_send_error_to[OF this assms(2)] show ?thesis using Inl by (auto simp: refused_def)
next
  case (Inr r)
  obtain model temp tok ms where r: "r = (model, temp, tok, ms)" by (metis prod.exhaust)
  obtain ra a where v: "verify (ck_steady K) (early_key req) model (eg_auth g) = (ra, a)" by force
  obtain node rt where n: "route model (eg_router g) = (node, rt)" by force
  note run = assms(1)[unfolded eg_handle_chat_def Inr r sum.case prod.case eg_verify_def bind_def v]
  obtain err where ra: "ra = Inr err" using run by (cases ra) auto
  show ?thesis
  proof (cases "err = []")
    case False
    then have "eg_send_error J n 401 err (g\<lparr>eg_auth := a, eg_metrics := (eg_metrics g)\<lparr>m_auth_failed := m_auth_failed (eg_metrics g) + 1\<rparr>\<rparr>) = (Inr (), g')"
      using run ra by (simp add: andthen_def eg_upd_metrics_def)
    from eg_send_error_to[OF this] assms(2) show ?thesis using Inr r v ra False by (auto simp: refused_def)
  next
    case True
    show ?thesis
    proof (cases node)
      case None
      then have "eg_send_error J n 503 ''no available backend'' (g\<lparr>eg_auth := a, eg_router := rt\<rparr>) = (Inr (), g')"
        using run ra True n by (simp add: eg_route_def)
      from eg_send_error_to[OF this] assms(2) show ?thesis using Inr r v ra True n None by (auto simp: refused_def)
    next
      case (Some b)
      then show ?thesis using run assms(2) Inr r v ra True n
        by (auto simp: eg_route_def ev_put_def andthen_def bind_def eg_upd_metrics_def eg_submit_def)
    qed
  qed
qed

definition early_demo :: early_gateway where
  "early_demo = snd (eg_main_start demo_K \<lparr>eg_auth = empty_auth, eg_router = (\<lambda>_. None), eg_metrics = metrics_zero,
     eg_running = False, eg_pending = [], eg_active = [], eg_out = [], eg_gone = {}\<rparr>)"

definition early_demo_req :: ev_request where
  "early_demo_req = \<lparr>er_method = Ev_Post, er_uri = ''/v1/chat/completions'', er_header = (\<lambda>_. []), er_body = ''{}''\<rparr>"

theorem early_chat_outcome_witness:
  "\<exists>g'. eg_handle_chat (sample_json (\<lambda>_. Inr (JObj [(''messages'', JArr [])])) (\<lambda>_. Inr ''x'')) (\<lambda>_. []) demo_K 7 early_demo_req early_demo = (Inr (), g') \<and>
     eg_out g' = [(7, Ev_Start)] \<and> length (eg_pending g') = 1"
proof -
  let ?J = "sample_json (\<lambda>_. Inr (JObj [(''messages'', JArr [])])) (\<lambda>_. Inr ''x'')"
  obtain r g' where run: "eg_handle_chat ?J (\<lambda>_. []) demo_K 7 early_demo_req early_demo = (r, g')" by force
  have int: "jvalue_int (sample_json p d) = jv_value (\<lambda>j. bindE (jv_int j) (\<lambda>i. Inr (int32 i)))" for p d by (simp add: sample_json_def)
  have p: "parse_request ?J (\<lambda>_. []) (er_body early_demo_req) = Inr (''moonshot-v1-8k'', 7 / 10, 2048, ''x'')"
    by (simp add: parse_request_def jv_value_def jat_checked_def int)
  have k: "early_key early_demo_req = []" by (simp add: early_key_def early_demo_req_def starts_with_def)
  have s: "eg_out early_demo = []" "eg_gone early_demo = {}" "eg_pending early_demo = []"
    by (simp_all add: early_demo_def eg_main_start_def eg_start_def)
  have v: "fst (verify t [] m a) = Inr []" for t m a by (simp add: verify_def auth_passed_def)
  have "fst (route ''moonshot-v1-8k'' (eg_router early_demo)) \<noteq> None"
    by (simp add: early_demo_def eg_main_start_def eg_start_def route_def route_default_def default_group_def pick_def
        register_node_def add_node_def empty_lb_def early_local_node_def default_node_def)
  then obtain b where b: "fst (route ''moonshot-v1-8k'' (eg_router early_demo)) = Some b" by blast
  have "r = Inr ()" using run p k b v s
    by (auto simp: eg_handle_chat_def eg_verify_def eg_route_def bind_def andthen_def ev_put_def eg_upd_metrics_def eg_submit_def
        verify_def auth_passed_def split: prod.splits)
  with early_chat_outcome[of ?J "\<lambda>_. []" demo_K 7 early_demo_req early_demo g'] run p k b v s show ?thesis
    by (intro exI[of _ g']) auto
qed

section \<open>Transfers\<close>

lemma eg_events_tokens:
  assumes "ec_client cb \<notin> eg_gone g" "\<And>t. t \<in> set toks \<Longrightarrow> make_sse_chunk J t (ec_model cb) = Inr (enc t)"
  shows "eg_events J cb (map Token toks @ evs) g =
    eg_events J cb evs (g\<lparr>eg_out := eg_out g @ map (\<lambda>t. (ec_client cb, frame_of (enc t))) toks\<rparr>)"
  using assms
proof (induction toks arbitrary: g)
  case (Cons t toks)
  then show ?case
    by (simp add: eg_event_def eg_on_token_def sse_write_def ev_put_def andthen_def bind_def frame_of_def)
qed simp

lemma eg_on_done_to:
  assumes "ec_client cb \<notin> eg_gone g"
  shows "\<exists>g'. eg_on_done cb g = (Inr (), g') \<and>
    eg_out g' = eg_out g @ [(ec_client cb, frame_of ''[DONE]''), (ec_client cb, Ev_End)] \<and>
    eg_gone g' = insert (ec_client cb) (eg_gone g) \<and> eg_active g' = eg_active g \<and>
    m_active_requests (eg_metrics g') = m_active_requests (eg_metrics g) - 1 \<and>
    m_success_count (eg_metrics g') = m_success_count (eg_metrics g) + 1 \<and> m_errors (eg_metrics g') = m_errors (eg_metrics g)"
  using assms by (simp add: eg_on_done_def sse_write_def ev_final_def ev_put_def andthen_def bind_def eg_upd_metrics_def frame_of_def)

lemma eg_on_error_to:
  assumes "ec_client cb \<notin> eg_gone g" "jdump J (jobj J [(''error'', jstr J err)]) = Inr e"
  shows "\<exists>g'. eg_on_error J cb err g = (Inr (), g') \<and>
    eg_out g' = eg_out g @ [(ec_client cb, frame_of e), (ec_client cb, Ev_End)] \<and>
    eg_gone g' = insert (ec_client cb) (eg_gone g) \<and> eg_active g' = eg_active g \<and>
    m_active_requests (eg_metrics g') = m_active_requests (eg_metrics g) - 1 \<and>
    m_errors (eg_metrics g') = m_errors (eg_metrics g) + 1 \<and> m_success_count (eg_metrics g') = m_success_count (eg_metrics g)"
  using assms by (simp add: eg_on_error_def sse_write_def ev_final_def ev_put_def andthen_def bind_def eg_upd_metrics_def frame_of_def)

text \<open>A callback after the end of the reply writes to a request that is gone.\<close>

lemma eg_after_end:
  "ec_client cb \<in> eg_gone g \<Longrightarrow> eg_on_done cb g = (Inl UB, g)"
  "ec_client cb \<in> eg_gone g \<Longrightarrow> jdump J (jobj J [(''error'', jstr J err)]) = Inr e \<Longrightarrow> eg_on_error J cb err g = (Inl UB, g)"
  by (simp_all add: eg_on_done_def eg_on_error_def sse_write_def ev_put_def andthen_def bind_def)

text \<open>C39. The engine of the first gateway settles an accepted request once. From a started transfer, received
  bytes that parse to content tokens and the end, and a successful report of libcurl, the client gets one
  frame for each token, in order, then the end marker and the end of the reply; a transfer that fails before
  any byte gets one error frame and the end. In both cases the transfer leaves the table, and the gauge is
  one below its value at the start of the transfer, which the queued request had raised by one; but the
  success, or the error, is counted twice.\<close>

theorem early_transfer_settles:
  assumes "ec_client (et_cb task) \<notin> eg_gone g" "early_body J (et_req task) (et_node task) = Inr body" "jdump J body = Inr text"
    "early_feed J bytes (early_new (lr_has_token (et_req task)) (lr_has_done (et_req task))) = (None, p)"
    "es_log p = map Token toks @ [Done]"
    "\<And>t. t \<in> set toks \<Longrightarrow> make_sse_chunk J t (ec_model (et_cb task)) = Inr (enc t)"
    "jdump J (jobj J [(''error'', jstr J err)]) = Inr e"
  shows "(\<exists>g'. andthen (eg_add_transfer J (Some h) task) (andthen (eg_write J h bytes)
        (eg_reap_one J \<lparr>cm_handle = h, cm_error = None, cm_http_code = 200\<rparr>)) g = (Inr (), g') \<and>
      eg_out g' = eg_out g @ map (\<lambda>t. (ec_client (et_cb task), frame_of (enc t))) toks @
        [(ec_client (et_cb task), frame_of ''[DONE]''), (ec_client (et_cb task), Ev_End)] \<and>
      um_find (eg_active g') h = None \<and> m_active_requests (eg_metrics g') = m_active_requests (eg_metrics g) - 1 \<and>
      m_success_count (eg_metrics g') = m_success_count (eg_metrics g) + 2 \<and> m_errors (eg_metrics g') = m_errors (eg_metrics g)) \<and>
    (\<exists>g'. andthen (eg_add_transfer J (Some h) task)
        (eg_reap_one J \<lparr>cm_handle = h, cm_error = Some err, cm_http_code = 0\<rparr>) g = (Inr (), g') \<and>
      eg_out g' = eg_out g @ [(ec_client (et_cb task), frame_of e), (ec_client (et_cb task), Ev_End)] \<and>
      um_find (eg_active g') h = None \<and> m_active_requests (eg_metrics g') = m_active_requests (eg_metrics g) - 1 \<and>
      m_errors (eg_metrics g') = m_errors (eg_metrics g) + 2 \<and> m_success_count (eg_metrics g') = m_success_count (eg_metrics g))"
proof -
  let ?cb = "et_cb task" and ?p0 = "early_new (lr_has_token (et_req task)) (lr_has_done (et_req task))"
  obtain t g1 where g1: "eg_add_transfer J (Some h) task g = (Inr (), g1)" "um_find (eg_active g1) h = Some t"
      "ex_cb t = ?cb" "ex_parser t = ?p0" "eg_out g1 = eg_out g" "eg_gone g1 = eg_gone g"
      "m_active_requests (eg_metrics g1) = m_active_requests (eg_metrics g) + 1"
      "m_success_count (eg_metrics g1) = m_success_count (eg_metrics g)" "m_errors (eg_metrics g1) = m_errors (eg_metrics g)"
    using assms(2,3) by (simp add: eg_add_transfer_def andthen_def bind_def eg_upd_metrics_def)
  let ?g2 = "g1\<lparr>eg_active := um_set h (t\<lparr>ex_parser := p\<rparr>) (eg_active g1),
    eg_metrics := (eg_metrics g1)\<lparr>m_total_tokens := m_total_tokens (eg_metrics g1) + (es_total_tokens p - es_total_tokens ?p0)\<rparr>,
    eg_out := eg_out g1 @ map (\<lambda>t. (ec_client ?cb, frame_of (enc t))) toks\<rparr>"
  have "ec_client ?cb \<notin> eg_gone ?g2" using assms(1) g1(6) by simp
  from eg_on_done_to[OF this] obtain g3 where g3: "eg_on_done ?cb ?g2 = (Inr (), g3)"
      "eg_out g3 = eg_out ?g2 @ [(ec_client ?cb, frame_of ''[DONE]''), (ec_client ?cb, Ev_End)]"
      "eg_active g3 = eg_active ?g2" "m_active_requests (eg_metrics g3) = m_active_requests (eg_metrics ?g2) - 1"
      "m_success_count (eg_metrics g3) = m_success_count (eg_metrics ?g2) + 1" "m_errors (eg_metrics g3) = m_errors (eg_metrics ?g2)"
    by blast
  have log: "drop (length (es_log ?p0)) (es_log p) = map Token toks @ [Done]" using assms(5) by (simp add: early_new_def)
  have "eg_events J ?cb (map Token toks @ [Done]) (?g2\<lparr>eg_out := eg_out g1\<rparr>) = (Inr (), g3)"
    using eg_events_tokens[of ?cb "?g2\<lparr>eg_out := eg_out g1\<rparr>" toks J enc "[Done]"] assms(1,6) g1(6) g3(1)
    by (simp add: eg_event_def andthen_def bind_def)
  then have w: "eg_write J h bytes g1 = (Inr (), g3)"
    using g1(2,3,4) assms(4) log by (simp add: eg_write_def andthen_def bind_def eg_upd_metrics_def)
  have f3: "um_find (eg_active g3) h = Some (t\<lparr>ex_parser := p\<rparr>)" using g3(3) by simp
  have "ec_client ?cb \<notin> eg_gone g1" using assms(1) g1(6) by simp
  from eg_on_error_to[OF this assms(7)] obtain g4 where g4: "eg_on_error J ?cb err g1 = (Inr (), g4)"
      "eg_out g4 = eg_out g1 @ [(ec_client ?cb, frame_of e), (ec_client ?cb, Ev_End)]" "eg_active g4 = eg_active g1"
      "m_active_requests (eg_metrics g4) = m_active_requests (eg_metrics g1) - 1"
      "m_errors (eg_metrics g4) = m_errors (eg_metrics g1) + 1" "m_success_count (eg_metrics g4) = m_success_count (eg_metrics g1)"
    by blast
  show ?thesis
    using g1 w f3 g3 g4 by (simp add: eg_reap_one_def andthen_def bind_def eg_upd_metrics_def)
qed

theorem early_transfer_settles_witness:
  "\<exists>g'. andthen (eg_add_transfer (sample_json (\<lambda>_. Inr (JArr [])) (\<lambda>_. Inr ''x'')) (Some 3)
        \<lparr>et_req = early_request ''m'' 1 5 ''[]'', et_cb = \<lparr>ec_client = 7, ec_model = ''m''\<rparr>,
         et_node = \<lparr>ns_name = [], ns_url = ''u'', ns_api_key = [], ns_model = []\<rparr>\<rparr>)
      (eg_reap_one (sample_json (\<lambda>_. Inr (JArr [])) (\<lambda>_. Inr ''x'')) \<lparr>cm_handle = 3, cm_error = Some ''timeout'', cm_http_code = 0\<rparr>) early_demo = (Inr (), g') \<and>
    eg_out g' = [(7, frame_of ''x''), (7, Ev_End)]"
proof -
  let ?J = "sample_json (\<lambda>_. Inr (JArr [])) (\<lambda>_. Inr ''x'')"
  let ?task = "\<lparr>et_req = early_request ''m'' 1 5 ''[]'', et_cb = \<lparr>ec_client = 7, ec_model = ''m''\<rparr>,
         et_node = \<lparr>ns_name = [], ns_url = ''u'', ns_api_key = [], ns_model = []\<rparr>\<rparr>"
  have s: "eg_out early_demo = []" "eg_gone early_demo = {}" by (simp_all add: early_demo_def eg_main_start_def eg_start_def)
  have feed: "\<exists>p. early_feed ?J (''data: [DONE]'' @ [CHR 0x0A]) (early_new True True) = (None, p) \<and> es_log p = map Token [] @ [Done]"
    by (simp add: early_feed_def early_flush.simps early_process_line_def strip_cr_def starts_with_def kPrefix_def early_new_def early_emit_def)
  then obtain p where p: "early_feed ?J (''data: [DONE]'' @ [CHR 0x0A]) (early_new True True) = (None, p)" "es_log p = map Token [] @ [Done]" by blast
  have r: "lr_has_token (et_req ?task)" "lr_has_done (et_req ?task)" by (simp_all add: early_request_def)
  show ?thesis
    using early_transfer_settles[of ?task early_demo ?J _ "''x''" "''data: [DONE]'' @ [CHR 0x0A]" p "[]" "\<lambda>t. t" "''timeout''" "''x''" 3]
      p r s by (simp add: early_body_def) blast
qed

end
