(* ===== verification/Local_Llama.thy ===== *)
theory Local_Llama
  imports Remote_Upstream
begin

text \<open>
  \<open>gw::LocalLlamaUpstream\<close> (\<open>src/local_llama_upstream.cpp\<close>, not part of the build): the engine that runs a
  model in the process through \<open>libllama\<close>. The library is a parameter: which names \<open>dlopen\<close> and \<open>dlsym\<close> find
  and what its functions return. The callbacks of a request are recorded as events. A call through a null
  pointer and an access outside an array are \<open>UB\<close>. (The source names the pointers of \<open>LOAD_FN\<close> differently
  where it declares and where it loads them; the model takes them to be the same.)
\<close>

section \<open>Model\<close>

record llama_config =
  lc_model_path :: string
  lc_n_ctx :: int
  lc_n_threads :: int
  lc_n_gpu_layers :: int
  lc_n_batch :: int

text \<open>\<open>le_tokenize prompt n\<close> is the returned count and the tokens written, at most \<open>n\<close>; \<open>le_piece\<close> the bytes
  written for a token, none if the call fails; \<open>le_decode\<close> whether decoding a batch succeeds.\<close>

record llama_env =
  le_open :: "string \<Rightarrow> bool"
  le_sym :: "string \<Rightarrow> bool"
  le_load_model :: "string \<Rightarrow> bool"
  le_new_context :: "llama_config \<Rightarrow> bool"
  le_n_ctx :: int
  le_tokenize :: "string \<Rightarrow> int \<Rightarrow> int \<times> int list"
  le_piece :: "int \<Rightarrow> string"
  le_decode :: "int list \<Rightarrow> bool"

datatype llama_event = LlToken string | LlDone | LlError string

record local_llama =
  lu_cfg :: llama_config
  lu_lib :: bool
  lu_syms :: "string \<Rightarrow> bool"          \<comment> \<open>the pointers that are set\<close>
  lu_model :: bool
  lu_ctx :: bool
  lu_loaded :: bool
  lu_running :: bool
  lu_thread :: bool
  lu_queue :: "llm_request list"
  lu_log :: "(llm_request \<times> llama_event) list"

definition lu_new :: "llama_config \<Rightarrow> local_llama" where
  "lu_new cfg = \<lparr>lu_cfg = cfg, lu_lib = False, lu_syms = (\<lambda>_. False), lu_model = False, lu_ctx = False, lu_loaded = False,
     lu_running = False, lu_thread = False, lu_queue = [], lu_log = []\<rparr>"

section \<open>Loading and starting\<close>

definition kLibPaths :: "string list" where
  "kLibPaths = [''libllama.so'', ''/usr/local/lib/libllama.so'', ''/usr/lib/libllama.so'', ''./libllama.so'',
     ''../llama.cpp/build/libllama.so'']"

definition required_syms :: "string list" where
  "required_syms = [''load_model_from_file'', ''new_context_with_model'', ''free_model'', ''free_ctx'',
     ''model_default_params'', ''context_default_params'']"

definition optional_syms :: "string list" where
  "optional_syms = [''tokenize'', ''token_to_piece'', ''decode'', ''n_ctx'']"

text \<open>The required symbols are loaded in order, up to the first that is missing.\<close>

definition load_library :: "llama_env \<Rightarrow> local_llama \<Rightarrow> bool \<times> local_llama" where
  "load_library E u =
     (if \<not> (\<exists>p \<in> set kLibPaths. le_open E p) then (False, u\<lparr>lu_lib := False\<rparr>)
      else let found = takeWhile (le_sym E) required_syms in
        if found \<noteq> required_syms
        then (False, u\<lparr>lu_lib := True,
                lu_syms := (\<lambda>s. s \<in> set found \<or> s \<noteq> required_syms ! length found \<and> lu_syms u s)\<rparr>)
        else (True, u\<lparr>lu_lib := True,
                lu_syms := (\<lambda>s. s \<in> set required_syms \<or> (if s \<in> set optional_syms then le_sym E s else lu_syms u s))\<rparr>))"

definition unload_library :: "local_llama \<Rightarrow> local_llama" where
  "unload_library u = u\<lparr>lu_lib := False, lu_syms := (\<lambda>_. False)\<rparr>"

definition lu_start :: "llama_env \<Rightarrow> local_llama \<Rightarrow> local_llama" where
  "lu_start E u =
     (case load_library E u of
        (False, u) \<Rightarrow> u\<lparr>lu_loaded := False, lu_running := True\<rparr>
      | (True, u) \<Rightarrow>
          if \<not> le_load_model E (lc_model_path (lu_cfg u))
          then u\<lparr>lu_model := False, lu_loaded := False, lu_running := True\<rparr>
          else if \<not> le_new_context E (lu_cfg u)
          then u\<lparr>lu_ctx := False, lu_model := False, lu_loaded := False, lu_running := True\<rparr>
          else u\<lparr>lu_model := True, lu_ctx := True, lu_loaded := True, lu_running := True, lu_thread := True\<rparr>)"

definition lu_stop :: "local_llama \<Rightarrow> local_llama" where
  "lu_stop u = u\<lparr>lu_running := False, lu_thread := False, lu_ctx := False, lu_model := False, lu_loaded := False\<rparr>"

definition lu_submit :: "llm_request \<Rightarrow> string \<Rightarrow> string \<Rightarrow> local_llama \<Rightarrow> local_llama" where
  "lu_submit req url api_key u = u\<lparr>lu_queue := lu_queue u @ [req]\<rparr>"

section \<open>Inference\<close>

definition nl :: string where "nl = [CHR 0x0A]"

definition prompt_part :: "'j jlib \<Rightarrow> 'j \<Rightarrow> string \<Rightarrow> string result" where
  "prompt_part J msg prompt =
     bindE (jvalue_str J msg ''role'' ''user'') (\<lambda>role.
     bindE (jvalue_str J msg ''content'' []) (\<lambda>content.
     Inr (if role = ''system'' then prompt @ ''<|system|>'' @ nl @ content @ nl
          else if role = ''user'' then prompt @ ''<|user|>'' @ nl @ content @ nl
          else if role = ''assistant'' then prompt @ ''<|assistant|>'' @ nl @ content @ nl
          else prompt)))"

definition build_prompt :: "'j jlib \<Rightarrow> string \<Rightarrow> string result" where
  "build_prompt J messages_json =
     bindE (jparse J messages_json) (\<lambda>messages.
     bindE (foldE (prompt_part J) (jelems J messages) []) (\<lambda>prompt. Inr (prompt @ ''<|assistant|>'' @ nl)))"

text \<open>The generation loop: \<open>k\<close> rounds are left, \<open>ts\<close> is the batch, and the value the pieces of the tokens. The
  sampled token is the last of the batch.\<close>

fun generate :: "llama_env \<Rightarrow> bool \<Rightarrow> int \<Rightarrow> nat \<Rightarrow> int list \<Rightarrow> string list result" where
  "generate E has_piece n_ctx 0 ts = Inr []"
| "generate E has_piece n_ctx (Suc k) ts =
     (if int (length ts) \<ge> n_ctx \<or> \<not> le_decode E ts then Inr []
      else if ts = [] \<or> \<not> has_piece then Inl UB
      else let tok = last ts in
        bindE (if tok = 2 then Inr [] else generate E has_piece n_ctx k (ts @ [tok])) (\<lambda>pieces.
        Inr (le_piece E tok # pieces)))"

definition events_of :: "llm_request \<Rightarrow> string list \<Rightarrow> llama_event list" where
  "events_of req pieces = (if lr_has_token req then map LlToken (filter (\<lambda>s. s \<noteq> []) pieces) else [])"

definition llama_error :: "llm_request \<Rightarrow> string \<Rightarrow> llama_event list" where
  "llama_error req msg = (if lr_has_error req then [LlError msg] else [])"

text \<open>One task of the loop. \<open>what\<close> is the text of an exception; a negative context size makes the vector throw.\<close>

definition infer_task ::
  "'j jlib \<Rightarrow> (exn \<Rightarrow> string) \<Rightarrow> llama_env \<Rightarrow> local_llama \<Rightarrow> llm_request \<Rightarrow> llama_event list result" where
  "infer_task J what E u req =
     (let done = (if lr_has_done req then [LlDone] else []) in
      if \<not> lu_loaded u \<or> \<not> lu_syms u ''decode''
      then Inr ((if lr_has_token req
                 then [LlToken (''[LocalLlama: model not loaded. Place GGUF at '' @ lc_model_path (lu_cfg u) @ '']'')] else []) @ done)
      else case build_prompt J (lr_messages_json req) of
        Inl e \<Rightarrow> (if e = UB then Inl UB else Inr (llama_error req (''llama inference error: '' @ what e)))
      | Inr prompt \<Rightarrow>
          let n_ctx = (if lu_syms u ''n_ctx'' then le_n_ctx E else lc_n_ctx (lu_cfg u)) in
          if n_ctx < 0 then Inr (llama_error req (''llama inference error: '' @ what (RuntimeError ''length_error'')))
          else if \<not> lu_syms u ''tokenize'' then Inl UB
          else case le_tokenize E prompt n_ctx of (n_tokens, tokens) \<Rightarrow>
            if n_tokens < 0 then Inr (llama_error req ''tokenize failed'')
            else if n_tokens > n_ctx \<or> length tokens \<noteq> nat n_tokens then Inl UB
            else bindE (generate E (lu_syms u ''token_to_piece'') n_ctx (nat (lr_max_tokens req)) tokens) (\<lambda>pieces.
                 Inr (events_of req pieces @ done)))"

text \<open>One turn of \<open>infer_loop\<close>.\<close>

definition infer_step :: "'j jlib \<Rightarrow> (exn \<Rightarrow> string) \<Rightarrow> llama_env \<Rightarrow> local_llama \<Rightarrow> local_llama result" where
  "infer_step J what E u =
     (if \<not> lu_thread u \<or> \<not> lu_running u then Inr u
      else case lu_queue u of
        [] \<Rightarrow> Inr u
      | req # rest \<Rightarrow>
          bindE (infer_task J what E u req) (\<lambda>evs.
          Inr (u\<lparr>lu_queue := rest, lu_log := lu_log u @ map (Pair req) evs\<rparr>)))"

section \<open>What it generates\<close>

text \<open>The loop returns, and repeats the last token of the prompt.\<close>

lemma generate_repeats:
  assumes "ts \<noteq> []"
  shows "\<exists>n. generate E True n_ctx k ts = Inr (replicate n (le_piece E (last ts))) \<and> n \<le> k \<and>
    int n \<le> max 0 (n_ctx - int (length ts)) \<and> (last ts = 2 \<longrightarrow> n \<le> 1)"
  using assms
proof (induction k arbitrary: ts)
  case (Suc k)
  show ?case
  proof (cases "int (length ts) \<ge> n_ctx \<or> \<not> le_decode E ts")
    case True
    then show ?thesis by (intro exI[of _ 0]) simp
  next
    case False
    note open_loop = this
    show ?thesis
    proof (cases "last ts = 2")
      case True
      then show ?thesis using open_loop Suc.prems by (intro exI[of _ 1]) simp
    next
      case ne: False
      obtain n where n: "generate E True n_ctx k (ts @ [last ts]) = Inr (replicate n (le_piece E (last ts)))" "n \<le> k"
          "int n \<le> max 0 (n_ctx - int (length ts) - 1)"
        using Suc.IH[of "ts @ [last ts]"] by (auto simp: algebra_simps)
      then show ?thesis using open_loop Suc.prems ne by (intro exI[of _ "Suc n"]) (simp add: Let_def)
    qed
  qed
qed simp

text \<open>C40. The local engine's generation is bounded, and degenerate: for a loaded model with all its functions
  and a prompt of at least one token that fits the context, the request ends with exactly one completion after
  at most \<open>max_tokens\<close> tokens, never past the context, and every token is the piece of the prompt's last token,
  because the loop takes the last token of its batch for the sampled one.\<close>

theorem llama_generation_bounded:
  assumes "lu_loaded u" "lu_syms u ''decode''" "lu_syms u ''tokenize''" "lu_syms u ''token_to_piece''" "lu_syms u ''n_ctx''"
    "build_prompt J (lr_messages_json req) = Inr prompt" "le_tokenize E prompt (le_n_ctx E) = (int (length ts), ts)"
    "ts \<noteq> []" "int (length ts) \<le> le_n_ctx E" "lr_has_token req" "lr_has_done req"
  shows "\<exists>n. infer_task J what E u req = Inr (replicate n (LlToken (le_piece E (last ts))) @ [LlDone]) \<and>
    int n \<le> max 0 (lr_max_tokens req) \<and> int n \<le> le_n_ctx E - int (length ts) \<and> (last ts = 2 \<longrightarrow> n \<le> 1)"
proof -
  obtain n where n: "generate E True (le_n_ctx E) (nat (lr_max_tokens req)) ts = Inr (replicate n (le_piece E (last ts)))"
      "n \<le> nat (lr_max_tokens req)" "int n \<le> max 0 (le_n_ctx E - int (length ts))" "last ts = 2 \<longrightarrow> n \<le> 1"
    using generate_repeats[OF assms(8)] by blast
  let ?m = "if le_piece E (last ts) = [] then 0 else n"
  have "events_of req (replicate n (le_piece E (last ts))) = replicate ?m (LlToken (le_piece E (last ts)))"
    using assms(10) by (simp add: events_of_def map_replicate_const filter_replicate)
  then have "infer_task J what E u req = Inr (replicate ?m (LlToken (le_piece E (last ts))) @ [LlDone])"
    using assms n(1) by (simp add: infer_task_def Let_def)
  then show ?thesis using n(2-4) assms(9) by (intro exI[of _ ?m]) auto
qed

definition demo_llama_env :: llama_env where
  "demo_llama_env = \<lparr>le_open = (\<lambda>_. True), le_sym = (\<lambda>_. True), le_load_model = (\<lambda>_. True), le_new_context = (\<lambda>_. True),
     le_n_ctx = 5, le_tokenize = (\<lambda>_ _. (3, [1, 9, 7])), le_piece = (\<lambda>t. ''x''), le_decode = (\<lambda>_. True)\<rparr>"

definition demo_llama :: local_llama where
  "demo_llama = lu_start demo_llama_env (lu_new \<lparr>lc_model_path = ''m.gguf'', lc_n_ctx = 512, lc_n_threads = 2, lc_n_gpu_layers = 0, lc_n_batch = 512\<rparr>)"

theorem llama_generation_bounded_witness:
  "\<exists>n. infer_task (sample_json (\<lambda>_. Inr (JArr [])) (\<lambda>_. Inr [])) (\<lambda>_. []) demo_llama_env demo_llama demo_request =
     Inr (replicate n (LlToken ''x'') @ [LlDone]) \<and> n \<le> 2"
proof -
  have open_ok: "\<exists>p \<in> set kLibPaths. le_open demo_llama_env p" by (intro bexI[of _ "''libllama.so''"]) (simp_all add: demo_llama_env_def kLibPaths_def)
  have lib: "load_library demo_llama_env v =
      (True, v\<lparr>lu_lib := True, lu_syms := (\<lambda>s. s \<in> set required_syms \<or> (if s \<in> set optional_syms then True else lu_syms v s))\<rparr>)" for v
    using open_ok by (simp add: load_library_def takeWhile_eq_all_conv Let_def) (simp add: demo_llama_env_def)
  have ld: "lu_loaded demo_llama" and l: "\<And>s. s \<in> set required_syms \<union> set optional_syms \<Longrightarrow> lu_syms demo_llama s"
    by (auto simp: demo_llama_def lu_start_def lib) (simp_all add: demo_llama_env_def)
  have "build_prompt (sample_json (\<lambda>_. Inr (JArr [])) (\<lambda>_. Inr [])) (lr_messages_json demo_request) = Inr (''<|assistant|>'' @ nl)"
    by (simp add: build_prompt_def)
  then have "\<exists>n. infer_task (sample_json (\<lambda>_. Inr (JArr [])) (\<lambda>_. Inr [])) (\<lambda>_. []) demo_llama_env demo_llama demo_request =
      Inr (replicate n (LlToken (le_piece demo_llama_env (last [1, 9, 7]))) @ [LlDone]) \<and> int n \<le> max 0 (lr_max_tokens demo_request) \<and>
      int n \<le> le_n_ctx demo_llama_env - int (length [1, 9, 7 :: int]) \<and> (last [1, 9, 7 :: int] = 2 \<longrightarrow> n \<le> 1)"
    by (intro llama_generation_bounded) (auto simp: ld l optional_syms_def demo_llama_env_def demo_request_def)
  then show ?thesis by (auto simp: demo_llama_env_def)
qed

text \<open>When the library, the model or the context is not there, the engine runs without its thread: what is
  submitted stays in the queue and no callback is ever called, not even with the text for this case.\<close>

lemma llama_stub_silent:
  assumes "\<not> lu_thread u"
  shows "infer_step J what E (lu_submit req url key u) = Inr (lu_submit req url key u)"
  using assms by (simp add: infer_step_def lu_submit_def)

lemma lu_start_thread:
  "lu_thread (lu_start E (lu_new cfg)) \<longleftrightarrow> fst (load_library E (lu_new cfg)) \<and> le_load_model E (lc_model_path cfg) \<and> le_new_context E cfg"
  by (auto simp: lu_start_def load_library_def lu_new_def Let_def split: prod.split bool.split)

end
